theory Spec2Isabelle
  imports Complex_Main "HOL-Library.Sublist"
begin

section \<open>Strings\<close>

text \<open>
  Names are JavaScript strings. They are modelled as \<open>string\<close> (lists of 8-bit characters),
  and \<open>String.prototype.toLowerCase\<close> as the character-wise folding of the ASCII capitals;
  every other character is left as it is.
\<close>

definition lower_char :: "char \<Rightarrow> char" where
  "lower_char c =
     (case map_of (zip ''ABCDEFGHIJKLMNOPQRSTUVWXYZ'' ''abcdefghijklmnopqrstuvwxyz'') c of
        Some d \<Rightarrow> d
      | None \<Rightarrow> c)"

definition toLowerCase :: "string \<Rightarrow> string" where
  "toLowerCase s = map lower_char s"

text \<open>\<open>s.charAt(i)\<close>: the one-character string at index \<open>i\<close>, the empty string out of range.\<close>

definition charAt :: "string \<Rightarrow> nat \<Rightarrow> string" where
  "charAt s i = (if i < length s then [s ! i] else [])"

text \<open>\<open>s.split(c)\<close> for a one-character separator: \<open>''''.split(c)\<close> is \<open>['''']\<close>.\<close>

fun split :: "char \<Rightarrow> string \<Rightarrow> string list" where
  "split c [] = [[]]"
| "split c (x # xs) =
     (if x = c then [] # split c xs
      else (case split c xs of
              [] \<Rightarrow> [[x]]
            | p # ps \<Rightarrow> (x # p) # ps))"

section \<open>levenshtein.js\<close>

text \<open>
  \<open>arr[j] = v\<close> on a JavaScript array: an index inside the array overwrites, the index
  \<open>arr.length\<close> appends, and an index beyond leaves holes (unspecified cells) in between.
\<close>

definition js_set :: "'a list \<Rightarrow> nat \<Rightarrow> 'a \<Rightarrow> 'a list" where
  "js_set xs j v =
     (if j < length xs then xs[j := v]
      else xs @ replicate (j - length xs) undefined @ [v])"

text \<open>The body of the innermost loop: the assignment to \<open>matrix[i][j]\<close>.\<close>

definition fill_cell :: "string \<Rightarrow> string \<Rightarrow> nat \<Rightarrow> nat \<Rightarrow> nat list list \<Rightarrow> nat list list" where
  "fill_cell aLower bLower i j matrix =
     (if charAt bLower (i - 1) = charAt aLower (j - 1)
      then matrix[i := js_set (matrix ! i) j (matrix ! (i - 1) ! (j - 1))]
      else matrix[i := js_set (matrix ! i) j
             (min (matrix ! (i - 1) ! (j - 1) + 1)
                (min (matrix ! i ! (j - 1) + 1)
                     (matrix ! (i - 1) ! j + 1)))])"

text \<open>
  \<open>levenshteinDistance(a, b)\<close>: three early returns, then the matrix is built by the three
  loops of the source (one row \<open>[i]\<close> per index of \<open>bLower\<close>, the first row \<open>0 .. aLower.length\<close>,
  then the cells row by row) and its last cell is returned. A read \<open>matrix[i][j]\<close> is a list
  lookup; that every cell is written before it is read is part of what is proved below.
\<close>

definition levenshteinDistance :: "string \<Rightarrow> string \<Rightarrow> nat" where
  "levenshteinDistance a b =
    (let aLower = toLowerCase a; bLower = toLowerCase b in
     if aLower = bLower then 0
     else if length aLower = 0 then length bLower
     else if length bLower = 0 then length aLower
     else
       let matrix = [];
           matrix = fold (\<lambda>i m. js_set m i [i]) [0..<Suc (length bLower)] matrix;
           matrix = fold (\<lambda>j m. m[0 := js_set (m ! 0) j j]) [0..<Suc (length aLower)] matrix;
           matrix = fold (\<lambda>i. fold (fill_cell aLower bLower i) [1..<Suc (length aLower)])
                      [1..<Suc (length bLower)] matrix
       in matrix ! length bLower ! length aLower)"

definition areTooSimilar :: "string \<Rightarrow> string \<Rightarrow> nat \<Rightarrow> bool" where
  "areTooSimilar name1 name2 threshold \<longleftrightarrow> levenshteinDistance name1 name2 < threshold"

subsection \<open>The edit distance of the specification\<close>

text \<open>
  One single-character edit: an insertion, a deletion or a substitution, at the head of the
  string or further inside.
\<close>

inductive edit1 :: "'a list \<Rightarrow> 'a list \<Rightarrow> bool" where
  ins: "edit1 xs (c # xs)"
| del: "edit1 (c # xs) xs"
| sub: "edit1 (c # xs) (d # xs)"
| inside: "edit1 xs ys \<Longrightarrow> edit1 (c # xs) (c # ys)"


text \<open>
  The recurrence that the cells of the matrix obey, read from the last characters backwards:
  the cell in row \<open>i\<close> and column \<open>j\<close> holds \<open>lev_rec\<close> of the reversed prefixes of length \<open>i\<close>
  and \<open>j\<close>.
\<close>

fun lev_rec :: "'a list \<Rightarrow> 'a list \<Rightarrow> nat" where
  "lev_rec [] ys = length ys"
| "lev_rec (x # xs) [] = Suc (length xs)"
| "lev_rec (x # xs) (y # ys) =
     (if x = y then lev_rec xs ys
      else min (lev_rec xs ys + 1) (min (lev_rec (x # xs) ys + 1) (lev_rec xs (y # ys) + 1)))"

section \<open>Text files\<close>

text \<open>The white space that \<open>String.prototype.trim\<close> removes, as far as it is ASCII.\<close>

definition is_space :: "char \<Rightarrow> bool" where
  "is_space c \<longleftrightarrow> c \<in> set [CHR '' '', CHR 0x09, CHR 0x0A, CHR 0x0B, CHR 0x0C, CHR 0x0D]"

definition trim :: "string \<Rightarrow> string" where
  "trim s = rev (dropWhile is_space (rev (dropWhile is_space s)))"

definition startsWith :: "string \<Rightarrow> string \<Rightarrow> bool" where
  "startsWith s p \<longleftrightarrow> take (length p) s = p"

text \<open>\<open>parseNameFile(text)\<close>: one name per line, blank lines and \<open>#\<close> comments dropped.\<close>

definition parseNameFile :: "string \<Rightarrow> string list" where
  "parseNameFile text =
     filter (\<lambda>line. line \<noteq> [] \<and> \<not> startsWith line ''#'')
       (map (\<lambda>line. trim line) (split (CHR 0x0A) text))"

text \<open>\<open>parseBlacklist(text)\<close>: the same lines, lower-cased, as a set.\<close>

definition parseBlacklist :: "string \<Rightarrow> string set" where
  "parseBlacklist text =
     set (filter (\<lambda>line. line \<noteq> [] \<and> \<not> startsWith line ''#'')
       (map (\<lambda>line. toLowerCase (trim line)) (split (CHR 0x0A) text)))"

section \<open>Errors, the random source, the sampling loop\<close>

text \<open>
  \<open>Error msg\<close> is \<open>throw new Error(msg)\<close>; \<open>TypeError\<close> is what the engine raises when a method is
  called on \<open>undefined\<close>, when a value that is called is not a function and when a value
  that is iterated is not iterable.
\<close>

datatype js_error = Error string | TypeError

text \<open>
  The random source is injected: \<open>rnd k\<close> is the number that the \<open>k\<close>-th call of
  \<open>Math.random()\<close> returns, as a rational, and the position \<open>pos\<close> of the next call is part of
  the state. \<open>Math.floor(Math.random() * n)\<close> is \<open>random_index\<close>, and \<open>xs[i]\<close> is \<open>js_nth\<close>:
  \<open>undefined\<close> (here \<open>None\<close>) out of range.
\<close>

definition random_index :: "rat \<Rightarrow> nat \<Rightarrow> int" where
  "random_index r n = \<lfloor>r * of_nat n\<rfloor>"

definition js_nth :: "'a list \<Rightarrow> int \<Rightarrow> 'a option" where
  "js_nth xs i = (if 0 \<le> i \<and> i < int (length xs) then Some (xs ! nat i) else None)"

text \<open>An output value \<open>{ firstname, lastname }\<close>.\<close>

record generated_pair =
  pair_firstname :: string
  pair_lastname :: string

text \<open>
  The variants of the generator share the sampling loop of \<open>generate\<close>. Its state is the tuple
  \<open>(results, attempted, attempts)\<close> of the local variables, the position in the random source
  and the generator object. The parameters are the similarity check of the variant
  (\<open>isTooSimilarToExisting\<close>, which may update the generator object and may throw) and
  \<open>checkResults\<close>: whether the variant also looks the candidate up in \<open>results\<close> before it
  pushes it.

  \<open>sample_step\<close> is one run of the loop body. When a drawn name is \<open>undefined\<close>, building
  \<open>key\<close> raises a \<open>TypeError\<close>; an error that the similarity check throws leaves the loop
  and \<open>generate\<close>.
\<close>

definition sample_step ::
  "(nat \<Rightarrow> rat) \<Rightarrow> ('s \<Rightarrow> string \<Rightarrow> string \<Rightarrow> (js_error + bool) \<times> 's) \<Rightarrow> bool \<Rightarrow>
   string list \<Rightarrow> string list \<Rightarrow>
   (generated_pair list \<times> string set \<times> nat) \<times> nat \<times> 's \<Rightarrow>
   (js_error + generated_pair list \<times> string set \<times> nat) \<times> nat \<times> 's" where
  "sample_step rnd similar checkResults firstnames lastnames =
     (\<lambda>((results, attempted, attempts), pos, this).
        let attempts = attempts + 1;
            drawn1 = js_nth firstnames (random_index (rnd pos) (length firstnames));
            drawn2 = js_nth lastnames (random_index (rnd (pos + 1)) (length lastnames));
            pos = pos + 2
        in case (drawn1, drawn2) of
             (Some firstname, Some lastname) \<Rightarrow>
               let key = toLowerCase firstname @ ''|'' @ toLowerCase lastname in
               if key \<in> attempted then (Inr (results, attempted, attempts), pos, this)
               else
                 let attempted = insert key attempted;
                     (verdict, this) = similar this firstname lastname
                 in (case verdict of
                       Inl e \<Rightarrow> (Inl e, pos, this)
                     | Inr tooSimilar \<Rightarrow>
                         if tooSimilar then (Inr (results, attempted, attempts), pos, this)
                         else if checkResults \<and>
                                 (\<exists>r \<in> set results.
                                     toLowerCase (pair_firstname r) = toLowerCase firstname \<and>
                                     toLowerCase (pair_lastname r) = toLowerCase lastname)
                         then (Inr (results, attempted, attempts), pos, this)
                         else (Inr (results @ [\<lparr>pair_firstname = firstname, pair_lastname = lastname\<rparr>],
                                    attempted, attempts), pos, this))
           | _ \<Rightarrow> (Inl TypeError, pos, this))"

function sampling_loop ::
  "(nat \<Rightarrow> rat) \<Rightarrow> ('s \<Rightarrow> string \<Rightarrow> string \<Rightarrow> (js_error + bool) \<times> 's) \<Rightarrow> bool \<Rightarrow>
   string list \<Rightarrow> string list \<Rightarrow>
   nat \<Rightarrow> nat \<Rightarrow> (generated_pair list \<times> string set \<times> nat) \<times> nat \<times> 's \<Rightarrow>
   (js_error + generated_pair list \<times> string set \<times> nat) \<times> nat \<times> 's" where
  "sampling_loop rnd similar checkResults firstnames lastnames count maxAttempts
       ((results, attempted, attempts), pos, this) =
     (if length results < count \<and> attempts < maxAttempts then
        (case sample_step rnd similar checkResults firstnames lastnames
                ((results, attempted, attempts), pos, this) of
           (Inl e, pos', this') \<Rightarrow> (Inl e, pos', this')
         | (Inr vars, pos', this') \<Rightarrow>
             sampling_loop rnd similar checkResults firstnames lastnames count maxAttempts
               (vars, pos', this'))
      else (Inr (results, attempted, attempts), pos, this))"
  by pat_completeness auto
termination
  by (relation "measure (\<lambda>(rnd, similar, checkResults, firstnames, lastnames, count, maxAttempts,
                            (results, attempted, attempts), pos, this). maxAttempts - attempts)")
     (auto simp: sample_step_def Let_def split: option.splits if_splits prod.splits sum.splits)

text \<open>A similarity check that always returns, as a parameter of the loop.\<close>

definition returns ::
  "('s \<Rightarrow> string \<Rightarrow> string \<Rightarrow> bool \<times> 's) \<Rightarrow> 's \<Rightarrow> string \<Rightarrow> string \<Rightarrow> (js_error + bool) \<times> 's" where
  "returns check this firstname lastname =
     (let (tooSimilar, this) = check this firstname lastname in (Inr tooSimilar, this))"

section \<open>generator.js: existing pairs rebuilt per source\<close>

text \<open>One loaded entry \<open>{name, source}\<close> of a word list.\<close>

record name_record =
  name :: string
  source :: string

text \<open>
  The generator object. \<open>existingPairsCache\<close> is \<open>_existingPairsCache\<close>: \<open>None\<close> while it is
  \<open>null\<close> or absent, otherwise the set of keys in insertion order. The fields that no operation
  below reads (\<open>existingCombinations\<close>, \<open>defaultFiles\<close>) are left out.
\<close>

record NPCGenerator =
  allFirstnames :: "name_record list"
  allLastnames :: "name_record list"
  blacklistedFirstnames :: "string set"
  blacklistedLastnames :: "string set"
  loaded :: bool
  currentRace :: "string option"
  currentSex :: "string option"
  existingPairsCache :: "string list option"

text \<open>
  What a \<open>fetch\<close> of a blacklist file can do: answer with a text, answer with a status that is
  not ok, or fail.
\<close>

datatype fetch_result = FetchOk string | FetchNotOk | FetchFailed

text \<open>
  \<open>loadData(race, sex)\<close>. The two calls of \<open>loadDirectory\<close> read files; they catch every failure
  themselves and return the entries that could be read, which are the parameters \<open>firstnames\<close>
  and \<open>lastnames\<close> here.
\<close>

definition loadData ::
  "string \<Rightarrow> string \<Rightarrow> name_record list \<Rightarrow> name_record list \<Rightarrow> fetch_result \<Rightarrow> fetch_result \<Rightarrow>
   NPCGenerator \<Rightarrow> (js_error + bool) \<times> NPCGenerator" where
  "loadData race sex firstnames lastnames fnBlacklist lnBlacklist this =
     (let this = this\<lparr>currentRace := Some race, currentSex := Some sex, existingPairsCache := None\<rparr>;
          this = this\<lparr>allFirstnames := firstnames\<rparr>;
          this = this\<lparr>allLastnames := lastnames\<rparr>;
          this = (case fnBlacklist of
                    FetchOk text \<Rightarrow> this\<lparr>blacklistedFirstnames := parseBlacklist text\<rparr>
                  | FetchNotOk \<Rightarrow> this
                  | FetchFailed \<Rightarrow> this\<lparr>blacklistedFirstnames := {}\<rparr>);
          this = (case lnBlacklist of
                    FetchOk text \<Rightarrow> this\<lparr>blacklistedLastnames := parseBlacklist text\<rparr>
                  | FetchNotOk \<Rightarrow> this
                  | FetchFailed \<Rightarrow> this\<lparr>blacklistedLastnames := {}\<rparr>)
      in if length (allFirstnames this) = 0
         then (Inl (Error (''No firstnames found for '' @ race @ '' '' @ sex)), this\<lparr>loaded := False\<rparr>)
         else if length (allLastnames this) = 0
         then (Inl (Error (''No lastnames found for '' @ race)), this\<lparr>loaded := False\<rparr>)
         else (Inr True, this\<lparr>loaded := True\<rparr>))"

text \<open>
  The loop of \<open>getFirstnames\<close> and \<open>getLastnames\<close>: a name is pushed unless its lower-case form
  is blacklisted or was seen before.
\<close>

fun unique_names :: "string set \<Rightarrow> name_record list \<Rightarrow> string set \<Rightarrow> string list \<Rightarrow> string list" where
  "unique_names blacklisted [] seen results = results"
| "unique_names blacklisted (fn # filtered) seen results =
     (let lower = toLowerCase (name fn) in
      if lower \<notin> blacklisted \<and> lower \<notin> seen
      then unique_names blacklisted filtered (insert lower seen) (results @ [name fn])
      else unique_names blacklisted filtered seen results)"

definition getFirstnames :: "NPCGenerator \<Rightarrow> string \<Rightarrow> string list" where
  "getFirstnames this sourceFilter =
     (let filtered = allFirstnames this;
          filtered =
            (if sourceFilter = ''vanilla'' then filter (\<lambda>fn. source fn = ''vanilla'') filtered
             else if sourceFilter = ''expanded''
             then filter (\<lambda>fn. source fn \<in> set [''tr'', ''sky'', ''pc'']) filtered
             else filtered)
      in unique_names (blacklistedFirstnames this) filtered {} [])"

definition getLastnames :: "NPCGenerator \<Rightarrow> string \<Rightarrow> string list" where
  "getLastnames this sourceFilter =
     (let filtered = allLastnames this;
          filtered =
            (if sourceFilter = ''vanilla'' then filter (\<lambda>ln. source ln = ''vanilla'') filtered
             else if sourceFilter = ''expanded''
             then filter (\<lambda>ln. source ln \<in> set [''tr'', ''sky'', ''pc'']) filtered
             else filtered)
      in unique_names (blacklistedLastnames this) filtered {} [])"

text \<open>
  \<open>fnBySource\<close> and \<open>lnBySource\<close> are plain objects \<open>{}\<close> used as maps from a source to the
  array of its lower-cased names. Their own properties are kept as an association list in the
  order of their creation, which is the order of \<open>Object.keys\<close> (for sources that are array
  indices, such as \<open>7\<close>, \<open>Object.keys\<close> lists them first and in numeric order; this changes
  the order in which the keys enter the cache and nothing else, and is not modelled). A plain
  object inherits the members of \<open>Object.prototype\<close>, whose names are listed here; each of
  them is a function or an object, so it is truthy and is no array.
\<close>

definition object_prototype_names :: "string list" where
  "object_prototype_names =
     [''constructor'', ''__defineGetter__'', ''__defineSetter__'', ''hasOwnProperty'',
      ''__lookupGetter__'', ''__lookupSetter__'', ''isPrototypeOf'', ''propertyIsEnumerable'',
      ''toString'', ''valueOf'', ''__proto__'', ''toLocaleString'']"

text \<open>
  The value of \<open>obj[key]\<close>: an array that is an own property, an inherited member of
  \<open>Object.prototype\<close>, or \<open>undefined\<close>.
\<close>

datatype property = Own "string list" | Inherited | Undefined

definition get_property :: "(string \<times> string list) list \<Rightarrow> string \<Rightarrow> property" where
  "get_property obj key =
     (case map_of obj key of
        Some xs \<Rightarrow> Own xs
      | None \<Rightarrow> if key \<in> set object_prototype_names then Inherited else Undefined)"

text \<open>The assignment \<open>obj[key] = xs\<close> to an own property: a new key is added at the end.\<close>

fun set_property :: "(string \<times> string list) list \<Rightarrow> string \<Rightarrow> string list \<Rightarrow> (string \<times> string list) list" where
  "set_property [] key xs = [(key, xs)]"
| "set_property ((k, v) # obj) key xs =
     (if k = key then (k, xs) # obj else (k, v) # set_property obj key xs)"

text \<open>
  \<open>if (!obj[src]) obj[src] = []; obj[src].push(x)\<close>. An inherited member is truthy, so it is
  not replaced by an array, and it has no method \<open>push\<close>: the call throws a \<open>TypeError\<close>.
\<close>

definition push_by_source ::
  "(string \<times> string list) list \<Rightarrow> string \<Rightarrow> string \<Rightarrow> js_error + (string \<times> string list) list" where
  "push_by_source obj src x =
     (let obj = (case get_property obj src of
                   Undefined \<Rightarrow> set_property obj src []
                 | _ \<Rightarrow> obj)
      in case get_property obj src of
           Own xs \<Rightarrow> Inr (set_property obj src (xs @ [x]))
         | _ \<Rightarrow> Inl TypeError)"

text \<open>
  The loops \<open>this.allFirstnames.forEach(...)\<close> and \<open>this.allLastnames.forEach(...)\<close> that fill
  \<open>fnBySource\<close> and \<open>lnBySource\<close>; an error thrown by the callback ends the loop.
\<close>

fun group_by_source ::
  "name_record list \<Rightarrow> (string \<times> string list) list \<Rightarrow> js_error + (string \<times> string list) list" where
  "group_by_source [] obj = Inr obj"
| "group_by_source (r # records) obj =
     (case push_by_source obj (source r) (toLowerCase (name r)) of
        Inl e \<Rightarrow> Inl e
      | Inr obj \<Rightarrow> group_by_source records obj)"

text \<open>\<open>Set.prototype.add\<close>, on a set kept in insertion order.\<close>

definition set_add :: "'a list \<Rightarrow> 'a \<Rightarrow> 'a list" where
  "set_add xs x = (if x \<in> set xs then xs else xs @ [x])"

text \<open>
  \<open>obj[source] || []\<close>, as the list that \<open>for ... of\<close> runs over: iterating an inherited
  member, which is not iterable, throws a \<open>TypeError\<close>.
\<close>

definition names_of_source :: "(string \<times> string list) list \<Rightarrow> string \<Rightarrow> js_error + string list" where
  "names_of_source obj src =
     (case get_property obj src of
        Own xs \<Rightarrow> Inr xs
      | Undefined \<Rightarrow> Inr []
      | Inherited \<Rightarrow> Inl TypeError)"

text \<open>
  The loop \<open>for (const source of Object.keys(fnBySource))\<close> that adds the keys \<open>fn|ln\<close> of
  every first name and last name of the same source to the cache. The state is the error
  thrown, if any, and the cache.
\<close>

fun pairs_loop ::
  "(string \<times> string list) list \<Rightarrow> (string \<times> string list) list \<Rightarrow> string list \<Rightarrow> string list \<Rightarrow>
   js_error option \<times> string list" where
  "pairs_loop fnBySource lnBySource [] cache = (None, cache)"
| "pairs_loop fnBySource lnBySource (src # sources) cache =
     (case (names_of_source fnBySource src, names_of_source lnBySource src) of
        (Inr fns, Inr lns) \<Rightarrow>
          pairs_loop fnBySource lnBySource sources
            (fold (\<lambda>fn cache. fold (\<lambda>ln cache. set_add cache (fn @ ''|'' @ ln)) lns cache) fns cache)
      | _ \<Rightarrow> (Some TypeError, cache))"

text \<open>
  What \<open>isTooSimilarToExisting\<close> does on its first call, after it has set
  \<open>this._existingPairsCache\<close> to a new empty set: it fills the two objects and then the set.
  The result is the error thrown, if any, and the set as it is left; when one of the first
  two loops throws, the set is left empty.
\<close>

definition build_pairs :: "name_record list \<Rightarrow> name_record list \<Rightarrow> js_error option \<times> string list" where
  "build_pairs firstnames lastnames =
     (case group_by_source firstnames [] of
        Inl e \<Rightarrow> (Some e, [])
      | Inr fnBySource \<Rightarrow>
          (case group_by_source lastnames [] of
             Inl e \<Rightarrow> (Some e, [])
           | Inr lnBySource \<Rightarrow> pairs_loop fnBySource lnBySource (map fst fnBySource) []))"

text \<open>
  The loop over the cached keys. A key is taken apart by \<open>existing.split('|')\<close>, and the first
  two parts are the existing first name and last name; with fewer than two parts the last name
  would be \<open>undefined\<close> and equal to no string.
\<close>

fun scan_pairs :: "string \<Rightarrow> string \<Rightarrow> string list \<Rightarrow> bool" where
  "scan_pairs fnLower lnLower [] = False"
| "scan_pairs fnLower lnLower (existing # cache) =
     (case split CHR ''|'' existing of
        existingFn # existingLn # _ \<Rightarrow>
          if existingLn = lnLower \<and> areTooSimilar fnLower existingFn 3 then True
          else scan_pairs fnLower lnLower cache
      | _ \<Rightarrow> scan_pairs fnLower lnLower cache)"

text \<open>
  \<open>isTooSimilarToExisting(firstname, lastname)\<close>: the verdict or the error thrown, and the
  generator object with its cache.
\<close>

definition isTooSimilarToExisting ::
  "NPCGenerator \<Rightarrow> string \<Rightarrow> string \<Rightarrow> (js_error + bool) \<times> NPCGenerator" where
  "isTooSimilarToExisting this firstname lastname =
     (let fnLower = toLowerCase firstname;
          lnLower = toLowerCase lastname;
          (thrown, cache) = (case existingPairsCache this of
                               None \<Rightarrow> build_pairs (allFirstnames this) (allLastnames this)
                             | Some cache \<Rightarrow> (None, cache));
          this = this\<lparr>existingPairsCache := Some cache\<rparr>
      in case thrown of
           Some e \<Rightarrow> (Inl e, this)
         | None \<Rightarrow>
             let candidateKey = fnLower @ ''|'' @ lnLower
             in if candidateKey \<in> set cache then (Inr True, this)
                else (Inr (scan_pairs fnLower lnLower cache), this))"

text \<open>
  \<open>generate(count, sourceFilter)\<close>, from position \<open>pos\<close> of the random source. The result is
  the value returned or the error thrown, the new position and the generator object.
\<close>

definition generate ::
  "(nat \<Rightarrow> rat) \<Rightarrow> nat \<Rightarrow> nat \<Rightarrow> string \<Rightarrow> NPCGenerator \<Rightarrow>
   (js_error + generated_pair list) \<times> nat \<times> NPCGenerator" where
  "generate rnd pos count sourceFilter this =
     (if \<not> loaded this then (Inl (Error ''Data not loaded''), pos, this)
      else
        let firstnames = getFirstnames this sourceFilter;
            lastnames = getLastnames this sourceFilter
        in if length firstnames = 0
           then (Inl (Error ''No firstnames available (check source filter and blacklist)''), pos, this)
           else if length lastnames = 0
           then (Inl (Error ''No lastnames available (check source filter and blacklist)''), pos, this)
           else
             (case sampling_loop rnd isTooSimilarToExisting False firstnames lastnames
                     count (count * 500) (([], {}, 0), pos, this) of
                (Inl e, pos', this') \<Rightarrow> (Inl e, pos', this')
              | (Inr (results, attempted, attempts), pos', this') \<Rightarrow> (Inr results, pos', this')))"

section \<open>The variant with a list of full names (\<open>allFullnames\<close>)\<close>

text \<open>
  This variant loads the names of the existing characters from a third directory. Its
  \<open>getFirstnames\<close> and \<open>getLastnames\<close> are those of \<open>generator.js\<close>, word for word.
\<close>

record NPCGenerator_p0 =
  allFirstnames_p0 :: "name_record list"
  allLastnames_p0 :: "name_record list"
  allFullnames_p0 :: "name_record list"
  blacklistedFirstnames_p0 :: "string set"
  blacklistedLastnames_p0 :: "string set"
  loaded_p0 :: bool

definition loadData_p0 ::
  "string \<Rightarrow> string \<Rightarrow> name_record list \<Rightarrow> name_record list \<Rightarrow> name_record list \<Rightarrow>
   fetch_result \<Rightarrow> fetch_result \<Rightarrow> NPCGenerator_p0 \<Rightarrow> (js_error + bool) \<times> NPCGenerator_p0" where
  "loadData_p0 race sex firstnames lastnames fullnames fnBlacklist lnBlacklist this =
     (let this = this\<lparr>allFirstnames_p0 := firstnames\<rparr>;
          this = this\<lparr>allLastnames_p0 := lastnames\<rparr>;
          this = this\<lparr>allFullnames_p0 := fullnames\<rparr>;
          this = (case fnBlacklist of
                    FetchOk text \<Rightarrow> this\<lparr>blacklistedFirstnames_p0 := parseBlacklist text\<rparr>
                  | FetchNotOk \<Rightarrow> this
                  | FetchFailed \<Rightarrow> this\<lparr>blacklistedFirstnames_p0 := {}\<rparr>);
          this = (case lnBlacklist of
                    FetchOk text \<Rightarrow> this\<lparr>blacklistedLastnames_p0 := parseBlacklist text\<rparr>
                  | FetchNotOk \<Rightarrow> this
                  | FetchFailed \<Rightarrow> this\<lparr>blacklistedLastnames_p0 := {}\<rparr>)
      in if length (allFirstnames_p0 this) = 0
         then (Inl (Error (''No firstnames found for '' @ race @ '' '' @ sex)), this\<lparr>loaded_p0 := False\<rparr>)
         else if length (allLastnames_p0 this) = 0
         then (Inl (Error (''No lastnames found for '' @ race)), this\<lparr>loaded_p0 := False\<rparr>)
         else (Inr True, this\<lparr>loaded_p0 := True\<rparr>))"

definition getFirstnames_p0 :: "NPCGenerator_p0 \<Rightarrow> string \<Rightarrow> string list" where
  "getFirstnames_p0 this sourceFilter =
     (let filtered = allFirstnames_p0 this;
          filtered =
            (if sourceFilter = ''vanilla'' then filter (\<lambda>fn. source fn = ''vanilla'') filtered
             else if sourceFilter = ''expanded''
             then filter (\<lambda>fn. source fn \<in> set [''tr'', ''sky'', ''pc'']) filtered
             else filtered)
      in unique_names (blacklistedFirstnames_p0 this) filtered {} [])"

definition getLastnames_p0 :: "NPCGenerator_p0 \<Rightarrow> string \<Rightarrow> string list" where
  "getLastnames_p0 this sourceFilter =
     (let filtered = allLastnames_p0 this;
          filtered =
            (if sourceFilter = ''vanilla'' then filter (\<lambda>ln. source ln = ''vanilla'') filtered
             else if sourceFilter = ''expanded''
             then filter (\<lambda>ln. source ln \<in> set [''tr'', ''sky'', ''pc'']) filtered
             else filtered)
      in unique_names (blacklistedLastnames_p0 this) filtered {} [])"

text \<open>The loop of \<open>isTooSimilarToExisting\<close> over \<open>allFullnames\<close>.\<close>

fun scan_fullnames :: "string \<Rightarrow> string \<Rightarrow> name_record list \<Rightarrow> bool" where
  "scan_fullnames firstname lastname [] = False"
| "scan_fullnames firstname lastname (existing # fullnames) =
     (let candidateFull = toLowerCase (firstname @ '' '' @ lastname);
          existingLower = toLowerCase (name existing)
      in if candidateFull = existingLower then True
         else
           (case split CHR '' '' existingLower of
              [existingFn, existingLn] \<Rightarrow>
                if existingLn = toLowerCase lastname \<and>
                   areTooSimilar (toLowerCase firstname) existingFn 3
                then True
                else scan_fullnames firstname lastname fullnames
            | _ \<Rightarrow> scan_fullnames firstname lastname fullnames))"

definition isTooSimilarToExisting_p0 ::
  "NPCGenerator_p0 \<Rightarrow> string \<Rightarrow> string \<Rightarrow> bool \<times> NPCGenerator_p0" where
  "isTooSimilarToExisting_p0 this firstname lastname =
     (scan_fullnames firstname lastname (allFullnames_p0 this), this)"

definition generate_p0 ::
  "(nat \<Rightarrow> rat) \<Rightarrow> nat \<Rightarrow> nat \<Rightarrow> string \<Rightarrow> NPCGenerator_p0 \<Rightarrow>
   (js_error + generated_pair list) \<times> nat \<times> NPCGenerator_p0" where
  "generate_p0 rnd pos count sourceFilter this =
     (if \<not> loaded_p0 this then (Inl (Error ''Data not loaded''), pos, this)
      else
        let firstnames = getFirstnames_p0 this sourceFilter;
            lastnames = getLastnames_p0 this sourceFilter
        in if length firstnames = 0
           then (Inl (Error ''No firstnames available (check source filter and blacklist)''), pos, this)
           else if length lastnames = 0
           then (Inl (Error ''No lastnames available (check source filter and blacklist)''), pos, this)
           else
             (case sampling_loop rnd (returns isTooSimilarToExisting_p0) False firstnames lastnames
                     count (count * 100) (([], {}, 0), pos, this) of
                (Inl e, pos', this') \<Rightarrow> (Inl e, pos', this')
              | (Inr (results, attempted, attempts), pos', this') \<Rightarrow> (Inr results, pos', this')))"

section \<open>The variant with one file of characters (\<open>npcs\<close>)\<close>

text \<open>An existing character \<open>{firstname, lastname, source}\<close>; \<open>lastname\<close> is \<open>null\<close> for a single name.\<close>

record npc =
  npc_firstname :: string
  npc_lastname :: "string option"
  npc_source :: string

record NPCGenerator_p1 =
  npcs :: "npc list"
  blacklistedLastnames_p1 :: "string set"
  loaded_p1 :: bool

text \<open>\<open>s.split(/\s+/)\<close>: the pieces between the runs of white space.\<close>

function split_ws :: "string \<Rightarrow> string list" where
  "split_ws [] = [[]]"
| "split_ws (x # xs) =
     (if is_space x then [] # split_ws (dropWhile is_space xs)
      else (case split_ws xs of
              [] \<Rightarrow> [[x]]
            | p # ps \<Rightarrow> (x # p) # ps))"
  by pat_completeness auto
termination
  by (relation "measure length") (auto simp: length_dropWhile_le less_Suc_eq_le)

text \<open>\<open>parts.join(' ')\<close>.\<close>

fun join_space :: "string list \<Rightarrow> string" where
  "join_space [] = []"
| "join_space [p] = p"
| "join_space (p # ps) = p @ '' '' @ join_space ps"

text \<open>The index of the last occurrence of \<open>p\<close> in \<open>s\<close> (\<open>s.lastIndexOf(p)\<close>), if there is one.\<close>

fun lastIndexOf :: "string \<Rightarrow> string \<Rightarrow> nat option" where
  "lastIndexOf [] p = (if p = [] then Some 0 else None)"
| "lastIndexOf (x # xs) p =
     (case lastIndexOf xs p of
        Some i \<Rightarrow> Some (Suc i)
      | None \<Rightarrow> if startsWith (x # xs) p then Some 0 else None)"

text \<open>The record that \<open>parseNPCFile\<close> makes of one line \<open>Firstname Lastname | source\<close>.\<close>

definition parseNPCLine :: "string \<Rightarrow> npc option" where
  "parseNPCLine line =
     (let (namePart, src) =
            (case lastIndexOf line '' | '' of
               Some pipeIndex \<Rightarrow>
                 (trim (take pipeIndex line), toLowerCase (trim (drop (pipeIndex + 3) line)))
             | None \<Rightarrow> (line, ''vanilla''));
          parts = split_ws namePart
      in if length parts \<ge> 2
         then Some \<lparr>npc_firstname = hd parts, npc_lastname = Some (join_space (tl parts)),
                    npc_source = src\<rparr>
         else if length parts = 1
         then Some \<lparr>npc_firstname = hd parts, npc_lastname = None, npc_source = src\<rparr>
         else None)"

definition parseNPCFile :: "string \<Rightarrow> npc list" where
  "parseNPCFile text =
     (let lines = filter (\<lambda>line. line \<noteq> [] \<and> \<not> startsWith line ''#'')
                    (map (\<lambda>line. trim line) (split (CHR 0x0A) text))
      in List.map_filter parseNPCLine lines)"

text \<open>
  \<open>loadData(race, sex)\<close> of this variant; what the two fetches do are the parameters. A fetch
  that fails rejects with a \<open>TypeError\<close>.
\<close>

definition loadData_p1 ::
  "string \<Rightarrow> string \<Rightarrow> fetch_result \<Rightarrow> fetch_result \<Rightarrow> NPCGenerator_p1 \<Rightarrow>
   (js_error + bool) \<times> NPCGenerator_p1" where
  "loadData_p1 race sex npcFile blacklistFile this =
     (case npcFile of
        FetchFailed \<Rightarrow> (Inl TypeError, this\<lparr>loaded_p1 := False\<rparr>)
      | FetchNotOk \<Rightarrow>
          (Inl (Error (''No data found for '' @ race @ '' '' @ sex)), this\<lparr>loaded_p1 := False\<rparr>)
      | FetchOk npcText \<Rightarrow>
          let this = this\<lparr>npcs := parseNPCFile npcText\<rparr>;
              this = (case blacklistFile of
                        FetchOk blacklistText \<Rightarrow>
                          this\<lparr>blacklistedLastnames_p1 := parseBlacklist blacklistText\<rparr>
                      | FetchNotOk \<Rightarrow> this\<lparr>blacklistedLastnames_p1 := {}\<rparr>
                      | FetchFailed \<Rightarrow> this\<lparr>blacklistedLastnames_p1 := {}\<rparr>)
          in (Inr True, this\<lparr>loaded_p1 := True\<rparr>))"

definition filterBySource :: "NPCGenerator_p1 \<Rightarrow> string \<Rightarrow> npc list" where
  "filterBySource this sourceFilter =
     (if sourceFilter = ''all'' then npcs this
      else filter (\<lambda>npc. npc_source npc = sourceFilter) (npcs this))"

text \<open>
  \<open>getFirstnames\<close> and \<open>getLastnames\<close> collect the names in a \<open>Set\<close> of the strings as they are
  written and return \<open>Array.from\<close> of it. A name that is \<open>null\<close> or empty is skipped.
\<close>

definition getFirstnames_p1 :: "NPCGenerator_p1 \<Rightarrow> string \<Rightarrow> string list" where
  "getFirstnames_p1 this sourceFilter =
     (let filteredNpcs = filterBySource this sourceFilter
      in fold (\<lambda>npc names. if npc_firstname npc \<noteq> [] then set_add names (npc_firstname npc) else names)
           filteredNpcs [])"

definition getLastnames_p1 :: "NPCGenerator_p1 \<Rightarrow> string \<Rightarrow> string list" where
  "getLastnames_p1 this sourceFilter =
     (let filteredNpcs = filterBySource this sourceFilter
      in fold (\<lambda>npc names.
                 case npc_lastname npc of
                   None \<Rightarrow> names
                 | Some lastname \<Rightarrow>
                     if lastname \<noteq> [] \<and> toLowerCase lastname \<notin> blacklistedLastnames_p1 this
                     then set_add names lastname else names)
           filteredNpcs [])"

text \<open>The loop of \<open>isTooSimilarToExisting\<close> over \<open>npcs\<close>; \<open>!npc.lastname\<close> skips the record.\<close>

fun scan_npcs :: "string \<Rightarrow> string \<Rightarrow> npc list \<Rightarrow> bool" where
  "scan_npcs firstname lastname [] = False"
| "scan_npcs firstname lastname (npc # rest) =
     (case npc_lastname npc of
        None \<Rightarrow> scan_npcs firstname lastname rest
      | Some existingLastname \<Rightarrow>
          if existingLastname = [] then scan_npcs firstname lastname rest
          else
            let candidateFull = toLowerCase (firstname @ '' '' @ lastname);
                existingFull = toLowerCase (npc_firstname npc @ '' '' @ existingLastname)
            in if candidateFull = existingFull then True
               else if toLowerCase existingLastname = toLowerCase lastname \<and>
                       areTooSimilar firstname (npc_firstname npc) 3
               then True
               else scan_npcs firstname lastname rest)"

definition isTooSimilarToExisting_p1 ::
  "NPCGenerator_p1 \<Rightarrow> string \<Rightarrow> string \<Rightarrow> bool \<times> NPCGenerator_p1" where
  "isTooSimilarToExisting_p1 this firstname lastname =
     (scan_npcs firstname lastname (npcs this), this)"

definition generate_p1 ::
  "(nat \<Rightarrow> rat) \<Rightarrow> nat \<Rightarrow> nat \<Rightarrow> string \<Rightarrow> NPCGenerator_p1 \<Rightarrow>
   (js_error + generated_pair list) \<times> nat \<times> NPCGenerator_p1" where
  "generate_p1 rnd pos count sourceFilter this =
     (if \<not> loaded_p1 this then (Inl (Error ''Data not loaded''), pos, this)
      else
        let firstnames = getFirstnames_p1 this sourceFilter;
            lastnames = getLastnames_p1 this sourceFilter
        in if length firstnames = 0
           then (Inl (Error ''No firstnames available''), pos, this)
           else if length lastnames = 0
           then (Inl (Error ''No lastnames available (all may be blacklisted)''), pos, this)
           else
             (case sampling_loop rnd (returns isTooSimilarToExisting_p1) True firstnames lastnames
                     count (count * 100) (([], {}, 0), pos, this) of
                (Inl e, pos', this') \<Rightarrow> (Inl e, pos', this')
              | (Inr (results, attempted, attempts), pos', this') \<Rightarrow> (Inr results, pos', this')))"

section \<open>Auxiliary notions for the proofs\<close>

subsection \<open>The matrix of \<open>levenshteinDistance\<close>\<close>

text \<open>The value of the cell in row \<open>i\<close> and column \<open>j\<close>.\<close>

definition cell :: "string \<Rightarrow> string \<Rightarrow> nat \<Rightarrow> nat \<Rightarrow> nat" where
  "cell A B i j = lev_rec (rev (take i B)) (rev (take j A))"

text \<open>The matrix after the rows \<open>1 .. n\<close> have been filled.\<close>

definition filled :: "string \<Rightarrow> string \<Rightarrow> nat \<Rightarrow> nat list list" where
  "filled A B n =
     map (\<lambda>i. if i \<le> n then map (cell A B i) [0..<Suc (length A)] else [i]) [0..<Suc (length B)]"

subsection \<open>The sampling loop\<close>

text \<open>
  The key under which \<open>generate\<close> remembers a pair in \<open>attempted\<close>, and the pair of its lower-case
  names.
\<close>

definition pair_key :: "generated_pair \<Rightarrow> string" where
  "pair_key p = toLowerCase (pair_firstname p) @ ''|'' @ toLowerCase (pair_lastname p)"

definition lowered :: "generated_pair \<Rightarrow> string \<times> string" where
  "lowered p = (toLowerCase (pair_firstname p), toLowerCase (pair_lastname p))"

text \<open>
  The invariant of the sampling loop, for a similarity check whose verdict is \<open>P\<close> on every
  generator object that satisfies \<open>J\<close>.
\<close>

definition loop_inv ::
  "('s \<Rightarrow> bool) \<Rightarrow> (string \<Rightarrow> string \<Rightarrow> bool) \<Rightarrow> string list \<Rightarrow> string list \<Rightarrow> nat \<Rightarrow> nat \<Rightarrow> nat \<Rightarrow>
   (generated_pair list \<times> string set \<times> nat) \<times> nat \<times> 's \<Rightarrow> bool" where
  "loop_inv J P fns lns count maxAttempts pos0 =
     (\<lambda>((res, att, a), pos, s).
        J s \<and> pos = pos0 + 2 * a \<and> a \<le> maxAttempts \<and> length res \<le> count \<and>
        (\<forall>p \<in> set res. pair_firstname p \<in> set fns \<and> pair_lastname p \<in> set lns \<and>
            \<not> P (pair_firstname p) (pair_lastname p) \<and> pair_key p \<in> att) \<and>
        distinct (map lowered res))"

subsection \<open>The generator objects before any load\<close>

definition initial :: NPCGenerator where
  "initial = \<lparr>allFirstnames = [], allLastnames = [], blacklistedFirstnames = {},
     blacklistedLastnames = {}, loaded = False, currentRace = None, currentSex = None,
     existingPairsCache = None\<rparr>"

definition initial_p0 :: NPCGenerator_p0 where
  "initial_p0 = \<lparr>allFirstnames_p0 = [], allLastnames_p0 = [], allFullnames_p0 = [],
     blacklistedFirstnames_p0 = {}, blacklistedLastnames_p0 = {}, loaded_p0 = False\<rparr>"

definition initial_p1 :: NPCGenerator_p1 where
  "initial_p1 = \<lparr>npcs = [], blacklistedLastnames_p1 = {}, loaded_p1 = False\<rparr>"

subsection \<open>Pools\<close>

text \<open>The entries that a source filter selects, as \<open>getFirstnames\<close> and \<open>getLastnames\<close> do.\<close>

definition by_filter :: "string \<Rightarrow> name_record list \<Rightarrow> name_record list" where
  "by_filter sourceFilter records =
     (if sourceFilter = ''vanilla'' then filter (\<lambda>r. source r = ''vanilla'') records
      else if sourceFilter = ''expanded''
      then filter (\<lambda>r. source r \<in> set [''tr'', ''sky'', ''pc'']) records
      else records)"

text \<open>
  The entries of a list at which their key occurs for the first time, in the order of the
  list: the entry at index \<open>i\<close> is kept when no entry at a smaller index has its key.
\<close>

definition first_occurrences :: "('a \<Rightarrow> 'k) \<Rightarrow> 'a list \<Rightarrow> 'a list" where
  "first_occurrences key xs =
     map (\<lambda>i. xs ! i)
       (filter (\<lambda>i. \<forall>j \<in> set [0..<i]. key (xs ! j) \<noteq> key (xs ! i)) [0..<length xs])"

text \<open>
  The candidate pool of the specification, for a blacklist and the selected entries: the
  names of the entries that are not blacklisted, one for each lower-case form, as its first
  entry writes it and in the order of these first entries.
\<close>

definition pool_of :: "string set \<Rightarrow> name_record list \<Rightarrow> string list" where
  "pool_of blacklisted records =
     map name (first_occurrences (\<lambda>r. toLowerCase (name r))
                 (filter (\<lambda>r. toLowerCase (name r) \<notin> blacklisted) records))"

text \<open>
  The last names of the characters that have one which is not empty and not blacklisted, in
  the order of the characters.
\<close>

definition lastnames_of :: "string set \<Rightarrow> npc list \<Rightarrow> string list" where
  "lastnames_of blacklisted records =
     concat (map (\<lambda>n. case npc_lastname n of
                          None \<Rightarrow> []
                        | Some l \<Rightarrow> if l \<noteq> [] \<and> toLowerCase l \<notin> blacklisted then [l] else [])
               records)"

subsection \<open>Existing pairs\<close>

text \<open>
  The set of keys that \<open>isTooSimilarToExisting\<close> of \<open>generator.js\<close> works with: the cache when
  there is one, otherwise the set it builds (and leaves as the cache, also when it throws).
\<close>

definition pairs_index :: "NPCGenerator \<Rightarrow> string list" where
  "pairs_index this =
     (case existingPairsCache this of
        None \<Rightarrow> snd (build_pairs (allFirstnames this) (allLastnames this))
      | Some cache \<Rightarrow> cache)"

text \<open>No loaded entry has a source that is the name of a member of \<open>Object.prototype\<close>.\<close>

definition plain_sources :: "NPCGenerator \<Rightarrow> bool" where
  "plain_sources this \<longleftrightarrow>
     (\<forall>r \<in> set (allFirstnames this) \<union> set (allLastnames this).
        source r \<notin> set object_prototype_names)"

text \<open>The cache is there, or it is built without an error.\<close>

definition cache_ready :: "NPCGenerator \<Rightarrow> bool" where
  "cache_ready this \<longleftrightarrow>
     (case existingPairsCache this of
        None \<Rightarrow> fst (build_pairs (allFirstnames this) (allLastnames this)) = None
      | Some cache \<Rightarrow> True)"

text \<open>
  The objects that \<open>generate\<close> can reach from \<open>this\<close>: only the cache may differ, and it holds
  the same keys.
\<close>

definition same_index :: "NPCGenerator \<Rightarrow> NPCGenerator \<Rightarrow> bool" where
  "same_index this s \<longleftrightarrow>
     pairs_index s = pairs_index this \<and> (s = this \<or> s = this\<lparr>existingPairsCache := Some (pairs_index this)\<rparr>)"

text \<open>
  The existing pairs of \<open>generator.js\<close> in the words of the specification: every first name
  paired with every last name of the same source, in lower case.
\<close>

definition existing_pairs :: "NPCGenerator \<Rightarrow> (string \<times> string) list" where
  "existing_pairs this =
     [(toLowerCase (name f), toLowerCase (name l)).
        f \<leftarrow> allFirstnames this, l \<leftarrow> allLastnames this, source f = source l]"

text \<open>No loaded name holds the character \<open>|\<close>.\<close>

definition no_bar :: "NPCGenerator \<Rightarrow> bool" where
  "no_bar this \<longleftrightarrow>
     (\<forall>r \<in> set (allFirstnames this) \<union> set (allLastnames this). CHR ''|'' \<notin> set (name r))"

subsection \<open>Example data\<close>

text \<open>A random source whose every draw is 0: it always picks the first name of a pool.\<close>

definition zero_draws :: "nat \<Rightarrow> rat" where
  "zero_draws k = 0"

text \<open>A random source whose first draw is one half and whose other draws are 0.\<close>

definition half_then_zero :: "nat \<Rightarrow> rat" where
  "half_then_zero k = (if k = 0 then 1 / 2 else 0)"

text \<open>
  The example of the specification for \<open>generator.js\<close>: first names Aryon (base list) and
  Dilborn (an expansion), last name Savel (base list), so that the only existing pair is
  Aryon Savel.
\<close>

definition aryon_savel :: NPCGenerator where
  "aryon_savel =
     \<lparr>allFirstnames = [\<lparr>name = ''Aryon'', source = ''vanilla''\<rparr>, \<lparr>name = ''Dilborn'', source = ''tr''\<rparr>],
      allLastnames = [\<lparr>name = ''Savel'', source = ''vanilla''\<rparr>],
      blacklistedFirstnames = {}, blacklistedLastnames = {}, loaded = True,
      currentRace = Some ''darkelf'', currentSex = Some ''male'', existingPairsCache = None\<rparr>"

text \<open>The same example for the variant with a list of full names.\<close>

definition aryon_savel_p0 :: NPCGenerator_p0 where
  "aryon_savel_p0 =
     \<lparr>allFirstnames_p0 = [\<lparr>name = ''Aryon'', source = ''vanilla''\<rparr>, \<lparr>name = ''Dilborn'', source = ''tr''\<rparr>],
      allLastnames_p0 = [\<lparr>name = ''Savel'', source = ''vanilla''\<rparr>],
      allFullnames_p0 = [\<lparr>name = ''Aryon Savel'', source = ''vanilla''\<rparr>],
      blacklistedFirstnames_p0 = {}, blacklistedLastnames_p0 = {}, loaded_p0 = True\<rparr>"

text \<open>
  The same example for the variant with one file of characters: the file holds the single
  name Dilborn and the full name Aryon Savel.
\<close>

definition dilborn_file :: string where
  "dilborn_file = ''Dilborn'' @ [CHR 0x0A] @ ''Aryon Savel''"

definition aryon_savel_p1 :: NPCGenerator_p1 where
  "aryon_savel_p1 = \<lparr>npcs = parseNPCFile dilborn_file, blacklistedLastnames_p1 = {}, loaded_p1 = True\<rparr>"

text \<open>A load in which the blacklist of first names holds the only first name.\<close>

definition blacklisted_load :: "(js_error + bool) \<times> NPCGenerator" where
  "blacklisted_load =
     loadData ''darkelf'' ''male'' [\<lparr>name = ''Aryon'', source = ''vanilla''\<rparr>]
       [\<lparr>name = ''Savel'', source = ''vanilla''\<rparr>] (FetchOk ''aryon'') FetchNotOk initial"

text \<open>A first name from a custom list (a file listed in the manifest), and no blacklist.\<close>

definition custom_list :: NPCGenerator where
  "custom_list =
     \<lparr>allFirstnames = [\<lparr>name = ''Vedam'', source = ''custom''\<rparr>],
      allLastnames = [\<lparr>name = ''Savel'', source = ''vanilla''\<rparr>],
      blacklistedFirstnames = {}, blacklistedLastnames = {}, loaded = True,
      currentRace = Some ''darkelf'', currentSex = Some ''male'', existingPairsCache = None\<rparr>"

text \<open>
  First names that occur more than once, in different cases and in different lists; Aryon is
  blacklisted.
\<close>

definition repeated_names :: NPCGenerator where
  "repeated_names =
     \<lparr>allFirstnames = [\<lparr>name = ''Aryon'', source = ''vanilla''\<rparr>, \<lparr>name = ''Dilborn'', source = ''vanilla''\<rparr>,
                       \<lparr>name = ''Vedam'', source = ''vanilla''\<rparr>, \<lparr>name = ''DILBORN'', source = ''tr''\<rparr>,
                       \<lparr>name = ''ARYON'', source = ''tr''\<rparr>, \<lparr>name = ''dilborn'', source = ''custom''\<rparr>],
      allLastnames = [\<lparr>name = ''Savel'', source = ''vanilla''\<rparr>],
      blacklistedFirstnames = {''aryon''}, blacklistedLastnames = {}, loaded = True,
      currentRace = Some ''darkelf'', currentSex = Some ''male'', existingPairsCache = None\<rparr>"

text \<open>Two characters whose first names differ in case only.\<close>

definition two_cases_p1 :: NPCGenerator_p1 where
  "two_cases_p1 =
     \<lparr>npcs = [\<lparr>npc_firstname = ''Aryon'', npc_lastname = Some ''Savel'', npc_source = ''vanilla''\<rparr>,
              \<lparr>npc_firstname = ''ARYON'', npc_lastname = Some ''Dren'', npc_source = ''vanilla''\<rparr>],
      blacklistedLastnames_p1 = {}, loaded_p1 = True\<rparr>"

text \<open>
  The first names Aryon and Vedam of the base list and Aryan of an expansion, the last names
  Savel of the base list and Hlaalu of the expansion; Aryon is blacklisted. Then the same data
  without the entry Aryon.
\<close>

definition blacklisted_aryon :: NPCGenerator where
  "blacklisted_aryon =
     \<lparr>allFirstnames = [\<lparr>name = ''Aryon'', source = ''vanilla''\<rparr>, \<lparr>name = ''Vedam'', source = ''vanilla''\<rparr>,
                       \<lparr>name = ''Aryan'', source = ''tr''\<rparr>],
      allLastnames = [\<lparr>name = ''Savel'', source = ''vanilla''\<rparr>, \<lparr>name = ''Hlaalu'', source = ''tr''\<rparr>],
      blacklistedFirstnames = {''aryon''}, blacklistedLastnames = {}, loaded = True,
      currentRace = Some ''darkelf'', currentSex = Some ''male'', existingPairsCache = None\<rparr>"

definition without_aryon :: NPCGenerator where
  "without_aryon =
     blacklisted_aryon\<lparr>allFirstnames := [\<lparr>name = ''Vedam'', source = ''vanilla''\<rparr>,
                                          \<lparr>name = ''Aryan'', source = ''tr''\<rparr>]\<rparr>"

text \<open>
  A first name from the custom list \<open>constructor.txt\<close> (a file listed in the manifest), next to
  Aryon and Savel from the base list.
\<close>

definition prototype_source :: NPCGenerator where
  "prototype_source =
     \<lparr>allFirstnames = [\<lparr>name = ''Aryon'', source = ''vanilla''\<rparr>,
                       \<lparr>name = ''Vedam'', source = ''constructor''\<rparr>],
      allLastnames = [\<lparr>name = ''Savel'', source = ''vanilla''\<rparr>],
      blacklistedFirstnames = {}, blacklistedLastnames = {}, loaded = True,
      currentRace = Some ''darkelf'', currentSex = Some ''male'', existingPairsCache = None\<rparr>"

text \<open>
  The lines of a word list of first names of which one holds the character \<open>|\<close>, and the data
  loaded from it: \<open>ar|on\<close> and Savel from the base list, Aryon from an expansion.
\<close>

definition bar_file :: string where
  "bar_file = ''# first names'' @ [CHR 0x0A] @ ''ar|on'' @ [CHR 0x0A]"

definition bar_name :: NPCGenerator where
  "bar_name =
     \<lparr>allFirstnames = map (\<lambda>n. \<lparr>name = n, source = ''vanilla''\<rparr>) (parseNameFile bar_file) @
                      [\<lparr>name = ''Aryon'', source = ''tr''\<rparr>],
      allLastnames = [\<lparr>name = ''Savel'', source = ''vanilla''\<rparr>],
      blacklistedFirstnames = {}, blacklistedLastnames = {}, loaded = True,
      currentRace = Some ''darkelf'', currentSex = Some ''male'', existingPairsCache = None\<rparr>"

text \<open>
  The first name \<open>Aryon|Savel\<close> and the last name Hlaalu from the base list, Aryan from one
  expansion and Savel from another: the only existing pair is \<open>Aryon|Savel Hlaalu\<close>.
\<close>

definition bar_name2 :: NPCGenerator where
  "bar_name2 =
     \<lparr>allFirstnames = [\<lparr>name = ''Aryon|Savel'', source = ''vanilla''\<rparr>, \<lparr>name = ''Aryan'', source = ''tr''\<rparr>],
      allLastnames = [\<lparr>name = ''Hlaalu'', source = ''vanilla''\<rparr>, \<lparr>name = ''Savel'', source = ''sky''\<rparr>],
      blacklistedFirstnames = {}, blacklistedLastnames = {}, loaded = True,
      currentRace = Some ''darkelf'', currentSex = Some ''male'', existingPairsCache = None\<rparr>"

section \<open>The edit distance\<close>

lemma lev_rec_Nil2 [simp]: "lev_rec xs [] = length xs"
  by (cases xs) auto

lemma lev_rec_sym: "lev_rec xs ys = lev_rec ys xs"
  by (induction xs ys rule: lev_rec.induct) (auto simp: min.commute min.left_commute)

lemma lev_rec_refl [simp]: "lev_rec xs xs = 0"
  by (induction xs) auto

text \<open>Adding one character to the first string changes the value by at most one.\<close>

lemma lev_rec_Cons1:
  "lev_rec xs zs \<le> Suc (lev_rec (c # xs) zs) \<and> lev_rec (c # xs) zs \<le> Suc (lev_rec xs zs)"
proof (induction "length xs + length zs" arbitrary: xs zs c rule: less_induct)
  case less
  note IH = less.hyps
  show ?case
  proof (cases zs)
    case Nil
    then show ?thesis by simp
  next
    case (Cons z zs')
    have a: "lev_rec xs zs' \<le> Suc (lev_rec xs (z # zs'))"
      using IH[of zs' xs z] Cons by (simp add: lev_rec_sym[of xs])
    have b: "lev_rec xs (z # zs') \<le> Suc (lev_rec xs zs')"
      using IH[of zs' xs z] Cons by (simp add: lev_rec_sym[of xs])
    have c: "lev_rec xs zs' \<le> Suc (lev_rec (c # xs) zs')"
      using IH[of xs zs' c] Cons by simp
    show ?thesis using a b c Cons by auto
  qed
qed

lemma lev_rec_Cons2:
  "lev_rec xs zs \<le> Suc (lev_rec xs (c # zs)) \<and> lev_rec xs (c # zs) \<le> Suc (lev_rec xs zs)"
  using lev_rec_Cons1[of zs xs c] by (simp add: lev_rec_sym[of xs])

lemma lev_rec_Cons_Cons: "lev_rec (c # xs) (d # zs) \<le> Suc (lev_rec xs zs)"
  by simp

lemma lev_rec_sub: "lev_rec (c # xs) zs \<le> Suc (lev_rec (d # xs) zs)"
proof (induction zs)
  case Nil
  then show ?case by simp
next
  case (Cons z zs)
  have a: "lev_rec (c # xs) (z # zs) \<le> Suc (lev_rec xs zs)" by simp
  have b: "lev_rec (c # xs) (z # zs) \<le> Suc (lev_rec xs (z # zs))"
    using lev_rec_Cons1[of xs "z # zs" c] by simp
  have c: "lev_rec (c # xs) (z # zs) \<le> Suc (lev_rec (c # xs) zs)"
    using lev_rec_Cons2[of "c # xs" zs z] by simp
  have c': "lev_rec (c # xs) (z # zs) \<le> Suc (Suc (lev_rec (d # xs) zs))"
    using c Cons by linarith
  show ?case
  proof (cases "d = z")
    case True
    then have "lev_rec (d # xs) (z # zs) = lev_rec xs zs" by simp
    then show ?thesis using a by (simp del: lev_rec.simps)
  next
    case False
    then have e: "lev_rec (d # xs) (z # zs) =
        min (lev_rec xs zs + 1) (min (lev_rec (d # xs) zs + 1) (lev_rec xs (z # zs) + 1))"
      by simp
    show ?thesis unfolding e using a b c' by (simp del: lev_rec.simps add: min_def)
  qed
qed

lemma lev_rec_edit1: "edit1 xs ys \<Longrightarrow> lev_rec xs zs \<le> Suc (lev_rec ys zs)"
proof (induction arbitrary: zs rule: edit1.induct)
  case (ins xs c)
  then show ?case by (simp add: lev_rec_Cons1)
next
  case (del c xs)
  then show ?case by (simp add: lev_rec_Cons1)
next
  case (sub c xs d)
  then show ?case by (rule lev_rec_sub)
next
  case (inside xs ys c)
  show ?case
  proof (induction zs)
    case Nil
    then show ?case using inside.IH[of "[]"] by simp
  next
    case (Cons z zs)
    show ?case
    proof (cases "c = z")
      case True
      then show ?thesis using inside.IH[of zs] by simp
    next
      case False
      then show ?thesis using inside.IH[of zs] inside.IH[of "z # zs"] Cons by (simp add: min_def)
    qed
  qed
qed

lemma edit1_sym: "edit1 xs ys \<Longrightarrow> edit1 ys xs"
  by (induction rule: edit1.induct) (auto intro: edit1.intros)

lemma edits_lower: "(edit1 ^^ n) xs ys \<Longrightarrow> lev_rec xs ys \<le> n"
proof (induction n arbitrary: xs)
  case 0
  then show ?case by simp
next
  case (Suc n)
  then obtain w where w: "edit1 xs w" "(edit1 ^^ n) w ys"
    by (meson relpowp_Suc_D2)
  from Suc.IH[OF w(2)] lev_rec_edit1[OF w(1), of ys] show ?case by simp
qed

lemma edits_Cons: "(edit1 ^^ n) xs ys \<Longrightarrow> (edit1 ^^ n) (c # xs) (c # ys)"
proof (induction n arbitrary: ys)
  case 0
  then show ?case by simp
next
  case (Suc n)
  then obtain w where w: "(edit1 ^^ n) xs w" "edit1 w ys" by auto
  from Suc.IH[OF w(1)] edit1.inside[OF w(2), of c] show ?case by auto
qed

lemma edits_Nil1: "(edit1 ^^ length ys) [] ys"
proof (induction ys)
  case Nil
  then show ?case by simp
next
  case (Cons y ys)
  have "edit1 [] [y]" by (rule edit1.ins)
  moreover have "(edit1 ^^ length ys) [y] (y # ys)" using edits_Cons[OF Cons] .
  ultimately have "(edit1 ^^ Suc (length ys)) [] (y # ys)" by (rule relpowp_Suc_I2)
  then show ?case by simp
qed

lemma edits_Nil2: "(edit1 ^^ length xs) xs []"
proof (induction xs)
  case Nil
  then show ?case by simp
next
  case (Cons x xs)
  have "edit1 (x # xs) xs" by (rule edit1.del)
  then have "(edit1 ^^ Suc (length xs)) (x # xs) []" using Cons by (rule relpowp_Suc_I2)
  then show ?case by simp
qed

lemma edits_upper: "(edit1 ^^ lev_rec xs ys) xs ys"
proof (induction xs ys rule: lev_rec.induct)
  case (1 ys)
  then show ?case using edits_Nil1 by simp
next
  case (2 x xs)
  then show ?case using edits_Nil2[of "x # xs"] by simp
next
  case (3 x xs y ys)
  show ?case
  proof (cases "x = y")
    case True
    then show ?thesis using 3 edits_Cons by simp
  next
    case False
    have s: "(edit1 ^^ Suc (lev_rec xs ys)) (x # xs) (y # ys)"
      using edit1.sub[of x xs y] edits_Cons[OF 3(2)[OF False], of y]
      by (meson relpowp_Suc_I2)
    have i: "(edit1 ^^ Suc (lev_rec (x # xs) ys)) (x # xs) (y # ys)"
      using 3(3)[OF False] edit1.ins[of ys y] by auto
    have d: "(edit1 ^^ Suc (lev_rec xs (y # ys))) (x # xs) (y # ys)"
      using 3(4)[OF False] edit1.del[of x xs] by (meson relpowp_Suc_I2)
    show ?thesis using False s i d by (simp add: min_def)
  qed
qed


lemma edit1_append_right: "edit1 xs ys \<Longrightarrow> edit1 (xs @ zs) (ys @ zs)"
  by (induction rule: edit1.induct) (auto intro: edit1.intros)

lemma edit1_append_left: "edit1 xs ys \<Longrightarrow> edit1 (zs @ xs) (zs @ ys)"
  by (induction zs) (auto intro: edit1.intros)

lemma edit1_rev: "edit1 xs ys \<Longrightarrow> edit1 (rev xs) (rev ys)"
proof (induction rule: edit1.induct)
  case (ins xs c)
  show ?case using edit1_append_left[OF edit1.ins[of "[]" c], of "rev xs"] by simp
next
  case (del c xs)
  show ?case using edit1_append_left[OF edit1.del[of c "[]"], of "rev xs"] by simp
next
  case (sub c xs d)
  show ?case using edit1_append_left[OF edit1.sub[of c "[]" d], of "rev xs"] by simp
next
  case (inside xs ys c)
  then show ?case using edit1_append_right[of "rev xs" "rev ys" "[c]"] by simp
qed

lemma edits_rev: "(edit1 ^^ n) xs ys \<Longrightarrow> (edit1 ^^ n) (rev xs) (rev ys)"
proof (induction n arbitrary: ys)
  case 0
  then show ?case by simp
next
  case (Suc n)
  then obtain w where w: "(edit1 ^^ n) xs w" "edit1 w ys" by auto
  from Suc.IH[OF w(1)] edit1_rev[OF w(2)] show ?case by auto
qed

lemma lev_rec_rev: "lev_rec (rev xs) (rev ys) = lev_rec xs ys"
proof (rule antisym)
  show "lev_rec (rev xs) (rev ys) \<le> lev_rec xs ys"
    by (rule edits_lower[OF edits_rev[OF edits_upper]])
  show "lev_rec xs ys \<le> lev_rec (rev xs) (rev ys)"
    using edits_lower[OF edits_rev[OF edits_upper[of "rev xs" "rev ys"]]] by simp
qed

subsection \<open>The matrix\<close>

lemma js_set_append [simp]: "length xs = j \<Longrightarrow> js_set xs j v = xs @ [v]"
  by (auto simp: js_set_def)

lemma rows_loop: "fold (\<lambda>i m. js_set m i [i]) [0..<n] [] = map (\<lambda>i. [i]) [0..<n]"
  by (induction n) simp_all

lemma first_row_loop:
  assumes "m \<noteq> []" "m ! 0 = [0]"
  shows "fold (\<lambda>j m. m[0 := js_set (m ! 0) j j]) [0..<Suc n] m = m[0 := [0..<Suc n]]"
proof (induction n)
  case 0
  have "m[0 := [0]] = m" using assms by (metis list_update_id)
  then show ?case using assms by (simp add: js_set_def)
next
  case (Suc n)
  have "[0..<Suc (Suc n)] = [0..<Suc n] @ [Suc n]" by simp
  then show ?case using Suc assms by (simp del: upt_Suc)
qed

lemma cell_0 [simp]: "j \<le> length A \<Longrightarrow> cell A B 0 j = j"
  by (simp add: cell_def)

lemma cell_0' [simp]: "i \<le> length B \<Longrightarrow> cell A B i 0 = i"
  by (simp add: cell_def)

lemma cell_Suc:
  assumes "i < length B" "j < length A"
  shows "cell A B (Suc i) (Suc j) =
    (if B ! i = A ! j then cell A B i j
     else min (cell A B i j + 1) (min (cell A B (Suc i) j + 1) (cell A B i (Suc j) + 1)))"
  using assms by (simp add: cell_def take_Suc_conv_app_nth)

lemma fill_cell_step:
  assumes "i < length B" "j < length A" "Suc i < length m"
    and "m ! i = map (cell A B i) [0..<Suc (length A)]"
    and "m ! Suc i = map (cell A B (Suc i)) [0..<Suc j]"
  shows "fill_cell A B (Suc i) (Suc j) m = m[Suc i := map (cell A B (Suc i)) [0..<Suc (Suc j)]]"
proof -
  have l: "length (m ! Suc i) = Suc j" using assms(5) by simp
  have r1: "m ! i ! j = cell A B i j" using assms by (simp del: upt_Suc)
  have r2: "m ! Suc i ! j = cell A B (Suc i) j" using assms by (simp del: upt_Suc)
  have r3: "m ! i ! Suc j = cell A B i (Suc j)" using assms by (simp del: upt_Suc)
  have s: "js_set (m ! Suc i) (Suc j) v = m ! Suc i @ [v]" for v
    using l by simp
  have e: "map (cell A B (Suc i)) [0..<Suc (Suc j)] = m ! Suc i @ [cell A B (Suc i) (Suc j)]"
    using assms(5) by simp
  show ?thesis
    unfolding e fill_cell_def s r1 r2 r3 diff_Suc_1
    using assms(1,2) by (simp add: charAt_def cell_Suc)
qed

lemma row_loop:
  assumes "i < length B" "Suc i < length m" "n \<le> length A"
    and "m ! i = map (cell A B i) [0..<Suc (length A)]"
    and "m ! Suc i = [Suc i]"
  shows "fold (fill_cell A B (Suc i)) [1..<Suc n] m = m[Suc i := map (cell A B (Suc i)) [0..<Suc n]]"
  using assms(3)
proof (induction n)
  case 0
  have "m[Suc i := [Suc i]] = m" using assms by (metis list_update_id)
  then show ?case using assms by simp
next
  case (Suc n)
  let ?m' = "m[Suc i := map (cell A B (Suc i)) [0..<Suc n]]"
  have u: "[1..<Suc (Suc n)] = [1..<Suc n] @ [Suc n]" by simp
  have "fold (fill_cell A B (Suc i)) [1..<Suc (Suc n)] m = fill_cell A B (Suc i) (Suc n) ?m'"
    using Suc unfolding u by simp
  also have "\<dots> = ?m'[Suc i := map (cell A B (Suc i)) [0..<Suc (Suc n)]]"
    using assms Suc.prems by (intro fill_cell_step) simp_all
  finally show ?case by simp
qed

lemma filled_Suc:
  assumes "n < length B"
  shows "(filled A B n)[Suc n := map (cell A B (Suc n)) [0..<Suc (length A)]] = filled A B (Suc n)"
  using assms by (auto simp: filled_def list_eq_iff_nth_eq nth_list_update simp del: upt_Suc)

lemma matrix_loop:
  assumes "n \<le> length B"
  shows "fold (\<lambda>i. fold (fill_cell A B i) [1..<Suc (length A)]) [1..<Suc n] (filled A B 0)
         = filled A B n"
  using assms
proof (induction n)
  case 0
  then show ?case by simp
next
  case (Suc n)
  have u: "[1..<Suc (Suc n)] = [1..<Suc n] @ [Suc n]" by simp
  have "fold (\<lambda>i. fold (fill_cell A B i) [1..<Suc (length A)]) [1..<Suc (Suc n)] (filled A B 0)
      = fold (fill_cell A B (Suc n)) [1..<Suc (length A)] (filled A B n)"
    using Suc unfolding u by simp
  also have "\<dots> = (filled A B n)[Suc n := map (cell A B (Suc n)) [0..<Suc (length A)]]"
    using Suc.prems by (intro row_loop) (simp_all add: filled_def del: upt_Suc)
  finally show ?case using filled_Suc Suc.prems by simp
qed

lemma init_matrix:
  "fold (\<lambda>j m. m[0 := js_set (m ! 0) j j]) [0..<Suc (length A)]
     (fold (\<lambda>i m. js_set m i [i]) [0..<Suc (length B)] []) = filled A B 0"
proof -
  have "fold (\<lambda>j m. m[0 := js_set (m ! 0) j j]) [0..<Suc (length A)]
     (map (\<lambda>i. [i]) [0..<Suc (length B)]) = (map (\<lambda>i. [i]) [0..<Suc (length B)])[0 := [0..<Suc (length A)]]"
    by (rule first_row_loop) (simp_all add: upt_rec)
  also have "\<dots> = filled A B 0"
    by (auto simp: filled_def list_eq_iff_nth_eq nth_list_update simp del: upt_Suc)
  finally show ?thesis by (simp only: rows_loop)
qed

lemma levenshteinDistance_lev_rec:
  "levenshteinDistance a b = lev_rec (toLowerCase a) (toLowerCase b)"
proof -
  let ?A = "toLowerCase a" and ?B = "toLowerCase b"
  have "filled ?A ?B (length ?B) ! length ?B ! length ?A = cell ?A ?B (length ?B) (length ?A)"
    by (simp add: filled_def del: upt_Suc)
  also have "\<dots> = lev_rec ?A ?B"
    by (simp add: cell_def lev_rec_rev lev_rec_sym)
  finally show ?thesis
    unfolding levenshteinDistance_def Let_def init_matrix matrix_loop[OF order_refl]
    by auto
qed



section \<open>The sampling loop\<close>

lemma random_index_range:
  assumes "0 \<le> r" "r < 1" "xs \<noteq> []"
  shows "0 \<le> random_index r (length xs) \<and> random_index r (length xs) < int (length xs)"
proof -
  have n: "0 < (of_nat (length xs) :: rat)" using assms(3) by simp
  have "0 \<le> r * of_nat (length xs)" using assms(1) by simp
  moreover have "r * of_nat (length xs) < of_nat (length xs)" using assms(2) n by simp
  then have "\<lfloor>r * of_nat (length xs)\<rfloor> < int (length xs)"
    by (simp add: floor_less_iff)
  ultimately show ?thesis by (simp add: random_index_def)
qed

lemma js_nth_random:
  assumes "0 \<le> r" "r < 1" "xs \<noteq> []"
  shows "\<exists>x \<in> set xs. js_nth xs (random_index r (length xs)) = Some x"
  using random_index_range[OF assms] by (auto simp: js_nth_def)

text \<open>What one run of the loop body does, when both draws are in range.\<close>

lemma sample_step_cases:
  assumes "js_nth fns (random_index (rnd pos) (length fns)) = Some f"
      and "js_nth lns (random_index (rnd (Suc pos)) (length lns)) = Some l"
  shows "sample_step rnd similar chk fns lns ((res, att, a), pos, s) =
     (if toLowerCase f @ ''|'' @ toLowerCase l \<in> att then (Inr (res, att, Suc a), pos + 2, s)
      else case fst (similar s f l) of
             Inl e \<Rightarrow> (Inl e, pos + 2, snd (similar s f l))
           | Inr tooSimilar \<Rightarrow>
               if tooSimilar \<or> (chk \<and> (\<exists>r \<in> set res. lowered r = (toLowerCase f, toLowerCase l)))
               then (Inr (res, insert (toLowerCase f @ ''|'' @ toLowerCase l) att, Suc a), pos + 2,
                     snd (similar s f l))
               else (Inr (res @ [\<lparr>pair_firstname = f, pair_lastname = l\<rparr>],
                          insert (toLowerCase f @ ''|'' @ toLowerCase l) att, Suc a), pos + 2,
                     snd (similar s f l)))"
  using assms by (auto simp: sample_step_def Let_def lowered_def split: prod.splits sum.splits)

lemma lowered_key: "lowered p = lowered q \<Longrightarrow> pair_key p = pair_key q"
  by (simp add: lowered_def pair_key_def)

lemma loop_inv_step:
  assumes sim: "\<And>s f l. J s \<Longrightarrow> fst (similar s f l) = Inr (P f l) \<and> J (snd (similar s f l))"
      and ne: "fns \<noteq> []" "lns \<noteq> []"
      and rnd: "\<forall>k. 0 \<le> rnd k \<and> rnd k < 1"
      and inv: "loop_inv J P fns lns count maxAttempts pos0 ((res, att, a), pos, s)"
      and cond: "length res < count" "a < maxAttempts"
  shows "\<exists>vars' pos' s'. sample_step rnd similar chk fns lns ((res, att, a), pos, s) = (Inr vars', pos', s') \<and>
            loop_inv J P fns lns count maxAttempts pos0 (vars', pos', s')"
proof -
  obtain f where f: "f \<in> set fns" "js_nth fns (random_index (rnd pos) (length fns)) = Some f"
    using js_nth_random[of "rnd pos" fns] rnd ne by blast
  obtain l where l: "l \<in> set lns" "js_nth lns (random_index (rnd (Suc pos)) (length lns)) = Some l"
    using js_nth_random[of "rnd (Suc pos)" lns] rnd ne by blast
  let ?key = "toLowerCase f @ ''|'' @ toLowerCase l"
  let ?p = "\<lparr>pair_firstname = f, pair_lastname = l\<rparr>"
  have J: "J s" using inv by (simp add: loop_inv_def)
  have J': "J (snd (similar s f l))" and P: "fst (similar s f l) = Inr (P f l)"
    using sim[OF J] by auto
  note step = sample_step_cases[OF f(2) l(2), of similar chk res att a s, unfolded P sum.case]
  show ?thesis
  proof (cases "?key \<in> att")
    case True
    then show ?thesis using step inv cond by (simp add: loop_inv_def)
  next
    case False
    show ?thesis
    proof (cases "P f l \<or> (chk \<and> (\<exists>r \<in> set res. lowered r = (toLowerCase f, toLowerCase l)))")
      case True
      then show ?thesis using step inv cond False J' by (auto simp: loop_inv_def)
    next
      case nrej: False
      have new: "lowered ?p \<notin> set (map lowered res)"
      proof
        assume "lowered ?p \<in> set (map lowered res)"
        then obtain q where q: "q \<in> set res" "lowered q = lowered ?p" by auto
        then have "pair_key q = ?key" using lowered_key[OF q(2)] by (simp add: pair_key_def)
        moreover have "pair_key q \<in> att" using inv q(1) by (auto simp: loop_inv_def)
        ultimately show False using False by simp
      qed
      have "sample_step rnd similar chk fns lns ((res, att, a), pos, s) =
          (Inr (res @ [?p], insert ?key att, Suc a), pos + 2, snd (similar s f l))"
        using step False nrej by simp
      moreover have "loop_inv J P fns lns count maxAttempts pos0
          ((res @ [?p], insert ?key att, Suc a), pos + 2, snd (similar s f l))"
        using inv cond J' f(1) l(1) nrej new by (auto simp: loop_inv_def pair_key_def)
      ultimately show ?thesis by simp
    qed
  qed
qed

lemma sampling_loop_inv:
  assumes sim: "\<And>s f l. J s \<Longrightarrow> fst (similar s f l) = Inr (P f l) \<and> J (snd (similar s f l))"
      and ne: "fns \<noteq> []" "lns \<noteq> []"
      and rnd: "\<forall>k. 0 \<le> rnd k \<and> rnd k < 1"
      and inv: "loop_inv J P fns lns count maxAttempts pos0 ((res, att, a), pos, s)"
  shows "\<exists>res' att' a' pos' s'.
            sampling_loop rnd similar chk fns lns count maxAttempts ((res, att, a), pos, s)
              = (Inr (res', att', a'), pos', s') \<and>
            loop_inv J P fns lns count maxAttempts pos0 ((res', att', a'), pos', s') \<and>
            \<not> (length res' < count \<and> a' < maxAttempts)"
  using inv
proof (induction "maxAttempts - a" arbitrary: res att a pos s rule: less_induct)
  case less
  show ?case
  proof (cases "length res < count \<and> a < maxAttempts")
    case False
    then have "sampling_loop rnd similar chk fns lns count maxAttempts ((res, att, a), pos, s)
        = (Inr (res, att, a), pos, s)"
      by (subst sampling_loop.simps) auto
    then show ?thesis using less.prems False by blast
  next
    case True
    obtain vars' pos' s' where st: "sample_step rnd similar chk fns lns ((res, att, a), pos, s) = (Inr vars', pos', s')"
        and inv': "loop_inv J P fns lns count maxAttempts pos0 (vars', pos', s')"
      using loop_inv_step[where similar = similar and J = J and P = P and chk = chk,
          OF sim ne rnd less.prems] True by blast
    obtain res' att' a' where v: "vars' = (res', att', a')" by (cases vars') auto
    have "a' \<le> maxAttempts" "pos' = pos0 + 2 * a'" "pos = pos0 + 2 * a"
      using inv' less.prems by (auto simp: loop_inv_def v)
    moreover have "pos' = pos + 2"
      using st by (auto simp: sample_step_def Let_def split: option.splits if_splits prod.splits sum.splits)
    ultimately have "maxAttempts - a' < maxAttempts - a" using True by linarith
    have "sampling_loop rnd similar chk fns lns count maxAttempts ((res, att, a), pos, s)
        = sampling_loop rnd similar chk fns lns count maxAttempts ((res', att', a'), pos', s')"
      using True st by (subst sampling_loop.simps) (simp add: v)
    with less.hyps[OF \<open>maxAttempts - a' < maxAttempts - a\<close> inv'[unfolded v]] show ?thesis
      by simp
  qed
qed

text \<open>The loop from its initial state.\<close>

lemma sampling_loop_result:
  assumes sim: "\<And>s f l. J s \<Longrightarrow> fst (similar s f l) = Inr (P f l) \<and> J (snd (similar s f l))"
      and ne: "fns \<noteq> []" "lns \<noteq> []"
      and rnd: "\<forall>k. 0 \<le> rnd k \<and> rnd k < 1"
      and J: "J this"
  shows "\<exists>results attempted attempts this'.
            sampling_loop rnd similar chk fns lns count maxAttempts (([], {}, 0), pos, this)
              = (Inr (results, attempted, attempts), pos + 2 * attempts, this') \<and>
            J this' \<and> attempts \<le> maxAttempts \<and> length results \<le> count \<and>
            (length results < count \<longrightarrow> attempts = maxAttempts) \<and>
            (\<forall>p \<in> set results. pair_firstname p \<in> set fns \<and> pair_lastname p \<in> set lns \<and>
                \<not> P (pair_firstname p) (pair_lastname p)) \<and>
            distinct (map lowered results)"
proof -
  have "loop_inv J P fns lns count maxAttempts pos (([], {}, 0), pos, this)"
    using J by (simp add: loop_inv_def)
  from sampling_loop_inv[where similar = similar and J = J and P = P and chk = chk,
      OF sim ne rnd this]
  show ?thesis by (fastforce simp: loop_inv_def)
qed

text \<open>
  An error of the similarity check on the first candidate leaves the loop: the error is the
  result, two numbers have been drawn, and the generator object is the one the check left.
\<close>

lemma sampling_loop_throws:
  assumes "js_nth fns (random_index (rnd pos) (length fns)) = Some f"
      and "js_nth lns (random_index (rnd (Suc pos)) (length lns)) = Some l"
      and "fst (similar this f l) = Inl e"
      and "0 < count" "0 < maxAttempts"
  shows "sampling_loop rnd similar chk fns lns count maxAttempts (([], {}, 0), pos, this)
           = (Inl e, pos + 2, snd (similar this f l))"
  using assms(3-5)
  by (subst sampling_loop.simps) (simp add: sample_step_cases[OF assms(1,2)])

section \<open>The cache of existing pairs\<close>

lemma set_set_add [simp]: "set (set_add xs x) = insert x (set xs)"
  by (auto simp: set_add_def)

lemma map_of_set_property:
  "map_of (set_property obj key xs) k = (if k = key then Some xs else map_of obj k)"
  by (induction obj key xs rule: set_property.induct) auto

lemma keys_set_property: "fst ` set (set_property obj key xs) = insert key (fst ` set obj)"
  by (induction obj key xs rule: set_property.induct) auto

text \<open>Pushing a name under a source that is no member of \<open>Object.prototype\<close>.\<close>

lemma push_by_source_plain:
  assumes "src \<notin> set object_prototype_names"
  shows "\<exists>obj'. push_by_source obj src x = Inr obj' \<and>
           (\<forall>k. map_of obj' k =
              (if k = src then Some ((case map_of obj src of None \<Rightarrow> [] | Some xs \<Rightarrow> xs) @ [x])
               else map_of obj k)) \<and>
           fst ` set obj' = insert src (fst ` set obj)"
  using assms
  by (cases "map_of obj src")
     (auto simp: push_by_source_def get_property_def map_of_set_property keys_set_property
        intro: weak_map_of_SomeI dest: map_of_SomeD)

text \<open>Pushing a name under the name of an inherited member throws.\<close>

lemma push_by_source_inherited:
  assumes "src \<in> set object_prototype_names" "map_of obj src = None"
  shows "push_by_source obj src x = Inl TypeError"
  using assms by (simp add: push_by_source_def get_property_def)

lemma group_by_source_plain:
  assumes "\<forall>r \<in> set records. source r \<notin> set object_prototype_names"
  shows "\<exists>obj'. group_by_source records obj = Inr obj' \<and>
           (\<forall>k. map_of obj' k =
              (if \<exists>r \<in> set records. source r = k
               then Some ((case map_of obj k of None \<Rightarrow> [] | Some xs \<Rightarrow> xs) @
                          map (\<lambda>r. toLowerCase (name r)) (filter (\<lambda>r. source r = k) records))
               else map_of obj k)) \<and>
           fst ` set obj' = source ` set records \<union> fst ` set obj"
  using assms
proof (induction records arbitrary: obj)
  case Nil
  then show ?case by simp
next
  case (Cons r records)
  from Cons.prems have "source r \<notin> set object_prototype_names" by simp
  from push_by_source_plain[OF this, of obj "toLowerCase (name r)"]
  obtain obj1 where o1: "push_by_source obj (source r) (toLowerCase (name r)) = Inr obj1"
      "\<And>k. map_of obj1 k =
              (if k = source r
               then Some ((case map_of obj (source r) of None \<Rightarrow> [] | Some xs \<Rightarrow> xs) @ [toLowerCase (name r)])
               else map_of obj k)"
      "fst ` set obj1 = insert (source r) (fst ` set obj)"
    by blast
  from Cons.prems have "\<forall>r \<in> set records. source r \<notin> set object_prototype_names" by simp
  from Cons.IH[OF this, of obj1]
  obtain obj' where o': "group_by_source records obj1 = Inr obj'"
      "\<And>k. map_of obj' k =
              (if \<exists>r \<in> set records. source r = k
               then Some ((case map_of obj1 k of None \<Rightarrow> [] | Some xs \<Rightarrow> xs) @
                          map (\<lambda>r. toLowerCase (name r)) (filter (\<lambda>r. source r = k) records))
               else map_of obj1 k)"
      "fst ` set obj' = source ` set records \<union> fst ` set obj1"
    by blast
  have "group_by_source (r # records) obj = Inr obj'"
    using o1(1) o'(1) by simp
  moreover have "map_of obj' k =
              (if \<exists>r' \<in> set (r # records). source r' = k
               then Some ((case map_of obj k of None \<Rightarrow> [] | Some xs \<Rightarrow> xs) @
                          map (\<lambda>r. toLowerCase (name r)) (filter (\<lambda>r. source r = k) (r # records)))
               else map_of obj k)" for k
    unfolding o'(2) o1(2) by (auto split: option.splits)
  moreover have "fst ` set obj' = source ` set (r # records) \<union> fst ` set obj"
    unfolding o'(3) o1(3) by auto
  ultimately show ?case by blast
qed

lemma group_by_source_throws:
  assumes "\<exists>r \<in> set records. source r \<in> set object_prototype_names"
      and "\<forall>k \<in> fst ` set obj. k \<notin> set object_prototype_names"
  shows "group_by_source records obj = Inl TypeError"
  using assms
proof (induction records arbitrary: obj)
  case Nil
  then show ?case by simp
next
  case (Cons r records)
  show ?case
  proof (cases "source r \<in> set object_prototype_names")
    case True
    then have "map_of obj (source r) = None"
      using Cons.prems(2) by (metis domIff dom_map_of_conv_image_fst)
    from push_by_source_inherited[OF True this] show ?thesis by simp
  next
    case False
    from push_by_source_plain[OF False, of obj "toLowerCase (name r)"]
    obtain obj1 where o1: "push_by_source obj (source r) (toLowerCase (name r)) = Inr obj1"
        "fst ` set obj1 = insert (source r) (fst ` set obj)"
      by blast
    have "\<exists>r \<in> set records. source r \<in> set object_prototype_names"
      using Cons.prems(1) False by auto
    moreover have "\<forall>k \<in> fst ` set obj1. k \<notin> set object_prototype_names"
      unfolding o1(2) using Cons.prems(2) False by auto
    ultimately have "group_by_source records obj1 = Inl TypeError"
      by (rule Cons.IH)
    then show ?thesis using o1(1) by simp
  qed
qed

lemma names_of_source_plain:
  "src \<notin> set object_prototype_names \<Longrightarrow>
     names_of_source obj src = Inr (case map_of obj src of Some xs \<Rightarrow> xs | None \<Rightarrow> [])"
  by (simp add: names_of_source_def get_property_def split: option.splits)

lemma pairs_loop_plain:
  assumes "\<forall>src \<in> set sources. src \<notin> set object_prototype_names"
  shows "pairs_loop fnBySource lnBySource sources cache =
     (None, fold (\<lambda>src cache.
               fold (\<lambda>fn cache. fold (\<lambda>ln cache. set_add cache (fn @ ''|'' @ ln))
                      (case map_of lnBySource src of Some xs \<Rightarrow> xs | None \<Rightarrow> []) cache)
                 (case map_of fnBySource src of Some xs \<Rightarrow> xs | None \<Rightarrow> []) cache)
             sources cache)"
  using assms by (induction sources arbitrary: cache) (simp_all add: names_of_source_plain)

lemma set_fold_inner:
  "set (fold (\<lambda>ln cache. set_add cache (k fn ln)) lns cache) = set cache \<union> k fn ` set lns"
  by (induction lns arbitrary: cache) auto

lemma set_fold_middle:
  "set (fold (\<lambda>fn cache. fold (\<lambda>ln cache. set_add cache (k fn ln)) lns cache) fns cache) =
     set cache \<union> {k fn ln | fn ln. fn \<in> set fns \<and> ln \<in> set lns}"
proof (induction fns arbitrary: cache)
  case Nil
  then show ?case by simp
next
  case (Cons fn fns)
  show ?case unfolding fold_simps Cons set_fold_inner by auto
qed

lemma set_fold_outer:
  "set (fold (\<lambda>src cache.
           fold (\<lambda>fn cache. fold (\<lambda>ln cache. set_add cache (k fn ln)) (L src) cache) (F src) cache)
         srcs cache) =
     set cache \<union> {k fn ln | src fn ln. src \<in> set srcs \<and> fn \<in> set (F src) \<and> ln \<in> set (L src)}"
proof (induction srcs arbitrary: cache)
  case Nil
  then show ?case by simp
next
  case (Cons src srcs)
  show ?case unfolding fold_simps Cons set_fold_middle by auto
qed

text \<open>
  When no source is the name of a member of \<open>Object.prototype\<close>, the cache is built without
  an error and holds one key for every first name and last name of the same source.
\<close>

lemma build_pairs_plain:
  assumes "\<forall>r \<in> set firstnames \<union> set lastnames. source r \<notin> set object_prototype_names"
  shows "fst (build_pairs firstnames lastnames) = None"
    and "set (snd (build_pairs firstnames lastnames)) =
     {toLowerCase (name fn) @ ''|'' @ toLowerCase (name ln) | fn ln.
        fn \<in> set firstnames \<and> ln \<in> set lastnames \<and> source fn = source ln}"
proof -
  have pf: "\<forall>r \<in> set firstnames. source r \<notin> set object_prototype_names"
    and pl: "\<forall>r \<in> set lastnames. source r \<notin> set object_prototype_names"
    using assms by auto
  from group_by_source_plain[OF pf, of "[]"]
  obtain fnBySource where f: "group_by_source firstnames [] = Inr fnBySource"
      "\<And>k. map_of fnBySource k =
              (if \<exists>r \<in> set firstnames. source r = k
               then Some (map (\<lambda>r. toLowerCase (name r)) (filter (\<lambda>r. source r = k) firstnames))
               else None)"
      "fst ` set fnBySource = source ` set firstnames"
    by auto
  from group_by_source_plain[OF pl, of "[]"]
  obtain lnBySource where l: "group_by_source lastnames [] = Inr lnBySource"
      "\<And>k. map_of lnBySource k =
              (if \<exists>r \<in> set lastnames. source r = k
               then Some (map (\<lambda>r. toLowerCase (name r)) (filter (\<lambda>r. source r = k) lastnames))
               else None)"
    by auto
  let ?F = "\<lambda>src. case map_of fnBySource src of Some xs \<Rightarrow> xs | None \<Rightarrow> []"
  let ?L = "\<lambda>src. case map_of lnBySource src of Some xs \<Rightarrow> xs | None \<Rightarrow> []"
  have keys: "\<forall>src \<in> set (map fst fnBySource). src \<notin> set object_prototype_names"
    using f(3) pf by auto
  have b: "build_pairs firstnames lastnames =
      (None, fold (\<lambda>src cache. fold (\<lambda>fn cache. fold (\<lambda>ln cache. set_add cache (fn @ ''|'' @ ln))
                      (?L src) cache) (?F src) cache) (map fst fnBySource) [])"
    unfolding build_pairs_def f(1) l(1) using pairs_loop_plain[OF keys] by simp
  show "fst (build_pairs firstnames lastnames) = None"
    unfolding b by simp
  have F: "set (?F src) = {toLowerCase (name fn) | fn. fn \<in> set firstnames \<and> source fn = src}" for src
    by (auto simp: f(2))
  have L: "set (?L src) = {toLowerCase (name ln) | ln. ln \<in> set lastnames \<and> source ln = src}" for src
    by (auto simp: l(2))
  have k: "set (map fst fnBySource) = source ` set firstnames"
    using f(3) by simp
  have "set (snd (build_pairs firstnames lastnames)) =
      {fn @ ''|'' @ ln | src fn ln. src \<in> source ` set firstnames \<and> fn \<in> set (?F src) \<and> ln \<in> set (?L src)}"
    unfolding b snd_conv
    using set_fold_outer[of "\<lambda>fn ln. fn @ ''|'' @ ln" ?L ?F "map fst fnBySource" "[]"]
    by (simp only: k list.set Un_empty_left)
  also have "\<dots> = {toLowerCase (name fn) @ ''|'' @ toLowerCase (name ln) | fn ln.
        fn \<in> set firstnames \<and> ln \<in> set lastnames \<and> source fn = source ln}"
  proof (intro set_eqI iffI)
    fix x
    assume "x \<in> {fn @ ''|'' @ ln | src fn ln. src \<in> source ` set firstnames \<and>
                  fn \<in> set (?F src) \<and> ln \<in> set (?L src)}"
    then obtain src fn ln where x: "x = fn @ ''|'' @ ln" "fn \<in> set (?F src)" "ln \<in> set (?L src)"
      by blast
    from x(2) obtain f where f: "fn = toLowerCase (name f)" "f \<in> set firstnames" "source f = src"
      unfolding F by blast
    from x(3) obtain l where l: "ln = toLowerCase (name l)" "l \<in> set lastnames" "source l = src"
      unfolding L by blast
    show "x \<in> {toLowerCase (name fn) @ ''|'' @ toLowerCase (name ln) | fn ln.
        fn \<in> set firstnames \<and> ln \<in> set lastnames \<and> source fn = source ln}"
      unfolding mem_Collect_eq using x(1) f l
      by (intro exI[of _ f] exI[of _ l]) simp
  next
    fix x
    assume "x \<in> {toLowerCase (name fn) @ ''|'' @ toLowerCase (name ln) | fn ln.
        fn \<in> set firstnames \<and> ln \<in> set lastnames \<and> source fn = source ln}"
    then obtain f l where x: "x = toLowerCase (name f) @ ''|'' @ toLowerCase (name l)"
        "f \<in> set firstnames" "l \<in> set lastnames" "source f = source l"
      by blast
    have "toLowerCase (name f) \<in> set (?F (source f))"
      unfolding F mem_Collect_eq using x(2) by (intro exI[of _ f]) simp
    moreover have "toLowerCase (name l) \<in> set (?L (source f))"
      unfolding L mem_Collect_eq using x(3,4) by (intro exI[of _ l]) simp
    moreover have "source f \<in> source ` set firstnames" using x(2) by (rule imageI)
    ultimately show "x \<in> {fn @ ''|'' @ ln | src fn ln. src \<in> source ` set firstnames \<and>
                  fn \<in> set (?F src) \<and> ln \<in> set (?L src)}"
      unfolding mem_Collect_eq using x(1)
      by (intro exI[of _ "source f"] exI[of _ "toLowerCase (name f)"] exI[of _ "toLowerCase (name l)"])
         simp
  qed
  finally show "set (snd (build_pairs firstnames lastnames)) =
     {toLowerCase (name fn) @ ''|'' @ toLowerCase (name ln) | fn ln.
        fn \<in> set firstnames \<and> ln \<in> set lastnames \<and> source fn = source ln}" .
qed

text \<open>
  When some source is the name of a member of \<open>Object.prototype\<close>, building the cache throws
  a \<open>TypeError\<close> and leaves the cache empty.
\<close>

lemma build_pairs_throws:
  assumes "\<exists>r \<in> set firstnames \<union> set lastnames. source r \<in> set object_prototype_names"
  shows "build_pairs firstnames lastnames = (Some TypeError, [])"
proof (cases "\<exists>r \<in> set firstnames. source r \<in> set object_prototype_names")
  case True
  then have "group_by_source firstnames [] = Inl TypeError"
    by (rule group_by_source_throws) simp
  then show ?thesis by (simp add: build_pairs_def)
next
  case False
  then have "\<forall>r \<in> set firstnames. source r \<notin> set object_prototype_names" by blast
  from group_by_source_plain[OF this, of "[]"]
  obtain fnBySource where f: "group_by_source firstnames [] = Inr fnBySource" by blast
  have "\<exists>r \<in> set lastnames. source r \<in> set object_prototype_names"
    using assms False by blast
  then have "group_by_source lastnames [] = Inl TypeError"
    by (rule group_by_source_throws) simp
  then show ?thesis using f by (simp add: build_pairs_def)
qed

text \<open>Taking a key apart again gives the two names back only when they hold no \<open>|\<close>.\<close>

lemma split_no_sep: "c \<notin> set s \<Longrightarrow> split c s = [s]"
  by (induction s) auto

lemma split_key: "c \<notin> set a \<Longrightarrow> split c (a @ c # b) = a # split c b"
  by (induction a) auto

lemma split_key2:
  assumes "CHR ''|'' \<notin> set a" "CHR ''|'' \<notin> set b"
  shows "split CHR ''|'' (a @ ''|'' @ b) = [a, b]"
  using assms by (simp add: split_key split_no_sep)

section \<open>Pools\<close>

lemma unique_names_acc:
  "unique_names bl xs seen acc = acc @ unique_names bl xs seen []"
proof (induction xs arbitrary: seen acc)
  case Nil
  then show ?case by simp
next
  case (Cons r xs)
  show ?case
    using Cons[of "insert (toLowerCase (name r)) seen" "acc @ [name r]"]
          Cons[of "insert (toLowerCase (name r)) seen" "[name r]"]
          Cons[of seen acc]
    by (simp add: Let_def)
qed

lemma unique_names_Cons:
  "unique_names bl (r # xs) seen [] =
     (if toLowerCase (name r) \<notin> bl \<and> toLowerCase (name r) \<notin> seen
      then name r # unique_names bl xs (insert (toLowerCase (name r)) seen) []
      else unique_names bl xs seen [])"
  using unique_names_acc[of bl xs "insert (toLowerCase (name r)) seen" "[name r]"]
  by (simp add: Let_def)

lemma unique_names_lower_set:
  "toLowerCase ` set (unique_names bl xs seen []) = (\<lambda>r. toLowerCase (name r)) ` set xs - bl - seen"
proof (induction xs arbitrary: seen)
  case Nil
  then show ?case by simp
next
  case (Cons r xs)
  show ?case unfolding unique_names_Cons using Cons by auto
qed

lemma unique_names_distinct: "distinct (map toLowerCase (unique_names bl xs seen []))"
proof (induction xs arbitrary: seen)
  case Nil
  then show ?case by simp
next
  case (Cons r xs)
  show ?case unfolding unique_names_Cons
    using Cons unique_names_lower_set[of bl xs "insert (toLowerCase (name r)) seen"] by auto
qed

lemma unique_names_subseq: "subseq (unique_names bl xs seen []) (map name xs)"
proof (induction xs arbitrary: seen)
  case Nil
  then show ?case by simp
next
  case (Cons r xs)
  show ?case unfolding unique_names_Cons using Cons by auto
qed

lemma unique_names_first:
  assumes "n \<in> set (unique_names bl xs seen [])"
  shows "map_option name (find (\<lambda>r. toLowerCase (name r) = toLowerCase n) xs) = Some n"
  using assms
proof (induction xs arbitrary: seen)
  case Nil
  then show ?case by simp
next
  case (Cons r xs)
  show ?case
  proof (cases "toLowerCase (name r) \<notin> bl \<and> toLowerCase (name r) \<notin> seen")
    case True
    show ?thesis
    proof (cases "n = name r")
      case True
      then show ?thesis by simp
    next
      case False
      with Cons.prems True have n: "n \<in> set (unique_names bl xs (insert (toLowerCase (name r)) seen) [])"
        unfolding unique_names_Cons by (simp del: unique_names.simps)
      then have "toLowerCase n \<in> toLowerCase ` set (unique_names bl xs (insert (toLowerCase (name r)) seen) [])"
        by (rule imageI)
      then have "toLowerCase n \<noteq> toLowerCase (name r)"
        unfolding unique_names_lower_set by auto
      then show ?thesis using Cons.IH[OF n] by simp
    qed
  next
    case False
    with Cons.prems have n: "n \<in> set (unique_names bl xs seen [])"
      unfolding unique_names_Cons by (simp del: unique_names.simps)
    then have "toLowerCase n \<in> toLowerCase ` set (unique_names bl xs seen [])"
      by (rule imageI)
    then have "toLowerCase n \<noteq> toLowerCase (name r)"
      unfolding unique_names_lower_set using False by auto
    then show ?thesis using Cons.IH[OF n] by simp
  qed
qed

lemma unique_names_pool:
  "distinct (map toLowerCase (unique_names bl xs {} []))"
  "subseq (unique_names bl xs {} []) (map name xs)"
  "\<forall>n \<in> set (unique_names bl xs {} []). toLowerCase n \<notin> bl \<and>
      map_option name (find (\<lambda>r. toLowerCase (name r) = toLowerCase n) xs) = Some n"
  "\<forall>r \<in> set xs. toLowerCase (name r) \<notin> bl \<longrightarrow>
      toLowerCase (name r) \<in> toLowerCase ` set (unique_names bl xs {} [])"
proof -
  have s: "toLowerCase ` set (unique_names bl xs {} []) = (\<lambda>r. toLowerCase (name r)) ` set xs - bl"
    using unique_names_lower_set[of bl xs "{}"] by simp
  show "distinct (map toLowerCase (unique_names bl xs {} []))"
    by (rule unique_names_distinct)
  show "subseq (unique_names bl xs {} []) (map name xs)"
    by (rule unique_names_subseq)
  have "\<forall>n \<in> set (unique_names bl xs {} []). toLowerCase n \<notin> bl"
    using s by blast
  then show "\<forall>n \<in> set (unique_names bl xs {} []). toLowerCase n \<notin> bl \<and>
      map_option name (find (\<lambda>r. toLowerCase (name r) = toLowerCase n) xs) = Some n"
    using unique_names_first[of _ bl xs "{}"] by blast
  show "\<forall>r \<in> set xs. toLowerCase (name r) \<notin> bl \<longrightarrow>
      toLowerCase (name r) \<in> toLowerCase ` set (unique_names bl xs {} [])"
    unfolding s by blast
qed

text \<open>The order: the loop keeps the first occurrences, in the order of the entries.\<close>

lemma first_occurrences_Nil [simp]: "first_occurrences key [] = []"
  by (simp add: first_occurrences_def)

lemma first_occurrences_snoc:
  "first_occurrences key (xs @ [x]) =
     first_occurrences key xs @ (if key x \<in> key ` set xs then [] else [x])"
proof -
  let ?P' = "\<lambda>i. \<forall>j \<in> set [0..<i]. key ((xs @ [x]) ! j) \<noteq> key ((xs @ [x]) ! i)"
  let ?P = "\<lambda>i. \<forall>j \<in> set [0..<i]. key (xs ! j) \<noteq> key (xs ! i)"
  have f: "filter ?P' [0..<length xs] = filter ?P [0..<length xs]"
    by (rule filter_cong) (auto simp: nth_append)
  have m: "map (\<lambda>i. (xs @ [x]) ! i) is = map (\<lambda>i. xs ! i) is" if "set is \<subseteq> {..<length xs}" for "is"
    using that by (intro map_cong) (auto simp: nth_append)
  have "?P' (length xs) \<longleftrightarrow> (\<forall>j < length xs. key (xs ! j) \<noteq> key x)"
    by (auto simp: nth_append)
  also have "\<dots> \<longleftrightarrow> key x \<notin> key ` set xs"
  proof
    assume a: "\<forall>j < length xs. key (xs ! j) \<noteq> key x"
    show "key x \<notin> key ` set xs"
    proof
      assume "key x \<in> key ` set xs"
      then obtain y where y: "y \<in> set xs" "key x = key y" by auto
      then obtain j where "j < length xs" "xs ! j = y" by (auto simp: in_set_conv_nth)
      with a y(2) show False by auto
    qed
  next
    assume "key x \<notin> key ` set xs"
    then show "\<forall>j < length xs. key (xs ! j) \<noteq> key x" by (metis imageI nth_mem)
  qed
  finally have l: "?P' (length xs) \<longleftrightarrow> key x \<notin> key ` set xs" .
  have e: "first_occurrences key (xs @ [x]) =
      map (\<lambda>i. (xs @ [x]) ! i) (filter ?P' [0..<length xs]) @
      map (\<lambda>i. (xs @ [x]) ! i) (filter ?P' [length xs])"
    unfolding first_occurrences_def length_append_singleton upt_Suc_append[OF le0]
      filter_append map_append ..
  have t: "map (\<lambda>i. (xs @ [x]) ! i) (filter ?P' [length xs]) =
      (if key x \<in> key ` set xs then [] else [x])"
    unfolding filter.simps l by simp
  have h: "map (\<lambda>i. (xs @ [x]) ! i) (filter ?P' [0..<length xs]) = first_occurrences key xs"
    unfolding f first_occurrences_def by (rule m) auto
  show ?thesis unfolding e t h ..
qed

lemma set_first_occurrences: "key ` set (first_occurrences key xs) = key ` set xs"
  by (induction xs rule: rev_induct) (auto simp: first_occurrences_snoc)

lemma set_first_occurrences_id: "set (first_occurrences (\<lambda>x. x) xs) = set xs"
  using set_first_occurrences[of "\<lambda>x. x" xs] by simp

lemma distinct_first_occurrences: "distinct (map key (first_occurrences key xs))"
proof (induction xs rule: rev_induct)
  case Nil
  then show ?case by simp
next
  case (snoc x xs)
  then show ?case
    using set_first_occurrences[of key xs] by (auto simp: first_occurrences_snoc)
qed

lemma pool_of_snoc:
  "pool_of bl (done @ [r]) =
     pool_of bl done @
       (if toLowerCase (name r) \<notin> bl \<and> toLowerCase (name r) \<notin> (\<lambda>r. toLowerCase (name r)) ` set done
        then [name r] else [])"
  by (auto simp: pool_of_def first_occurrences_snoc)

lemma unique_names_pool_of_acc:
  "unique_names bl xs ((\<lambda>r. toLowerCase (name r)) ` set done - bl) (pool_of bl done) =
     pool_of bl (done @ xs)"
proof (induction xs arbitrary: "done")
  case Nil
  then show ?case by simp
next
  case (Cons r xs)
  let ?L = "\<lambda>r. toLowerCase (name r)"
  show ?case
  proof (cases "?L r \<notin> bl \<and> ?L r \<notin> ?L ` set done")
    case True
    then have s: "insert (?L r) (?L ` set done - bl) = ?L ` set (done @ [r]) - bl" by auto
    have "unique_names bl (r # xs) (?L ` set done - bl) (pool_of bl done) =
        unique_names bl xs (?L ` set (done @ [r]) - bl) (pool_of bl (done @ [r]))"
      using True unfolding s[symmetric] pool_of_snoc by (simp add: Let_def)
    also have "\<dots> = pool_of bl ((done @ [r]) @ xs)" by (rule Cons.IH)
    finally show ?thesis by simp
  next
    case False
    then have s: "?L ` set done - bl = ?L ` set (done @ [r]) - bl" by auto
    have "unique_names bl (r # xs) (?L ` set done - bl) (pool_of bl done) =
        unique_names bl xs (?L ` set done - bl) (pool_of bl done)"
      using False by (auto simp: Let_def)
    also have "\<dots> = unique_names bl xs (?L ` set (done @ [r]) - bl) (pool_of bl (done @ [r]))"
      using False unfolding s[symmetric] pool_of_snoc by auto
    also have "\<dots> = pool_of bl ((done @ [r]) @ xs)" by (rule Cons.IH)
    finally show ?thesis by simp
  qed
qed

lemma unique_names_pool_of: "unique_names bl xs {} [] = pool_of bl xs"
  using unique_names_pool_of_acc[of bl xs "[]"] by (simp add: pool_of_def)

lemma fold_set_add_first_occurrences:
  "fold (\<lambda>x names. if P x then set_add names (g x) else names) xs (first_occurrences (\<lambda>x. x) ys) =
     first_occurrences (\<lambda>x. x) (ys @ map g (filter P xs))"
proof (induction xs arbitrary: ys)
  case Nil
  then show ?case by simp
next
  case (Cons x xs)
  show ?case
  proof (cases "P x")
    case True
    have "set_add (first_occurrences (\<lambda>x. x) ys) (g x) = first_occurrences (\<lambda>x. x) (ys @ [g x])"
      by (simp add: set_add_def first_occurrences_snoc set_first_occurrences_id)
    then show ?thesis using True Cons[of "ys @ [g x]"] by simp
  next
    case False
    then show ?thesis using Cons[of ys] by simp
  qed
qed

lemma getFirstnames_by_filter:
  "getFirstnames this f = unique_names (blacklistedFirstnames this) (by_filter f (allFirstnames this)) {} []"
  by (simp add: getFirstnames_def by_filter_def Let_def)

lemma getLastnames_by_filter:
  "getLastnames this f = unique_names (blacklistedLastnames this) (by_filter f (allLastnames this)) {} []"
  by (simp add: getLastnames_def by_filter_def Let_def)

lemma getFirstnames_p0_by_filter:
  "getFirstnames_p0 this f = unique_names (blacklistedFirstnames_p0 this) (by_filter f (allFirstnames_p0 this)) {} []"
  by (simp add: getFirstnames_p0_def by_filter_def Let_def)

lemma getLastnames_p0_by_filter:
  "getLastnames_p0 this f = unique_names (blacklistedLastnames_p0 this) (by_filter f (allLastnames_p0 this)) {} []"
  by (simp add: getLastnames_p0_def by_filter_def Let_def)

text \<open>The pools of the variant with one file of characters.\<close>

lemma distinct_set_add: "distinct xs \<Longrightarrow> distinct (set_add xs x)"
  by (auto simp: set_add_def)

lemma fold_set_add_distinct:
  "distinct acc \<Longrightarrow> distinct (fold (\<lambda>x names. if P x then set_add names (g x) else names) xs acc)"
  by (induction xs arbitrary: acc) (auto simp: distinct_set_add)

lemma fold_set_add_set:
  "set (fold (\<lambda>x names. if P x then set_add names (g x) else names) xs acc) =
     set acc \<union> {g x | x. x \<in> set xs \<and> P x}"
  by (induction xs arbitrary: acc) auto

lemma getFirstnames_p1_distinct: "distinct (getFirstnames_p1 this f)"
  unfolding getFirstnames_p1_def Let_def by (rule fold_set_add_distinct) simp

lemma getFirstnames_p1_set:
  "set (getFirstnames_p1 this f) =
     {npc_firstname n | n. n \<in> set (filterBySource this f) \<and> npc_firstname n \<noteq> []}"
  unfolding getFirstnames_p1_def Let_def by (subst fold_set_add_set) simp

lemma getLastnames_p1_fold:
  "getLastnames_p1 this f =
     fold (\<lambda>n names. if (\<exists>l. npc_lastname n = Some l \<and> l \<noteq> [] \<and> toLowerCase l \<notin> blacklistedLastnames_p1 this)
                       then set_add names (the (npc_lastname n)) else names)
       (filterBySource this f) []"
proof -
  have eq: "(\<lambda>npc names. case npc_lastname npc of None \<Rightarrow> names
           | Some lastname \<Rightarrow> if lastname \<noteq> [] \<and> toLowerCase lastname \<notin> blacklistedLastnames_p1 this
                               then set_add names lastname else names) =
        (\<lambda>n names. if (\<exists>l. npc_lastname n = Some l \<and> l \<noteq> [] \<and> toLowerCase l \<notin> blacklistedLastnames_p1 this)
                       then set_add names (the (npc_lastname n)) else names)"
    by (auto simp: fun_eq_iff split: option.splits)
  show ?thesis unfolding getLastnames_p1_def Let_def
    by (rule arg_cong[of _ _ "\<lambda>h. fold h (filterBySource this f) []", OF eq])
qed

lemma getLastnames_p1_distinct: "distinct (getLastnames_p1 this f)"
  unfolding getLastnames_p1_fold by (rule fold_set_add_distinct) simp

lemma getLastnames_p1_set:
  "set (getLastnames_p1 this f) =
     {l | n l. n \<in> set (filterBySource this f) \<and> npc_lastname n = Some l \<and> l \<noteq> [] \<and>
               toLowerCase l \<notin> blacklistedLastnames_p1 this}"
  unfolding getLastnames_p1_fold by (subst fold_set_add_set) (auto, force)

lemma getFirstnames_p1_first_occurrences:
  "getFirstnames_p1 this f =
     first_occurrences (\<lambda>n. n) (filter (\<lambda>n. n \<noteq> []) (map npc_firstname (filterBySource this f)))"
  unfolding getFirstnames_p1_def Let_def
  using fold_set_add_first_occurrences[of "\<lambda>n. npc_firstname n \<noteq> []" npc_firstname "filterBySource this f" "[]"]
  by (simp add: filter_map comp_def)

lemma lastnames_of_eq:
  "lastnames_of bl records =
     map (\<lambda>n. the (npc_lastname n))
       (filter (\<lambda>n. \<exists>l. npc_lastname n = Some l \<and> l \<noteq> [] \<and> toLowerCase l \<notin> bl) records)"
  by (induction records) (auto simp: lastnames_of_def split: option.splits)

lemma getLastnames_p1_first_occurrences:
  "getLastnames_p1 this f =
     first_occurrences (\<lambda>l. l) (lastnames_of (blacklistedLastnames_p1 this) (filterBySource this f))"
  unfolding getLastnames_p1_fold lastnames_of_eq
  using fold_set_add_first_occurrences[of
      "\<lambda>n. \<exists>l. npc_lastname n = Some l \<and> l \<noteq> [] \<and> toLowerCase l \<notin> blacklistedLastnames_p1 this"
      "\<lambda>n. the (npc_lastname n)" "filterBySource this f" "[]"]
  by simp

section \<open>Loading\<close>

lemma loadData_result:
  "fst (loadData race sex firstnames lastnames b1 b2 this) =
     (if firstnames = [] then Inl (Error (''No firstnames found for '' @ race @ '' '' @ sex))
      else if lastnames = [] then Inl (Error (''No lastnames found for '' @ race))
      else Inr True)"
  by (auto simp: loadData_def Let_def split: fetch_result.splits)

lemma loadData_loaded:
  "loaded (snd (loadData race sex firstnames lastnames b1 b2 this)) \<longleftrightarrow>
     firstnames \<noteq> [] \<and> lastnames \<noteq> []"
  by (auto simp: loadData_def Let_def split: fetch_result.splits)

lemma loadData_p0_result:
  "fst (loadData_p0 race sex firstnames lastnames fullnames b1 b2 this) =
     (if firstnames = [] then Inl (Error (''No firstnames found for '' @ race @ '' '' @ sex))
      else if lastnames = [] then Inl (Error (''No lastnames found for '' @ race))
      else Inr True)"
  by (auto simp: loadData_p0_def Let_def split: fetch_result.splits)

lemma loadData_p0_loaded:
  "loaded_p0 (snd (loadData_p0 race sex firstnames lastnames fullnames b1 b2 this)) \<longleftrightarrow>
     firstnames \<noteq> [] \<and> lastnames \<noteq> []"
  by (auto simp: loadData_p0_def Let_def split: fetch_result.splits)

text \<open>
  Claim C5, as stated, fails: a load in which the blacklist of first names holds every loaded
  first name succeeds, the pool of first names is empty, and the error comes from \<open>generate\<close>.
\<close>

theorem loadData_blacklist_counterexample:
  "fst blacklisted_load = Inr True \<and>
   loaded (snd blacklisted_load) \<and>
   getFirstnames (snd blacklisted_load) ''all'' = [] \<and>
   fst (generate zero_draws 0 10 ''all'' (snd blacklisted_load)) =
     Inl (Error ''No firstnames available (check source filter and blacklist)'')"
  by code_simp

text \<open>
  Claim C5, amended. Loading fails with the error for missing data if and only if the list of
  first names or the list of last names that was read is empty, before any blacklist, removal
  of duplicates or source filter; the failure is raised by \<open>loadData\<close>, which marks the data as
  not loaded, and a load that succeeds marks them as loaded. A pool that only the blacklist or
  the source filter empties is reported by \<open>generate\<close>.
\<close>

theorem loadData_fails_iff_nothing_read:
  "((\<exists>e. fst (loadData race sex firstnames lastnames b1 b2 this) = Inl e) \<longleftrightarrow>
      firstnames = [] \<or> lastnames = []) \<and>
   (firstnames = [] \<longrightarrow>
      fst (loadData race sex firstnames lastnames b1 b2 this) =
        Inl (Error (''No firstnames found for '' @ race @ '' '' @ sex))) \<and>
   (firstnames \<noteq> [] \<and> lastnames = [] \<longrightarrow>
      fst (loadData race sex firstnames lastnames b1 b2 this) =
        Inl (Error (''No lastnames found for '' @ race))) \<and>
   (firstnames \<noteq> [] \<and> lastnames \<noteq> [] \<longrightarrow>
      fst (loadData race sex firstnames lastnames b1 b2 this) = Inr True) \<and>
   (loaded (snd (loadData race sex firstnames lastnames b1 b2 this)) \<longleftrightarrow>
      firstnames \<noteq> [] \<and> lastnames \<noteq> []) \<and>
   ((\<exists>e. fst (loadData_p0 race sex firstnames lastnames fullnames b1 b2 this0) = Inl e) \<longleftrightarrow>
      firstnames = [] \<or> lastnames = []) \<and>
   (loaded_p0 (snd (loadData_p0 race sex firstnames lastnames fullnames b1 b2 this0)) \<longleftrightarrow>
      firstnames \<noteq> [] \<and> lastnames \<noteq> []) \<and>
   (loaded this \<and> getFirstnames this sourceFilter = [] \<longrightarrow>
      fst (generate rnd pos count sourceFilter this) =
        Inl (Error ''No firstnames available (check source filter and blacklist)''))"
  by (simp add: loadData_result loadData_loaded loadData_p0_result loadData_p0_loaded generate_def)

theorem loadData_fails_iff_nothing_read_witness:
  "fst (loadData ''darkelf'' ''male'' [] [\<lparr>name = ''Savel'', source = ''vanilla''\<rparr>]
          FetchNotOk FetchNotOk initial) = Inl (Error ''No firstnames found for darkelf male'') \<and>
   fst (loadData ''darkelf'' ''male'' [\<lparr>name = ''Aryon'', source = ''vanilla''\<rparr>] []
          FetchNotOk FetchNotOk initial) = Inl (Error ''No lastnames found for darkelf'') \<and>
   fst (loadData ''darkelf'' ''male'' [\<lparr>name = ''Aryon'', source = ''vanilla''\<rparr>]
          [\<lparr>name = ''Savel'', source = ''vanilla''\<rparr>] FetchNotOk FetchNotOk initial) = Inr True \<and>
   fst (generate zero_draws 0 10 ''all'' (snd blacklisted_load)) =
     Inl (Error ''No firstnames available (check source filter and blacklist)'')"
proof -
  have h: "loaded (snd blacklisted_load) \<and> getFirstnames (snd blacklisted_load) ''all'' = []"
    by code_simp
  show ?thesis
    using loadData_fails_iff_nothing_read[where race = "''darkelf''" and sex = "''male''"
            and firstnames = "[]" and lastnames = "[\<lparr>name = ''Savel'', source = ''vanilla''\<rparr>]"
            and ?b1.0 = FetchNotOk and ?b2.0 = FetchNotOk and this = initial]
          loadData_fails_iff_nothing_read[where race = "''darkelf''" and sex = "''male''"
            and firstnames = "[\<lparr>name = ''Aryon'', source = ''vanilla''\<rparr>]" and lastnames = "[]"
            and ?b1.0 = FetchNotOk and ?b2.0 = FetchNotOk and this = initial]
          loadData_fails_iff_nothing_read[where race = "''darkelf''" and sex = "''male''"
            and firstnames = "[\<lparr>name = ''Aryon'', source = ''vanilla''\<rparr>]"
            and lastnames = "[\<lparr>name = ''Savel'', source = ''vanilla''\<rparr>]"
            and ?b1.0 = FetchNotOk and ?b2.0 = FetchNotOk and this = initial]
          loadData_fails_iff_nothing_read[where this = "snd blacklisted_load"
            and sourceFilter = "''all''" and rnd = zero_draws and pos = 0 and count = 10]
          h
    by simp
qed

section \<open>The errors of \<open>generate\<close>\<close>

text \<open>
  Claim C6. \<open>generate\<close> throws the error for data that are not loaded when \<open>loaded\<close> is false,
  as it is before any load and after a load that failed; on loaded data it throws one error
  when the pool of first names for the source filter is empty and another one when the pool
  of last names is. In the three cases nothing is drawn and the generator object is unchanged.
\<close>

theorem generate_errors:
  "(\<not> loaded this \<longrightarrow>
      generate rnd pos count sourceFilter this = (Inl (Error ''Data not loaded''), pos, this)) \<and>
   (loaded this \<and> getFirstnames this sourceFilter = [] \<longrightarrow>
      generate rnd pos count sourceFilter this =
        (Inl (Error ''No firstnames available (check source filter and blacklist)''), pos, this)) \<and>
   (loaded this \<and> getFirstnames this sourceFilter \<noteq> [] \<and> getLastnames this sourceFilter = [] \<longrightarrow>
      generate rnd pos count sourceFilter this =
        (Inl (Error ''No lastnames available (check source filter and blacklist)''), pos, this)) \<and>
   (\<not> loaded_p1 this1 \<longrightarrow>
      generate_p1 rnd pos count sourceFilter this1 = (Inl (Error ''Data not loaded''), pos, this1)) \<and>
   (loaded_p1 this1 \<and> getFirstnames_p1 this1 sourceFilter = [] \<longrightarrow>
      generate_p1 rnd pos count sourceFilter this1 =
        (Inl (Error ''No firstnames available''), pos, this1)) \<and>
   (loaded_p1 this1 \<and> getFirstnames_p1 this1 sourceFilter \<noteq> [] \<and>
    getLastnames_p1 this1 sourceFilter = [] \<longrightarrow>
      generate_p1 rnd pos count sourceFilter this1 =
        (Inl (Error ''No lastnames available (all may be blacklisted)''), pos, this1)) \<and>
   \<not> loaded initial \<and> \<not> loaded_p1 initial_p1 \<and>
   (fst (loadData race sex firstnames lastnames b1 b2 this) \<noteq> Inr True \<longrightarrow>
      \<not> loaded (snd (loadData race sex firstnames lastnames b1 b2 this))) \<and>
   (fst (loadData_p1 race sex npcFile blacklistFile this1) \<noteq> Inr True \<longrightarrow>
      \<not> loaded_p1 (snd (loadData_p1 race sex npcFile blacklistFile this1)))"
proof -
  have "fst (loadData_p1 race sex npcFile blacklistFile this1) \<noteq> Inr True \<longrightarrow>
      \<not> loaded_p1 (snd (loadData_p1 race sex npcFile blacklistFile this1))"
    by (auto simp: loadData_p1_def Let_def split: fetch_result.splits)
  moreover have "fst (loadData race sex firstnames lastnames b1 b2 this) \<noteq> Inr True \<longrightarrow>
      \<not> loaded (snd (loadData race sex firstnames lastnames b1 b2 this))"
    by (simp add: loadData_result loadData_loaded)
  ultimately show ?thesis
    by (simp add: generate_def generate_p1_def initial_def initial_p1_def)
qed

theorem generate_errors_witness:
  "generate zero_draws 0 10 ''all'' initial = (Inl (Error ''Data not loaded''), 0, initial) \<and>
   generate zero_draws 0 10 ''vanilla'' custom_list =
     (Inl (Error ''No firstnames available (check source filter and blacklist)''), 0, custom_list) \<and>
   generate zero_draws 0 10 ''expanded'' aryon_savel =
     (Inl (Error ''No lastnames available (check source filter and blacklist)''), 0, aryon_savel) \<and>
   generate_p1 zero_draws 0 10 ''all'' initial_p1 = (Inl (Error ''Data not loaded''), 0, initial_p1) \<and>
   generate_p1 zero_draws 0 10 ''tr'' two_cases_p1 =
     (Inl (Error ''No firstnames available''), 0, two_cases_p1) \<and>
   generate_p1 zero_draws 0 10 ''all'' (aryon_savel_p1\<lparr>blacklistedLastnames_p1 := {''savel''}\<rparr>) =
     (Inl (Error ''No lastnames available (all may be blacklisted)''), 0,
      aryon_savel_p1\<lparr>blacklistedLastnames_p1 := {''savel''}\<rparr>)"
proof -
  have h1: "\<not> loaded initial" "\<not> loaded_p1 initial_p1"
    by (simp_all add: initial_def initial_p1_def)
  have h2: "loaded custom_list \<and> getFirstnames custom_list ''vanilla'' = []"
    by code_simp
  have h3: "loaded aryon_savel \<and> getFirstnames aryon_savel ''expanded'' \<noteq> [] \<and>
            getLastnames aryon_savel ''expanded'' = []"
    by code_simp
  have h4: "loaded_p1 two_cases_p1 \<and> getFirstnames_p1 two_cases_p1 ''tr'' = []"
    by code_simp
  have h5: "loaded_p1 (aryon_savel_p1\<lparr>blacklistedLastnames_p1 := {''savel''}\<rparr>) \<and>
            getFirstnames_p1 (aryon_savel_p1\<lparr>blacklistedLastnames_p1 := {''savel''}\<rparr>) ''all'' \<noteq> [] \<and>
            getLastnames_p1 (aryon_savel_p1\<lparr>blacklistedLastnames_p1 := {''savel''}\<rparr>) ''all'' = []"
    by code_simp
  show ?thesis
    using generate_errors[where this = initial and ?this1.0 = initial_p1 and rnd = zero_draws
            and pos = 0 and count = 10 and sourceFilter = "''all''"]
          generate_errors[where this = custom_list and rnd = zero_draws
            and pos = 0 and count = 10 and sourceFilter = "''vanilla''"]
          generate_errors[where this = aryon_savel and rnd = zero_draws
            and pos = 0 and count = 10 and sourceFilter = "''expanded''"]
          generate_errors[where ?this1.0 = two_cases_p1 and rnd = zero_draws
            and pos = 0 and count = 10 and sourceFilter = "''tr''"]
          generate_errors[where ?this1.0 = "aryon_savel_p1\<lparr>blacklistedLastnames_p1 := {''savel''}\<rparr>"
            and rnd = zero_draws and pos = 0 and count = 10 and sourceFilter = "''all''"]
          h1 h2 h3 h4 h5
    by simp
qed

section \<open>Asking for no pair\<close>

text \<open>
  Claim C8. On loaded data with pools that are not empty, \<open>generate(0, "all")\<close> returns the
  empty sequence, draws nothing from the random source and raises no error: the loop is not
  entered.
\<close>

theorem generate_zero:
  "(loaded this \<and> getFirstnames this ''all'' \<noteq> [] \<and> getLastnames this ''all'' \<noteq> [] \<longrightarrow>
      generate rnd pos 0 ''all'' this = (Inr [], pos, this)) \<and>
   (loaded_p0 this0 \<and> getFirstnames_p0 this0 ''all'' \<noteq> [] \<and> getLastnames_p0 this0 ''all'' \<noteq> [] \<longrightarrow>
      generate_p0 rnd pos 0 ''all'' this0 = (Inr [], pos, this0))"
  by (simp add: generate_def generate_p0_def)

theorem generate_zero_witness:
  "generate zero_draws 0 0 ''all'' aryon_savel = (Inr [], 0, aryon_savel) \<and>
   generate_p0 zero_draws 0 0 ''all'' aryon_savel_p0 = (Inr [], 0, aryon_savel_p0)"
proof -
  have h: "loaded aryon_savel \<and> getFirstnames aryon_savel ''all'' \<noteq> [] \<and>
           getLastnames aryon_savel ''all'' \<noteq> []"
    by code_simp
  have h0: "loaded_p0 aryon_savel_p0 \<and> getFirstnames_p0 aryon_savel_p0 ''all'' \<noteq> [] \<and>
            getLastnames_p0 aryon_savel_p0 ''all'' \<noteq> []"
    by code_simp
  show ?thesis
    using generate_zero[where this = aryon_savel and ?this0.0 = aryon_savel_p0
            and rnd = zero_draws and pos = 0] h h0 by simp
qed

section \<open>The pools\<close>

text \<open>
  Claim C7, as stated, fails: a first name from a custom list is loaded, is not of the base
  list and is not blacklisted, yet the filter \<open>expanded\<close> does not return it; and in the variant
  with one file of characters two first names that differ in case only are both returned.
\<close>

theorem expanded_pool_counterexample:
  "allFirstnames custom_list = [\<lparr>name = ''Vedam'', source = ''custom''\<rparr>] \<and>
   blacklistedFirstnames custom_list = {} \<and>
   getFirstnames custom_list ''expanded'' = [] \<and>
   getFirstnames_p1 two_cases_p1 ''all'' = [''Aryon'', ''ARYON'']"
  by code_simp

text \<open>
  Claim C7, amended. In \<open>generator.js\<close> the filter \<open>expanded\<close> selects the entries of the
  sources \<open>tr\<close>, \<open>sky\<close> and \<open>pc\<close> (not the base list, and not a custom list either), the filter
  \<open>vanilla\<close> the base list and every other filter all entries. For every filter the sequence
  returned is the candidate pool of the selected entries: it holds the names that are not
  blacklisted, one for each lower-case form, written as the first entry with that form writes
  it, in the order of these first entries. So it holds no two names that are equal up to case,
  no name whose lower-case form is in the blacklist, and every selected name that is not
  blacklisted, up to case. In the variant with one file of characters the pools are in the
  order of the first occurrences as well, but of the names as they are written: two names that
  differ in case are both returned; a first name is never blacklisted, and no last name of
  the pool is.
\<close>

theorem pools_are_first_occurrences:
  "getFirstnames this sourceFilter =
     pool_of (blacklistedFirstnames this) (by_filter sourceFilter (allFirstnames this)) \<and>
   getLastnames this sourceFilter =
     pool_of (blacklistedLastnames this) (by_filter sourceFilter (allLastnames this)) \<and>
   by_filter ''expanded'' records =
     filter (\<lambda>r. source r = ''tr'' \<or> source r = ''sky'' \<or> source r = ''pc'') records \<and>
   by_filter ''vanilla'' records = filter (\<lambda>r. source r = ''vanilla'') records \<and>
   (sourceFilter \<noteq> ''vanilla'' \<and> sourceFilter \<noteq> ''expanded'' \<longrightarrow>
      by_filter sourceFilter records = records) \<and>
   distinct (map toLowerCase (pool_of blacklisted records)) \<and>
   subseq (pool_of blacklisted records) (map name records) \<and>
   (\<forall>n \<in> set (pool_of blacklisted records). toLowerCase n \<notin> blacklisted \<and>
      map_option name (find (\<lambda>r. toLowerCase (name r) = toLowerCase n) records) = Some n) \<and>
   (\<forall>r \<in> set records. toLowerCase (name r) \<notin> blacklisted \<longrightarrow>
      toLowerCase (name r) \<in> toLowerCase ` set (pool_of blacklisted records)) \<and>
   getFirstnames_p1 this1 sourceFilter =
     first_occurrences (\<lambda>n. n)
       (filter (\<lambda>n. n \<noteq> []) (map npc_firstname (filterBySource this1 sourceFilter))) \<and>
   getLastnames_p1 this1 sourceFilter =
     first_occurrences (\<lambda>l. l)
       (lastnames_of (blacklistedLastnames_p1 this1) (filterBySource this1 sourceFilter)) \<and>
   distinct (first_occurrences (\<lambda>n. n) names) \<and>
   set (first_occurrences (\<lambda>n. n) names) = set names \<and>
   (\<forall>l \<in> set (lastnames_of blacklisted1 characters). l \<noteq> [] \<and> toLowerCase l \<notin> blacklisted1)"
proof -
  have "by_filter ''expanded'' records =
     filter (\<lambda>r. source r = ''tr'' \<or> source r = ''sky'' \<or> source r = ''pc'') records"
    by (simp add: by_filter_def)
  moreover have "by_filter ''vanilla'' records = filter (\<lambda>r. source r = ''vanilla'') records"
    by (simp add: by_filter_def)
  moreover have "sourceFilter \<noteq> ''vanilla'' \<and> sourceFilter \<noteq> ''expanded'' \<longrightarrow>
      by_filter sourceFilter records = records"
    by (simp add: by_filter_def)
  moreover have "getFirstnames this sourceFilter =
     pool_of (blacklistedFirstnames this) (by_filter sourceFilter (allFirstnames this))"
    unfolding getFirstnames_by_filter by (rule unique_names_pool_of)
  moreover have "getLastnames this sourceFilter =
     pool_of (blacklistedLastnames this) (by_filter sourceFilter (allLastnames this))"
    unfolding getLastnames_by_filter by (rule unique_names_pool_of)
  moreover have "distinct (first_occurrences (\<lambda>n. n) names)"
    using distinct_first_occurrences[of "\<lambda>n. n" names] by simp
  moreover have "\<forall>l \<in> set (lastnames_of blacklisted1 characters). l \<noteq> [] \<and> toLowerCase l \<notin> blacklisted1"
    by (auto simp: lastnames_of_def split: option.splits if_splits)
  ultimately show ?thesis
    using unique_names_pool[where bl = blacklisted and xs = records, unfolded unique_names_pool_of]
          getFirstnames_p1_first_occurrences getLastnames_p1_first_occurrences
          set_first_occurrences_id[of names]
    by presburger
qed

theorem pools_are_first_occurrences_witness:
  "getFirstnames repeated_names ''all'' = [''Dilborn'', ''Vedam''] \<and>
   getFirstnames repeated_names ''expanded'' = [''DILBORN''] \<and>
   toLowerCase ''Vedam'' \<notin> {''aryon''} \<and>
   toLowerCase ''dilborn'' \<in> toLowerCase ` set (pool_of {''aryon''} (allFirstnames repeated_names)) \<and>
   getFirstnames_p1 two_cases_p1 ''all'' = [''Aryon'', ''ARYON''] \<and>
   getLastnames_p1 (two_cases_p1\<lparr>blacklistedLastnames_p1 := {''dren''}\<rparr>) ''all'' = [''Savel'']"
proof -
  note t = pools_are_first_occurrences[where this = repeated_names and blacklisted = "{''aryon''}"
      and records = "allFirstnames repeated_names" and ?this1.0 = two_cases_p1 and names = "[]"
      and ?blacklisted1.0 = "{}" and characters = "[]"]
  have e: "blacklistedFirstnames repeated_names = {''aryon''}"
    by (simp add: repeated_names_def)
  have p: "pool_of {''aryon''} (by_filter ''all'' (allFirstnames repeated_names)) = [''Dilborn'', ''Vedam'']"
          "pool_of {''aryon''} (by_filter ''expanded'' (allFirstnames repeated_names)) = [''DILBORN'']"
          "pool_of {''aryon''} (allFirstnames repeated_names) = [''Dilborn'', ''Vedam'']"
    by code_simp+
  have m: "\<lparr>name = ''dilborn'', source = ''custom''\<rparr> \<in> set (allFirstnames repeated_names)"
          "toLowerCase (name \<lparr>name = ''dilborn'', source = ''custom''\<rparr>) \<notin> {''aryon''}"
    by code_simp+
  have q: "first_occurrences (\<lambda>n. n)
             (filter (\<lambda>n. n \<noteq> []) (map npc_firstname (filterBySource two_cases_p1 ''all'')))
           = [''Aryon'', ''ARYON'']"
          "first_occurrences (\<lambda>l. l)
             (lastnames_of (blacklistedLastnames_p1 (two_cases_p1\<lparr>blacklistedLastnames_p1 := {''dren''}\<rparr>))
                (filterBySource (two_cases_p1\<lparr>blacklistedLastnames_p1 := {''dren''}\<rparr>) ''all''))
           = [''Savel'']"
    by code_simp+
  have 1: "getFirstnames repeated_names ''all'' = [''Dilborn'', ''Vedam'']"
    using t[where sourceFilter = "''all''", THEN conjunct1] unfolding e p .
  have 2: "getFirstnames repeated_names ''expanded'' = [''DILBORN'']"
    using t[where sourceFilter = "''expanded''", THEN conjunct1] unfolding e p .
  have b: "\<forall>n \<in> set (pool_of {''aryon''} (allFirstnames repeated_names)). toLowerCase n \<notin> {''aryon''}"
    using t[where sourceFilter = "''all''", THEN conjunct2, THEN conjunct2, THEN conjunct2, THEN conjunct2, THEN conjunct2, THEN conjunct2, THEN conjunct2, THEN conjunct1]
    by (rule ball_conj_distrib[THEN iffD1, THEN conjunct1])
  have 3: "toLowerCase ''Vedam'' \<notin> {''aryon''}"
    using b unfolding p(3) by simp
  have c: "\<forall>r \<in> set (allFirstnames repeated_names). toLowerCase (name r) \<notin> {''aryon''} \<longrightarrow>
      toLowerCase (name r) \<in> toLowerCase ` set (pool_of {''aryon''} (allFirstnames repeated_names))"
    using t[where sourceFilter = "''all''", THEN conjunct2, THEN conjunct2, THEN conjunct2, THEN conjunct2, THEN conjunct2, THEN conjunct2, THEN conjunct2, THEN conjunct2, THEN conjunct1] .
  have 4: "toLowerCase ''dilborn'' \<in> toLowerCase ` set (pool_of {''aryon''} (allFirstnames repeated_names))"
    using c[rule_format, OF m] by simp
  have 5: "getFirstnames_p1 two_cases_p1 ''all'' = [''Aryon'', ''ARYON'']"
    using pools_are_first_occurrences[where ?this1.0 = two_cases_p1 and sourceFilter = "''all''",
        THEN conjunct2, THEN conjunct2, THEN conjunct2, THEN conjunct2, THEN conjunct2, THEN conjunct2, THEN conjunct2, THEN conjunct2, THEN conjunct2, THEN conjunct1]
    unfolding q .
  have 6: "getLastnames_p1 (two_cases_p1\<lparr>blacklistedLastnames_p1 := {''dren''}\<rparr>) ''all'' = [''Savel'']"
    using pools_are_first_occurrences[where ?this1.0 = "two_cases_p1\<lparr>blacklistedLastnames_p1 := {''dren''}\<rparr>"
        and sourceFilter = "''all''", THEN conjunct2, THEN conjunct2, THEN conjunct2, THEN conjunct2, THEN conjunct2, THEN conjunct2, THEN conjunct2, THEN conjunct2, THEN conjunct2, THEN conjunct2, THEN conjunct1]
    unfolding q .
  show ?thesis using 1 2 3 4 5 6 by (intro conjI)
qed

section \<open>The similarity checks of the three variants\<close>

lemma cache_ready_plain: "plain_sources this \<Longrightarrow> cache_ready this"
  using build_pairs_plain(1)[of "allFirstnames this" "allLastnames this"]
  by (simp add: cache_ready_def plain_sources_def split: option.splits)

lemma cache_ready_cached [simp]: "cache_ready (this\<lparr>existingPairsCache := Some cache\<rparr>)"
  by (simp add: cache_ready_def)

lemma isTooSimilarToExisting_eq:
  "cache_ready this \<Longrightarrow>
   isTooSimilarToExisting this f l =
     (Inr (toLowerCase f @ ''|'' @ toLowerCase l \<in> set (pairs_index this) \<or>
           scan_pairs (toLowerCase f) (toLowerCase l) (pairs_index this)),
      this\<lparr>existingPairsCache := Some (pairs_index this)\<rparr>)"
  by (auto simp: isTooSimilarToExisting_def pairs_index_def cache_ready_def Let_def
        split: option.splits prod.splits)

text \<open>
  The first call of \<open>isTooSimilarToExisting\<close> on data with a source that is the name of a
  member of \<open>Object.prototype\<close> throws a \<open>TypeError\<close>, whatever the candidate is, and leaves
  an empty cache.
\<close>

lemma isTooSimilarToExisting_throws:
  assumes "existingPairsCache this = None" "\<not> plain_sources this"
  shows "isTooSimilarToExisting this f l = (Inl TypeError, this\<lparr>existingPairsCache := Some []\<rparr>)"
proof -
  have "build_pairs (allFirstnames this) (allLastnames this) = (Some TypeError, [])"
    using assms(2) unfolding plain_sources_def by (intro build_pairs_throws) blast
  then show ?thesis using assms(1) by (simp add: isTooSimilarToExisting_def Let_def)
qed

lemma pairs_index_cached [simp]:
  "pairs_index (this\<lparr>existingPairsCache := Some (pairs_index this)\<rparr>) = pairs_index this"
  by (simp add: pairs_index_def)

lemma same_index_refl: "same_index this this"
  by (simp add: same_index_def)

lemma same_index_step:
  assumes "cache_ready this" "same_index this s"
  shows "fst (isTooSimilarToExisting s f l) =
           Inr (fst (isTooSimilarToExisting this f l) = Inr True) \<and>
         same_index this (snd (isTooSimilarToExisting s f l))"
proof -
  have "cache_ready s" using assms unfolding same_index_def by auto
  then show ?thesis
    using assms(2)
    unfolding same_index_def isTooSimilarToExisting_eq[OF \<open>cache_ready s\<close>]
      isTooSimilarToExisting_eq[OF assms(1)]
    by auto
qed

lemma sampling_loop_stops:
  "count \<le> length results \<Longrightarrow>
     sampling_loop rnd similar chk fns lns count maxAttempts ((results, attempted, attempts), pos, s)
       = (Inr (results, attempted, attempts), pos, s)"
  by (subst sampling_loop.simps) simp

lemma generate_run:
  assumes rnd: "\<forall>k. 0 \<le> rnd k \<and> rnd k < 1"
      and l: "loaded this"
      and ne: "getFirstnames this sourceFilter \<noteq> []" "getLastnames this sourceFilter \<noteq> []"
      and ready: "cache_ready this"
  shows "\<exists>results attempted attempts this'.
           sampling_loop rnd isTooSimilarToExisting False (getFirstnames this sourceFilter)
               (getLastnames this sourceFilter) count (count * 500) (([], {}, 0), pos, this)
             = (Inr (results, attempted, attempts), pos + 2 * attempts, this') \<and>
           generate rnd pos count sourceFilter this = (Inr results, pos + 2 * attempts, this') \<and>
           same_index this this' \<and> attempts \<le> count * 500 \<and> length results \<le> count \<and>
           (length results < count \<longrightarrow> attempts = count * 500) \<and>
           (\<forall>p \<in> set results.
               pair_firstname p \<in> set (getFirstnames this sourceFilter) \<and>
               pair_lastname p \<in> set (getLastnames this sourceFilter) \<and>
               fst (isTooSimilarToExisting this (pair_firstname p) (pair_lastname p)) = Inr False) \<and>
           distinct (map lowered results)"
proof -
  have b: "fst (isTooSimilarToExisting this f l) \<noteq> Inr True \<longleftrightarrow>
           fst (isTooSimilarToExisting this f l) = Inr False" for f l
    unfolding isTooSimilarToExisting_eq[OF ready] by auto
  from sampling_loop_result[where similar = isTooSimilarToExisting and J = "same_index this"
      and P = "\<lambda>f l. fst (isTooSimilarToExisting this f l) = Inr True" and chk = False
      and count = count and maxAttempts = "count * 500" and pos = pos,
      OF same_index_step[OF ready] ne rnd same_index_refl]
  obtain results attempted attempts this' where r:
    "sampling_loop rnd isTooSimilarToExisting False (getFirstnames this sourceFilter)
               (getLastnames this sourceFilter) count (count * 500) (([], {}, 0), pos, this)
             = (Inr (results, attempted, attempts), pos + 2 * attempts, this')"
    "same_index this this'" "attempts \<le> count * 500" "length results \<le> count"
    "length results < count \<longrightarrow> attempts = count * 500"
    "\<forall>p \<in> set results.
               pair_firstname p \<in> set (getFirstnames this sourceFilter) \<and>
               pair_lastname p \<in> set (getLastnames this sourceFilter) \<and>
               fst (isTooSimilarToExisting this (pair_firstname p) (pair_lastname p)) \<noteq> Inr True"
    "distinct (map lowered results)"
    by blast
  have "generate rnd pos count sourceFilter this = (Inr results, pos + 2 * attempts, this')"
    using l ne r(1) by (simp add: generate_def Let_def)
  with r show ?thesis unfolding b by blast
qed

text \<open>
  On loaded data with a source that is the name of a member of \<open>Object.prototype\<close> and with
  pools that are not empty, \<open>generate\<close> throws a \<open>TypeError\<close> at its first candidate, for every
  positive count.
\<close>

lemma generate_throws:
  assumes rnd: "\<forall>k. 0 \<le> rnd k \<and> rnd k < 1"
      and l: "loaded this"
      and ne: "getFirstnames this sourceFilter \<noteq> []" "getLastnames this sourceFilter \<noteq> []"
      and fresh: "existingPairsCache this = None"
      and proto: "\<not> plain_sources this"
      and count: "0 < count"
  shows "generate rnd pos count sourceFilter this =
           (Inl TypeError, pos + 2, this\<lparr>existingPairsCache := Some []\<rparr>)"
proof -
  obtain f where f: "js_nth (getFirstnames this sourceFilter)
      (random_index (rnd pos) (length (getFirstnames this sourceFilter))) = Some f"
    using js_nth_random[of "rnd pos" "getFirstnames this sourceFilter"] rnd ne by blast
  obtain la where la: "js_nth (getLastnames this sourceFilter)
      (random_index (rnd (Suc pos)) (length (getLastnames this sourceFilter))) = Some la"
    using js_nth_random[of "rnd (Suc pos)" "getLastnames this sourceFilter"] rnd ne by blast
  have t: "isTooSimilarToExisting this f la = (Inl TypeError, this\<lparr>existingPairsCache := Some []\<rparr>)"
    by (rule isTooSimilarToExisting_throws[OF fresh proto])
  have "sampling_loop rnd isTooSimilarToExisting False (getFirstnames this sourceFilter)
          (getLastnames this sourceFilter) count (count * 500) (([], {}, 0), pos, this)
        = (Inl TypeError, pos + 2, snd (isTooSimilarToExisting this f la))"
    using count by (intro sampling_loop_throws[OF f la]) (simp_all add: t)
  then show ?thesis using l ne by (simp add: generate_def Let_def t)
qed

lemma generate_p0_run:
  assumes rnd: "\<forall>k. 0 \<le> rnd k \<and> rnd k < 1"
      and l: "loaded_p0 this"
      and ne: "getFirstnames_p0 this sourceFilter \<noteq> []" "getLastnames_p0 this sourceFilter \<noteq> []"
  shows "\<exists>results attempted attempts.
           sampling_loop rnd (returns isTooSimilarToExisting_p0) False (getFirstnames_p0 this sourceFilter)
               (getLastnames_p0 this sourceFilter) count (count * 100) (([], {}, 0), pos, this)
             = (Inr (results, attempted, attempts), pos + 2 * attempts, this) \<and>
           generate_p0 rnd pos count sourceFilter this = (Inr results, pos + 2 * attempts, this) \<and>
           attempts \<le> count * 100 \<and> length results \<le> count \<and>
           (length results < count \<longrightarrow> attempts = count * 100) \<and>
           (\<forall>p \<in> set results.
               pair_firstname p \<in> set (getFirstnames_p0 this sourceFilter) \<and>
               pair_lastname p \<in> set (getLastnames_p0 this sourceFilter) \<and>
               \<not> scan_fullnames (pair_firstname p) (pair_lastname p) (allFullnames_p0 this)) \<and>
           distinct (map lowered results)"
proof -
  have sim: "\<And>s f l. s = this \<Longrightarrow>
      fst (returns isTooSimilarToExisting_p0 s f l) = Inr (scan_fullnames f l (allFullnames_p0 this)) \<and>
      snd (returns isTooSimilarToExisting_p0 s f l) = this"
    by (simp add: isTooSimilarToExisting_p0_def returns_def)
  from sampling_loop_result[where similar = "returns isTooSimilarToExisting_p0" and J = "\<lambda>s. s = this"
      and P = "\<lambda>f l. scan_fullnames f l (allFullnames_p0 this)" and chk = False
      and count = count and maxAttempts = "count * 100" and pos = pos,
      OF sim ne rnd refl]
  obtain results attempted attempts where r:
    "sampling_loop rnd (returns isTooSimilarToExisting_p0) False (getFirstnames_p0 this sourceFilter)
               (getLastnames_p0 this sourceFilter) count (count * 100) (([], {}, 0), pos, this)
             = (Inr (results, attempted, attempts), pos + 2 * attempts, this)"
    "attempts \<le> count * 100" "length results \<le> count"
    "length results < count \<longrightarrow> attempts = count * 100"
    "\<forall>p \<in> set results.
               pair_firstname p \<in> set (getFirstnames_p0 this sourceFilter) \<and>
               pair_lastname p \<in> set (getLastnames_p0 this sourceFilter) \<and>
               \<not> scan_fullnames (pair_firstname p) (pair_lastname p) (allFullnames_p0 this)"
    "distinct (map lowered results)"
    by blast
  have "generate_p0 rnd pos count sourceFilter this = (Inr results, pos + 2 * attempts, this)"
    using l ne r(1) by (simp add: generate_p0_def Let_def)
  with r show ?thesis by blast
qed

lemma generate_p1_run:
  assumes rnd: "\<forall>k. 0 \<le> rnd k \<and> rnd k < 1"
      and l: "loaded_p1 this"
      and ne: "getFirstnames_p1 this sourceFilter \<noteq> []" "getLastnames_p1 this sourceFilter \<noteq> []"
  shows "\<exists>results attempted attempts.
           sampling_loop rnd (returns isTooSimilarToExisting_p1) True (getFirstnames_p1 this sourceFilter)
               (getLastnames_p1 this sourceFilter) count (count * 100) (([], {}, 0), pos, this)
             = (Inr (results, attempted, attempts), pos + 2 * attempts, this) \<and>
           generate_p1 rnd pos count sourceFilter this = (Inr results, pos + 2 * attempts, this) \<and>
           attempts \<le> count * 100 \<and> length results \<le> count \<and>
           (length results < count \<longrightarrow> attempts = count * 100) \<and>
           (\<forall>p \<in> set results.
               pair_firstname p \<in> set (getFirstnames_p1 this sourceFilter) \<and>
               pair_lastname p \<in> set (getLastnames_p1 this sourceFilter) \<and>
               \<not> scan_npcs (pair_firstname p) (pair_lastname p) (npcs this)) \<and>
           distinct (map lowered results)"
proof -
  have sim: "\<And>s f l. s = this \<Longrightarrow>
      fst (returns isTooSimilarToExisting_p1 s f l) = Inr (scan_npcs f l (npcs this)) \<and>
      snd (returns isTooSimilarToExisting_p1 s f l) = this"
    by (simp add: isTooSimilarToExisting_p1_def returns_def)
  from sampling_loop_result[where similar = "returns isTooSimilarToExisting_p1" and J = "\<lambda>s. s = this"
      and P = "\<lambda>f l. scan_npcs f l (npcs this)" and chk = True
      and count = count and maxAttempts = "count * 100" and pos = pos,
      OF sim ne rnd refl]
  obtain results attempted attempts where r:
    "sampling_loop rnd (returns isTooSimilarToExisting_p1) True (getFirstnames_p1 this sourceFilter)
               (getLastnames_p1 this sourceFilter) count (count * 100) (([], {}, 0), pos, this)
             = (Inr (results, attempted, attempts), pos + 2 * attempts, this)"
    "attempts \<le> count * 100" "length results \<le> count"
    "length results < count \<longrightarrow> attempts = count * 100"
    "\<forall>p \<in> set results.
               pair_firstname p \<in> set (getFirstnames_p1 this sourceFilter) \<and>
               pair_lastname p \<in> set (getLastnames_p1 this sourceFilter) \<and>
               \<not> scan_npcs (pair_firstname p) (pair_lastname p) (npcs this)"
    "distinct (map lowered results)"
    by blast
  have "generate_p1 rnd pos count sourceFilter this = (Inr results, pos + 2 * attempts, this)"
    using l ne r(1) by (simp add: generate_p1_def Let_def)
  with r show ?thesis by blast
qed

section \<open>Termination and the attempt budget\<close>

lemma zero_draws_ok: "\<forall>k. 0 \<le> zero_draws k \<and> zero_draws k < 1"
  by (simp add: zero_draws_def)

lemma half_then_zero_ok: "\<forall>k. 0 \<le> half_then_zero k \<and> half_then_zero k < 1"
  by (simp add: half_then_zero_def)

text \<open>
  What holds of the claim about termination when the cache is there or can be built (as it can
  when no source is the name of a member of \<open>Object.prototype\<close>), and in the variant with one
  file of characters without any condition: on loaded data with pools that are not empty, for
  every count and every random source whose draws are at least 0 and less than 1, \<open>generate\<close>
  returns. The loop makes at most \<open>count * K\<close> attempts, with \<open>K = 500\<close> in \<open>generator.js\<close> and
  \<open>K = 100\<close> in the variant, it returns at most \<open>count\<close> pairs, and it returns fewer only when
  the budget is used up. A loop state that holds \<open>count\<close> pairs is returned at once, with no
  further draw. When every pair of the pools is rejected by the check, the result is empty and
  all \<open>count * K\<close> attempts are made.
\<close>

lemma generate_within_budget:
  assumes "\<forall>k. 0 \<le> rnd k \<and> rnd k < 1"
  shows
  "(loaded this \<and> getFirstnames this sourceFilter \<noteq> [] \<and> getLastnames this sourceFilter \<noteq> [] \<and>
    cache_ready this \<longrightarrow>
      (\<exists>results attempted attempts this'.
          sampling_loop rnd isTooSimilarToExisting False (getFirstnames this sourceFilter)
              (getLastnames this sourceFilter) count (count * 500) (([], {}, 0), pos, this)
            = (Inr (results, attempted, attempts), pos + 2 * attempts, this') \<and>
          generate rnd pos count sourceFilter this = (Inr results, pos + 2 * attempts, this') \<and>
          attempts \<le> count * 500 \<and> length results \<le> count \<and>
          (length results < count \<longrightarrow> attempts = count * 500) \<and>
          ((\<forall>f \<in> set (getFirstnames this sourceFilter). \<forall>l \<in> set (getLastnames this sourceFilter).
               fst (isTooSimilarToExisting this f l) = Inr True) \<longrightarrow>
             results = [] \<and> attempts = count * 500 \<and> (0 < count \<longrightarrow> length results < count)))) \<and>
   (loaded_p1 this1 \<and> getFirstnames_p1 this1 sourceFilter \<noteq> [] \<and>
    getLastnames_p1 this1 sourceFilter \<noteq> [] \<longrightarrow>
      (\<exists>results attempted attempts.
          sampling_loop rnd (returns isTooSimilarToExisting_p1) True (getFirstnames_p1 this1 sourceFilter)
              (getLastnames_p1 this1 sourceFilter) count (count * 100) (([], {}, 0), pos, this1)
            = (Inr (results, attempted, attempts), pos + 2 * attempts, this1) \<and>
          generate_p1 rnd pos count sourceFilter this1 = (Inr results, pos + 2 * attempts, this1) \<and>
          attempts \<le> count * 100 \<and> length results \<le> count \<and>
          (length results < count \<longrightarrow> attempts = count * 100) \<and>
          ((\<forall>f \<in> set (getFirstnames_p1 this1 sourceFilter). \<forall>l \<in> set (getLastnames_p1 this1 sourceFilter).
               fst (isTooSimilarToExisting_p1 this1 f l)) \<longrightarrow>
             results = [] \<and> attempts = count * 100 \<and> (0 < count \<longrightarrow> length results < count)))) \<and>
   (count \<le> length results0 \<longrightarrow>
      sampling_loop rnd similar checkResults firstnames lastnames count maxAttempts
          ((results0, attempted0, attempts0), pos, s)
        = (Inr (results0, attempted0, attempts0), pos, s)) \<and>
   (plain_sources this \<longrightarrow> cache_ready this)"
proof (intro conjI impI)
  assume a: "loaded this \<and> getFirstnames this sourceFilter \<noteq> [] \<and> getLastnames this sourceFilter \<noteq> [] \<and>
    cache_ready this"
  from generate_run[OF assms, of this sourceFilter count pos] a
  obtain results attempted attempts this' where r:
    "sampling_loop rnd isTooSimilarToExisting False (getFirstnames this sourceFilter)
              (getLastnames this sourceFilter) count (count * 500) (([], {}, 0), pos, this)
            = (Inr (results, attempted, attempts), pos + 2 * attempts, this')"
    "generate rnd pos count sourceFilter this = (Inr results, pos + 2 * attempts, this')"
    "attempts \<le> count * 500" "length results \<le> count"
    "length results < count \<longrightarrow> attempts = count * 500"
    "\<forall>p \<in> set results.
               pair_firstname p \<in> set (getFirstnames this sourceFilter) \<and>
               pair_lastname p \<in> set (getLastnames this sourceFilter) \<and>
               fst (isTooSimilarToExisting this (pair_firstname p) (pair_lastname p)) = Inr False"
    by blast
  have "results = [] \<and> attempts = count * 500 \<and> (0 < count \<longrightarrow> length results < count)"
    if "\<forall>f \<in> set (getFirstnames this sourceFilter). \<forall>l \<in> set (getLastnames this sourceFilter).
               fst (isTooSimilarToExisting this f l) = Inr True"
  proof -
    have e: "results = []"
    proof (cases results)
      case Nil
      then show ?thesis .
    next
      case (Cons p ps)
      then have "p \<in> set results" by simp
      with r(6) have "pair_firstname p \<in> set (getFirstnames this sourceFilter)"
          "pair_lastname p \<in> set (getLastnames this sourceFilter)"
          "fst (isTooSimilarToExisting this (pair_firstname p) (pair_lastname p)) = Inr False"
        by simp_all
      with that show ?thesis by simp
    qed
    then show ?thesis using r(3,5) by (cases count) auto
  qed
  with r(1-5) show "\<exists>results attempted attempts this'.
          sampling_loop rnd isTooSimilarToExisting False (getFirstnames this sourceFilter)
              (getLastnames this sourceFilter) count (count * 500) (([], {}, 0), pos, this)
            = (Inr (results, attempted, attempts), pos + 2 * attempts, this') \<and>
          generate rnd pos count sourceFilter this = (Inr results, pos + 2 * attempts, this') \<and>
          attempts \<le> count * 500 \<and> length results \<le> count \<and>
          (length results < count \<longrightarrow> attempts = count * 500) \<and>
          ((\<forall>f \<in> set (getFirstnames this sourceFilter). \<forall>l \<in> set (getLastnames this sourceFilter).
               fst (isTooSimilarToExisting this f l) = Inr True) \<longrightarrow>
             results = [] \<and> attempts = count * 500 \<and> (0 < count \<longrightarrow> length results < count))"
    by blast
next
  assume a: "loaded_p1 this1 \<and> getFirstnames_p1 this1 sourceFilter \<noteq> [] \<and>
    getLastnames_p1 this1 sourceFilter \<noteq> []"
  from generate_p1_run[OF assms, of this1 sourceFilter count pos] a
  obtain results attempted attempts where r:
    "sampling_loop rnd (returns isTooSimilarToExisting_p1) True (getFirstnames_p1 this1 sourceFilter)
              (getLastnames_p1 this1 sourceFilter) count (count * 100) (([], {}, 0), pos, this1)
            = (Inr (results, attempted, attempts), pos + 2 * attempts, this1)"
    "generate_p1 rnd pos count sourceFilter this1 = (Inr results, pos + 2 * attempts, this1)"
    "attempts \<le> count * 100" "length results \<le> count"
    "length results < count \<longrightarrow> attempts = count * 100"
    "\<forall>p \<in> set results.
               pair_firstname p \<in> set (getFirstnames_p1 this1 sourceFilter) \<and>
               pair_lastname p \<in> set (getLastnames_p1 this1 sourceFilter) \<and>
               \<not> scan_npcs (pair_firstname p) (pair_lastname p) (npcs this1)"
    by blast
  have "results = [] \<and> attempts = count * 100 \<and> (0 < count \<longrightarrow> length results < count)"
    if "\<forall>f \<in> set (getFirstnames_p1 this1 sourceFilter). \<forall>l \<in> set (getLastnames_p1 this1 sourceFilter).
               fst (isTooSimilarToExisting_p1 this1 f l)"
  proof -
    have e: "results = []"
    proof (cases results)
      case Nil
      then show ?thesis .
    next
      case (Cons p ps)
      then have "p \<in> set results" by simp
      with r(6) have "pair_firstname p \<in> set (getFirstnames_p1 this1 sourceFilter)"
          "pair_lastname p \<in> set (getLastnames_p1 this1 sourceFilter)"
          "\<not> fst (isTooSimilarToExisting_p1 this1 (pair_firstname p) (pair_lastname p))"
        by (simp_all add: isTooSimilarToExisting_p1_def)
      with that show ?thesis by simp
    qed
    then show ?thesis using r(3,5) by (cases count) auto
  qed
  with r(1-5) show "\<exists>results attempted attempts.
          sampling_loop rnd (returns isTooSimilarToExisting_p1) True (getFirstnames_p1 this1 sourceFilter)
              (getLastnames_p1 this1 sourceFilter) count (count * 100) (([], {}, 0), pos, this1)
            = (Inr (results, attempted, attempts), pos + 2 * attempts, this1) \<and>
          generate_p1 rnd pos count sourceFilter this1 = (Inr results, pos + 2 * attempts, this1) \<and>
          attempts \<le> count * 100 \<and> length results \<le> count \<and>
          (length results < count \<longrightarrow> attempts = count * 100) \<and>
          ((\<forall>f \<in> set (getFirstnames_p1 this1 sourceFilter). \<forall>l \<in> set (getLastnames_p1 this1 sourceFilter).
               fst (isTooSimilarToExisting_p1 this1 f l)) \<longrightarrow>
             results = [] \<and> attempts = count * 100 \<and> (0 < count \<longrightarrow> length results < count))"
    by blast
next
  assume "count \<le> length results0"
  then show "sampling_loop rnd similar checkResults firstnames lastnames count maxAttempts
          ((results0, attempted0, attempts0), pos, s)
        = (Inr (results0, attempted0, attempts0), pos, s)"
    by (rule sampling_loop_stops)
next
  assume "plain_sources this"
  then show "cache_ready this" by (rule cache_ready_plain)
qed

lemma generate_within_budget_example:
  "(\<exists>this'. generate zero_draws 0 3 ''vanilla'' aryon_savel = (Inr [], 3000, this')) \<and>
   (\<exists>results attempts. generate_p1 zero_draws 0 3 ''all'' aryon_savel_p1 =
        (Inr results, 2 * attempts, aryon_savel_p1) \<and> attempts \<le> 300 \<and> length results \<le> 3)"
proof -
  note t = generate_within_budget[OF zero_draws_ok, where this = aryon_savel
      and sourceFilter = "''vanilla''" and count = 3 and pos = 0]
  note t1 = generate_within_budget[OF zero_draws_ok, where ?this1.0 = aryon_savel_p1
      and sourceFilter = "''all''" and count = 3 and pos = 0]
  have h: "loaded aryon_savel \<and> getFirstnames aryon_savel ''vanilla'' \<noteq> [] \<and>
           getLastnames aryon_savel ''vanilla'' \<noteq> [] \<and> cache_ready aryon_savel"
    by code_simp
  have all: "\<forall>f \<in> set (getFirstnames aryon_savel ''vanilla''). \<forall>l \<in> set (getLastnames aryon_savel ''vanilla'').
               fst (isTooSimilarToExisting aryon_savel f l) = Inr True"
    by code_simp
  have h1: "loaded_p1 aryon_savel_p1 \<and> getFirstnames_p1 aryon_savel_p1 ''all'' \<noteq> [] \<and>
    getLastnames_p1 aryon_savel_p1 ''all'' \<noteq> []"
    by code_simp
  have "\<exists>this'. generate zero_draws 0 3 ''vanilla'' aryon_savel = (Inr [], 3000, this')"
    using t[THEN conjunct1] h all by auto
  moreover have "\<exists>results attempts. generate_p1 zero_draws 0 3 ''all'' aryon_savel_p1 =
        (Inr results, 2 * attempts, aryon_savel_p1) \<and> attempts \<le> 300 \<and> length results \<le> 3"
    using t1[THEN conjunct2, THEN conjunct1] h1 by auto
  ultimately show ?thesis by (intro conjI)
qed

text \<open>
  Claim C2 fails on \<open>generator.js\<close>: \<open>generate\<close> throws on loaded data. The first names are
  Aryon from the base list and Vedam from the custom list \<open>constructor.txt\<close>, the last name is
  Savel from the base list, and there is no blacklist. Both pools are not empty, and
  \<open>generate(1, "all")\<close> draws one candidate and ends with a \<open>TypeError\<close>: \<open>fnBySource\<close> inherits
  its member \<open>constructor\<close>, which is truthy and has no method \<open>push\<close>. No attempt is counted
  out and nothing is returned; the cache is left empty.
\<close>

theorem generate_throws_on_prototype_source:
  "loaded prototype_source \<and>
   getFirstnames prototype_source ''all'' = [''Aryon'', ''Vedam''] \<and>
   getLastnames prototype_source ''all'' = [''Savel''] \<and>
   get_property [] ''constructor'' = Inherited \<and>
   push_by_source [(''vanilla'', [''aryon''])] ''constructor'' ''vedam'' = Inl TypeError \<and>
   generate zero_draws 0 1 ''all'' prototype_source =
     (Inl TypeError, 2, prototype_source\<lparr>existingPairsCache := Some []\<rparr>)"
  by code_simp

section \<open>Characters with a single name\<close>

lemma scan_npcs_filter:
  "scan_npcs f l (filter (\<lambda>n. npc_lastname n \<noteq> None) rest) = scan_npcs f l rest"
  by (induction rest) (auto simp: Let_def split: option.splits)

lemma scan_npcs_single_names:
  "\<forall>n \<in> set rest. npc_lastname n = None \<Longrightarrow> \<not> scan_npcs f l rest"
  by (induction rest) auto

text \<open>
  Claim C10. In the variant with one file of characters, a character without a last name
  (a line of one word is parsed with the last name \<open>null\<close>) never makes
  \<open>isTooSimilarToExisting\<close> reject a candidate: the verdict is the same when all such
  characters are removed, and it is negative when there are no others. So a generated pair
  can have the first name of such a character: from the file with the lines \<open>Dilborn\<close> and
  \<open>Aryon Savel\<close>, \<open>generate\<close> returns Dilborn Savel.
\<close>

theorem single_names_never_block:
  "fst (isTooSimilarToExisting_p1 this firstname lastname) =
     fst (isTooSimilarToExisting_p1
            (this\<lparr>npcs := filter (\<lambda>n. npc_lastname n \<noteq> None) (npcs this)\<rparr>) firstname lastname) \<and>
   ((\<forall>n \<in> set (npcs this). npc_lastname n = None) \<longrightarrow>
      \<not> fst (isTooSimilarToExisting_p1 this firstname lastname)) \<and>
   parseNPCFile dilborn_file =
     [\<lparr>npc_firstname = ''Dilborn'', npc_lastname = None, npc_source = ''vanilla''\<rparr>,
      \<lparr>npc_firstname = ''Aryon'', npc_lastname = Some ''Savel'', npc_source = ''vanilla''\<rparr>] \<and>
   \<not> fst (isTooSimilarToExisting_p1 aryon_savel_p1 ''Dilborn'' ''Savel'') \<and>
   fst (generate_p1 zero_draws 0 1 ''all'' aryon_savel_p1) =
     Inr [\<lparr>pair_firstname = ''Dilborn'', pair_lastname = ''Savel''\<rparr>]"
proof -
  have "parseNPCFile dilborn_file =
     [\<lparr>npc_firstname = ''Dilborn'', npc_lastname = None, npc_source = ''vanilla''\<rparr>,
      \<lparr>npc_firstname = ''Aryon'', npc_lastname = Some ''Savel'', npc_source = ''vanilla''\<rparr>]"
    by code_simp
  moreover have "\<not> fst (isTooSimilarToExisting_p1 aryon_savel_p1 ''Dilborn'' ''Savel'')"
    by code_simp
  moreover have "fst (generate_p1 zero_draws 0 1 ''all'' aryon_savel_p1) =
     Inr [\<lparr>pair_firstname = ''Dilborn'', pair_lastname = ''Savel''\<rparr>]"
    by code_simp
  moreover have "fst (isTooSimilarToExisting_p1 this firstname lastname) =
     fst (isTooSimilarToExisting_p1
            (this\<lparr>npcs := filter (\<lambda>n. npc_lastname n \<noteq> None) (npcs this)\<rparr>) firstname lastname)"
    by (simp add: isTooSimilarToExisting_p1_def scan_npcs_filter del: not_None_eq)
  moreover have "(\<forall>n \<in> set (npcs this). npc_lastname n = None) \<longrightarrow>
      \<not> fst (isTooSimilarToExisting_p1 this firstname lastname)"
    using scan_npcs_single_names[of "npcs this" firstname lastname]
    by (simp add: isTooSimilarToExisting_p1_def)
  ultimately show ?thesis by (intro conjI)
qed

theorem single_names_never_block_witness:
  "\<not> fst (isTooSimilarToExisting_p1
            \<lparr>npcs = [\<lparr>npc_firstname = ''Dilborn'', npc_lastname = None, npc_source = ''vanilla''\<rparr>],
             blacklistedLastnames_p1 = {}, loaded_p1 = True\<rparr> ''Dilborn'' ''Savel'')"
proof -
  have h: "\<forall>n \<in> set (npcs \<lparr>npcs = [\<lparr>npc_firstname = ''Dilborn'', npc_lastname = None, npc_source = ''vanilla''\<rparr>],
             blacklistedLastnames_p1 = {}, loaded_p1 = True\<rparr>). npc_lastname n = None"
    by simp
  show ?thesis
    using single_names_never_block[where firstname = "''Dilborn''" and lastname = "''Savel''"
        and this = "\<lparr>npcs = [\<lparr>npc_firstname = ''Dilborn'', npc_lastname = None, npc_source = ''vanilla''\<rparr>],
             blacklistedLastnames_p1 = {}, loaded_p1 = True\<rparr>"] h
    by blast
qed

section \<open>Names that hold the separator of the keys\<close>

text \<open>
  Claim C1 fails on \<open>generator.js\<close>. The word list of first names of the base list holds the
  line \<open>ar|on\<close>, Aryon comes from an expansion and Savel from the base list; so \<open>ar|on Savel\<close>
  is an existing pair. With the draws one half and 0, \<open>generate(1, "all")\<close> emits Aryon Savel,
  whose first name is one edit away from \<open>ar|on\<close>.
\<close>

theorem generate_emits_similar_pair:
  "parseNameFile bar_file = [''ar|on''] \<and>
   loaded bar_name \<and>
   getFirstnames bar_name ''all'' = [''ar|on'', ''Aryon''] \<and>
   getLastnames bar_name ''all'' = [''Savel''] \<and>
   (''ar|on'', ''savel'') \<in> set (existing_pairs bar_name) \<and>
   levenshteinDistance ''Aryon'' ''ar|on'' = 1 \<and>
   fst (generate half_then_zero 0 1 ''all'' bar_name) =
     Inr [\<lparr>pair_firstname = ''Aryon'', pair_lastname = ''Savel''\<rparr>]"
  by code_simp

text \<open>
  Claim C3 fails on \<open>generator.js\<close>, in both directions. The existing pair \<open>ar|on Savel\<close> has
  the last name of the candidate Aryon Savel and a first name one edit away, and the candidate
  is not rejected: the key \<open>ar|on|savel\<close> is taken apart into the first name \<open>ar\<close> and the
  last name \<open>on\<close>. And the candidate Aryan Savel is rejected where no existing pair has the last
  name Savel: the key of \<open>Aryon|Savel Hlaalu\<close> is taken apart into \<open>aryon\<close> and \<open>savel\<close>.
\<close>

theorem similarity_check_splits_names:
  "(''ar|on'', ''savel'') \<in> set (existing_pairs bar_name) \<and>
   areTooSimilar (toLowerCase ''Aryon'') ''ar|on'' 3 \<and>
   pairs_index bar_name = [''ar|on|savel''] \<and>
   split CHR ''|'' ''ar|on|savel'' = [''ar'', ''on'', ''savel''] \<and>
   fst (isTooSimilarToExisting bar_name ''Aryon'' ''Savel'') = Inr False \<and>
   existing_pairs bar_name2 = [(''aryon|savel'', ''hlaalu'')] \<and>
   pairs_index bar_name2 = [''aryon|savel|hlaalu''] \<and>
   ''aryan|savel'' \<notin> set (pairs_index bar_name2) \<and>
   fst (isTooSimilarToExisting bar_name2 ''Aryan'' ''Savel'') = Inr True"
  by code_simp

section \<open>What the checks guarantee\<close>

lemma lower_char_bar: "lower_char c = CHR ''|'' \<longleftrightarrow> c = CHR ''|''"
  by (auto simp: lower_char_def split: option.splits if_splits)

lemma toLowerCase_bar: "CHR ''|'' \<in> set (toLowerCase s) \<longleftrightarrow> CHR ''|'' \<in> set s"
  unfolding toLowerCase_def set_map image_iff using lower_char_bar by metis

lemma lower_char_idem: "lower_char (lower_char c) = lower_char c"
  by (auto simp: lower_char_def split: option.splits if_splits)

lemma toLowerCase_idem [simp]: "toLowerCase (toLowerCase s) = toLowerCase s"
  by (simp add: toLowerCase_def lower_char_idem)

lemma toLowerCase_append [simp]: "toLowerCase (a @ b) = toLowerCase a @ toLowerCase b"
  by (simp add: toLowerCase_def)

lemma levenshteinDistance_lower1 [simp]:
  "levenshteinDistance (toLowerCase a) b = levenshteinDistance a b"
  by (simp add: levenshteinDistance_lev_rec)

lemma levenshteinDistance_lower2 [simp]:
  "levenshteinDistance a (toLowerCase b) = levenshteinDistance a b"
  by (simp add: levenshteinDistance_lev_rec)

lemma set_existing_pairs:
  "set (existing_pairs this) =
     {(toLowerCase (name f), toLowerCase (name l)) | f l.
        f \<in> set (allFirstnames this) \<and> l \<in> set (allLastnames this) \<and> source f = source l}"
  by (auto simp: existing_pairs_def)

lemma set_build_pairs_existing:
  "plain_sources this \<Longrightarrow>
     set (snd (build_pairs (allFirstnames this) (allLastnames this))) =
       (\<lambda>(ef, el). ef @ ''|'' @ el) ` set (existing_pairs this)"
  unfolding plain_sources_def
  by (subst build_pairs_plain(2)) (auto simp: set_existing_pairs image_def)

lemma scan_pairs_iff:
  "scan_pairs a b cache \<longleftrightarrow>
     (\<exists>existing \<in> set cache. \<exists>ef el rest. split CHR ''|'' existing = ef # el # rest \<and>
         el = b \<and> areTooSimilar a ef 3)"
  by (induction cache) (auto split: list.splits)

lemma existing_pairs_no_bar:
  assumes "no_bar this" "(ef, el) \<in> set (existing_pairs this)"
  shows "CHR ''|'' \<notin> set ef \<and> CHR ''|'' \<notin> set el"
  using assms unfolding no_bar_def set_existing_pairs by (auto simp: toLowerCase_bar)

text \<open>
  When no loaded name holds \<open>|\<close>, the loop over the keys is the similarity check of the
  specification on the existing pairs.
\<close>

lemma scan_pairs_existing:
  assumes "no_bar this" "plain_sources this"
  shows "scan_pairs a b (snd (build_pairs (allFirstnames this) (allLastnames this))) \<longleftrightarrow>
     (\<exists>(ef, el) \<in> set (existing_pairs this). el = b \<and> areTooSimilar a ef 3)"
proof
  assume "scan_pairs a b (snd (build_pairs (allFirstnames this) (allLastnames this)))"
  then obtain existing ef el rest where e:
      "existing \<in> set (snd (build_pairs (allFirstnames this) (allLastnames this)))"
      "split CHR ''|'' existing = ef # el # rest" "el = b" "areTooSimilar a ef 3"
    unfolding scan_pairs_iff by blast
  from e(1) obtain ef' el' where p: "(ef', el') \<in> set (existing_pairs this)"
      "existing = ef' @ ''|'' @ el'"
    unfolding set_build_pairs_existing[OF assms(2)] by auto
  have "split CHR ''|'' existing = [ef', el']"
    unfolding p(2) using existing_pairs_no_bar[OF assms(1) p(1)] by (intro split_key2) simp_all
  with e(2) have "ef = ef'" "el = el'" by simp_all
  with p(1) e(3,4) show "\<exists>(ef, el) \<in> set (existing_pairs this). el = b \<and> areTooSimilar a ef 3"
    by blast
next
  assume "\<exists>(ef, el) \<in> set (existing_pairs this). el = b \<and> areTooSimilar a ef 3"
  then obtain ef el where p: "(ef, el) \<in> set (existing_pairs this)" "el = b" "areTooSimilar a ef 3"
    by blast
  have k: "ef @ ''|'' @ el \<in> set (snd (build_pairs (allFirstnames this) (allLastnames this)))"
    unfolding set_build_pairs_existing[OF assms(2)] using p(1) by force
  have "split CHR ''|'' (ef @ ''|'' @ el) = [ef, el]"
    using existing_pairs_no_bar[OF assms(1) p(1)] by (intro split_key2) simp_all
  then show "scan_pairs a b (snd (build_pairs (allFirstnames this) (allLastnames this)))"
    unfolding scan_pairs_iff using k p(2,3) by blast
qed

text \<open>A key with one \<open>|\<close> is the key of one pair of names only.\<close>

lemma key_eq_iff:
  assumes "CHR ''|'' \<notin> set x" "CHR ''|'' \<notin> set y"
  shows "a @ ''|'' @ b = x @ ''|'' @ y \<longleftrightarrow> a = x \<and> b = y"
proof
  assume e: "a @ ''|'' @ b = x @ ''|'' @ y"
  have "count_list (a @ ''|'' @ b) CHR ''|'' = count_list (x @ ''|'' @ y) CHR ''|''"
    using e by simp
  then have "count_list a CHR ''|'' = 0 \<and> count_list b CHR ''|'' = 0"
    using assms by (simp add: count_list_0_iff)
  then have n: "CHR ''|'' \<notin> set a" "CHR ''|'' \<notin> set b"
    by (simp_all add: count_list_0_iff)
  have "split CHR ''|'' (a @ ''|'' @ b) = split CHR ''|'' (x @ ''|'' @ y)"
    using e by simp
  then show "a = x \<and> b = y"
    unfolding split_key2[OF n] split_key2[OF assms] by simp
next
  assume "a = x \<and> b = y"
  then show "a @ ''|'' @ b = x @ ''|'' @ y" by simp
qed

text \<open>
  The verdict of \<open>generator.js\<close> on freshly loaded data in which no name holds \<open>|\<close> and no
  source is the name of a member of \<open>Object.prototype\<close>: a candidate is rejected if and only if
  its first name is within two edits of the first name of an existing pair with its last name
  (a candidate that is an existing pair is at distance 0 of it).
\<close>

lemma isTooSimilarToExisting_iff:
  assumes "plain_sources this" "no_bar this"
      and "pairs_index this = snd (build_pairs (allFirstnames this) (allLastnames this))"
  shows "fst (isTooSimilarToExisting this f l) =
           Inr (\<exists>(ef, el) \<in> set (existing_pairs this).
                   el = toLowerCase l \<and> levenshteinDistance f ef < 3)"
proof -
  have exact: "toLowerCase f @ ''|'' @ toLowerCase l \<in> set (pairs_index this) \<longleftrightarrow>
      (toLowerCase f, toLowerCase l) \<in> set (existing_pairs this)"
  proof
    assume "toLowerCase f @ ''|'' @ toLowerCase l \<in> set (pairs_index this)"
    then obtain ef el where p: "(ef, el) \<in> set (existing_pairs this)"
        "toLowerCase f @ ''|'' @ toLowerCase l = ef @ ''|'' @ el"
      unfolding assms(3) set_build_pairs_existing[OF assms(1)] by auto
    from p(2) have "toLowerCase f = ef \<and> toLowerCase l = el"
      using key_eq_iff existing_pairs_no_bar[OF assms(2) p(1)] by blast
    with p(1) show "(toLowerCase f, toLowerCase l) \<in> set (existing_pairs this)" by simp
  next
    assume "(toLowerCase f, toLowerCase l) \<in> set (existing_pairs this)"
    then show "toLowerCase f @ ''|'' @ toLowerCase l \<in> set (pairs_index this)"
      unfolding assms(3) set_build_pairs_existing[OF assms(1)] by force
  qed
  have scan: "scan_pairs (toLowerCase f) (toLowerCase l) (pairs_index this) \<longleftrightarrow>
      (\<exists>(ef, el) \<in> set (existing_pairs this). el = toLowerCase l \<and> levenshteinDistance f ef < 3)"
    unfolding assms(3) scan_pairs_existing[OF assms(2,1)] by (simp add: areTooSimilar_def)
  have "(toLowerCase f, toLowerCase l) \<in> set (existing_pairs this) \<Longrightarrow>
      \<exists>(ef, el) \<in> set (existing_pairs this). el = toLowerCase l \<and> levenshteinDistance f ef < 3"
  proof -
    assume m: "(toLowerCase f, toLowerCase l) \<in> set (existing_pairs this)"
    have "levenshteinDistance f (toLowerCase f) < 3"
      by (simp add: levenshteinDistance_lev_rec)
    with m show ?thesis by blast
  qed
  then show ?thesis
    unfolding isTooSimilarToExisting_eq[OF cache_ready_plain[OF assms(1)]] exact scan
    by auto
qed

text \<open>
  A verdict of \<open>generator.js\<close> on freshly loaded data: an exact match always rejects, and when
  no loaded name holds \<open>|\<close> a pair that is accepted is no exact match and is not within two
  edits of the first name of an existing pair with its last name.
\<close>

lemma isTooSimilarToExisting_accepts:
  assumes "plain_sources this"
      and "pairs_index this = snd (build_pairs (allFirstnames this) (allLastnames this))"
      and "fst (isTooSimilarToExisting this f l) = Inr False"
  shows "(toLowerCase f, toLowerCase l) \<notin> set (existing_pairs this)"
    and "no_bar this \<Longrightarrow> (ef, el) \<in> set (existing_pairs this) \<Longrightarrow> el = toLowerCase l \<Longrightarrow>
           \<not> levenshteinDistance f ef < 3"
proof -
  have k: "toLowerCase f @ ''|'' @ toLowerCase l \<notin> set (snd (build_pairs (allFirstnames this) (allLastnames this)))"
    using assms(2,3) unfolding isTooSimilarToExisting_eq[OF cache_ready_plain[OF assms(1)]] by simp
  show "(toLowerCase f, toLowerCase l) \<notin> set (existing_pairs this)"
    using k unfolding set_build_pairs_existing[OF assms(1)] by force
  show "\<not> levenshteinDistance f ef < 3"
    if "no_bar this" "(ef, el) \<in> set (existing_pairs this)" "el = toLowerCase l"
    using assms(3) that unfolding isTooSimilarToExisting_iff[OF assms(1) that(1) assms(2)] by auto
qed

text \<open>
  The invariant of the pairs that \<open>generate\<close> of \<open>generator.js\<close> emits, for data without a
  source that is the name of a member of \<open>Object.prototype\<close>, loaded without a cache or with
  the cache of these data: (a) no pair is an existing pair, (c) no two pairs are equal up to
  case, and, when no loaded name holds \<open>|\<close>, (b) no pair is within two edits of the first name
  of an existing pair with the same last name.
\<close>

lemma generate_novel:
  assumes rnd: "\<forall>k. 0 \<le> rnd k \<and> rnd k < 1"
      and plain: "plain_sources this"
      and cache: "pairs_index this = snd (build_pairs (allFirstnames this) (allLastnames this))"
      and gen: "generate rnd pos count sourceFilter this = (Inr results, pos', this')"
  shows "\<forall>p \<in> set results. (toLowerCase (pair_firstname p), toLowerCase (pair_lastname p))
            \<notin> set (existing_pairs this)"
    and "no_bar this \<Longrightarrow> \<forall>p \<in> set results. \<forall>(ef, el) \<in> set (existing_pairs this).
            el = toLowerCase (pair_lastname p) \<longrightarrow> \<not> levenshteinDistance (pair_firstname p) ef < 3"
    and "distinct (map lowered results)"
proof -
  have l: "loaded this" "getFirstnames this sourceFilter \<noteq> []" "getLastnames this sourceFilter \<noteq> []"
    using gen by (auto simp: generate_def Let_def split: if_splits)
  from generate_run[OF rnd l cache_ready_plain[OF plain], of count pos] gen
  have r: "\<forall>p \<in> set results.
             fst (isTooSimilarToExisting this (pair_firstname p) (pair_lastname p)) = Inr False"
          "distinct (map lowered results)"
    by auto
  show "distinct (map lowered results)" by (rule r(2))
  show "\<forall>p \<in> set results. (toLowerCase (pair_firstname p), toLowerCase (pair_lastname p))
            \<notin> set (existing_pairs this)"
    using r(1) isTooSimilarToExisting_accepts(1)[OF plain cache] by blast
  show "\<forall>p \<in> set results. \<forall>(ef, el) \<in> set (existing_pairs this).
            el = toLowerCase (pair_lastname p) \<longrightarrow> \<not> levenshteinDistance (pair_firstname p) ef < 3"
    if "no_bar this"
    using r(1) isTooSimilarToExisting_accepts(2)[OF plain cache _ that] by blast
qed

lemma pairs_index_fresh:
  "existingPairsCache this = None \<Longrightarrow>
     pairs_index this = snd (build_pairs (allFirstnames this) (allLastnames this))"
  by (simp add: pairs_index_def)

lemma loadData_fresh:
  "existingPairsCache (snd (loadData race sex firstnames lastnames b1 b2 this)) = None"
  by (simp add: loadData_def Let_def split: fetch_result.splits)

text \<open>
  Loading leaves no cache, and \<open>generate\<close> leaves the cache of the loaded data: the condition
  of \<open>generate_novel\<close> holds after a load and after every later call of \<open>generate\<close>.
\<close>

lemma generate_keeps_index:
  assumes rnd: "\<forall>k. 0 \<le> rnd k \<and> rnd k < 1"
      and plain: "plain_sources this"
      and cache: "pairs_index this = snd (build_pairs (allFirstnames this) (allLastnames this))"
      and gen: "generate rnd pos count sourceFilter this = (r, pos', this')"
  shows "pairs_index this' = snd (build_pairs (allFirstnames this') (allLastnames this'))"
proof (cases "loaded this \<and> getFirstnames this sourceFilter \<noteq> [] \<and> getLastnames this sourceFilter \<noteq> []")
  case False
  then have "this' = this" using gen by (auto simp: generate_def Let_def split: if_splits)
  then show ?thesis using cache by simp
next
  case True
  from generate_run[OF rnd _ _ _ cache_ready_plain[OF plain], of sourceFilter count pos] True gen
  have "same_index this this'" by auto
  then show ?thesis using cache unfolding same_index_def by auto
qed

text \<open>The example of the specification on \<open>generator.js\<close>.\<close>

lemma aryon_savel_example:
  assumes rnd: "\<forall>k. 0 \<le> rnd k \<and> rnd k < 1"
      and gen: "generate rnd pos count sourceFilter aryon_savel = (Inr results, pos', this')"
  shows "\<lparr>pair_firstname = ''Aryon'', pair_lastname = ''Savel''\<rparr> \<notin> set results"
    and "\<forall>p \<in> set results. toLowerCase (pair_lastname p) = ''savel'' \<longrightarrow>
           \<not> levenshteinDistance (pair_firstname p) ''Aryon'' < 3"
proof -
  have c: "pairs_index aryon_savel = snd (build_pairs (allFirstnames aryon_savel) (allLastnames aryon_savel))"
    by (rule pairs_index_fresh) (simp add: aryon_savel_def)
  have e: "existing_pairs aryon_savel = [(''aryon'', ''savel'')]"
    by code_simp
  have nb: "no_bar aryon_savel"
    by (simp add: no_bar_def aryon_savel_def)
  have pl: "plain_sources aryon_savel"
    by code_simp
  have l: "toLowerCase ''Aryon'' = ''aryon''" "toLowerCase ''Savel'' = ''savel''"
    by code_simp+
  from generate_novel(1)[OF rnd pl c gen]
  show "\<lparr>pair_firstname = ''Aryon'', pair_lastname = ''Savel''\<rparr> \<notin> set results"
    unfolding e using l by force
  from generate_novel(2)[OF rnd pl c gen nb]
  have "\<forall>p \<in> set results. ''savel'' = toLowerCase (pair_lastname p) \<longrightarrow>
           \<not> levenshteinDistance (pair_firstname p) ''aryon'' < 3"
    unfolding e by simp
  moreover have "levenshteinDistance a ''aryon'' = levenshteinDistance a ''Aryon''" for a
    using levenshteinDistance_lower2[of a "''Aryon''"] unfolding l by simp
  ultimately show "\<forall>p \<in> set results. toLowerCase (pair_lastname p) = ''savel'' \<longrightarrow>
           \<not> levenshteinDistance (pair_firstname p) ''Aryon'' < 3"
    by metis
qed

lemma aryon_savel_dilborn:
  "fst (generate half_then_zero 0 1 ''all'' aryon_savel) =
     Inr [\<lparr>pair_firstname = ''Dilborn'', pair_lastname = ''Savel''\<rparr>]"
  by code_simp

section \<open>Blacklisted names among the existing pairs\<close>

lemma build_pairs_member:
  assumes "plain_sources this"
      and "f \<in> set (allFirstnames this)" "l \<in> set (allLastnames this)" "source f = source l"
  shows "toLowerCase (name f) @ ''|'' @ toLowerCase (name l)
           \<in> set (snd (build_pairs (allFirstnames this) (allLastnames this)))"
  unfolding set_build_pairs_existing[OF assms(1)] set_existing_pairs using assms(2-4)
  by force

lemma pool_not_blacklisted:
  "n \<in> set (getFirstnames this sourceFilter) \<Longrightarrow> toLowerCase n \<notin> blacklistedFirstnames this"
  using unique_names_pool(3)[of "blacklistedFirstnames this" "by_filter sourceFilter (allFirstnames this)"]
  unfolding getFirstnames_by_filter by blast

lemma isTooSimilarToExisting_blacklists:
  "fst (isTooSimilarToExisting (this\<lparr>blacklistedFirstnames := b1, blacklistedLastnames := b2\<rparr>) f l) =
     fst (isTooSimilarToExisting this f l)"
  by (simp add: isTooSimilarToExisting_def Let_def split: option.splits prod.splits)

text \<open>The verdicts on the two examples, for every candidate.\<close>

lemma blacklisted_aryon_verdict:
  "fst (isTooSimilarToExisting blacklisted_aryon f l) =
     Inr (toLowerCase l = ''savel'' \<and>
            (levenshteinDistance f ''Aryon'' < 3 \<or> levenshteinDistance f ''Vedam'' < 3) \<or>
          toLowerCase l = ''hlaalu'' \<and> levenshteinDistance f ''Aryan'' < 3)"
proof -
  have p: "plain_sources blacklisted_aryon" "no_bar blacklisted_aryon"
    by code_simp+
  have c: "pairs_index blacklisted_aryon =
      snd (build_pairs (allFirstnames blacklisted_aryon) (allLastnames blacklisted_aryon))"
    by (rule pairs_index_fresh) (simp add: blacklisted_aryon_def)
  have e: "existing_pairs blacklisted_aryon =
      [(''aryon'', ''savel''), (''vedam'', ''savel''), (''aryan'', ''hlaalu'')]"
    by code_simp
  have l: "toLowerCase ''Aryon'' = ''aryon''" "toLowerCase ''Vedam'' = ''vedam''"
          "toLowerCase ''Aryan'' = ''aryan''"
    by code_simp+
  have d: "levenshteinDistance f ''aryon'' = levenshteinDistance f ''Aryon''"
          "levenshteinDistance f ''vedam'' = levenshteinDistance f ''Vedam''"
          "levenshteinDistance f ''aryan'' = levenshteinDistance f ''Aryan''"
    using levenshteinDistance_lower2[of f "''Aryon''"] levenshteinDistance_lower2[of f "''Vedam''"]
          levenshteinDistance_lower2[of f "''Aryan''"]
    unfolding l by simp_all
  show ?thesis
    unfolding isTooSimilarToExisting_iff[OF p c] e using d by auto
qed

lemma without_aryon_verdict:
  "fst (isTooSimilarToExisting without_aryon f l) =
     Inr (toLowerCase l = ''savel'' \<and> levenshteinDistance f ''Vedam'' < 3 \<or>
          toLowerCase l = ''hlaalu'' \<and> levenshteinDistance f ''Aryan'' < 3)"
proof -
  have p: "plain_sources without_aryon" "no_bar without_aryon"
    by code_simp+
  have c: "pairs_index without_aryon =
      snd (build_pairs (allFirstnames without_aryon) (allLastnames without_aryon))"
    by (rule pairs_index_fresh) (simp add: without_aryon_def blacklisted_aryon_def)
  have e: "existing_pairs without_aryon = [(''vedam'', ''savel''), (''aryan'', ''hlaalu'')]"
    by code_simp
  have l: "toLowerCase ''Vedam'' = ''vedam''" "toLowerCase ''Aryan'' = ''aryan''"
    by code_simp+
  have d: "levenshteinDistance f ''vedam'' = levenshteinDistance f ''Vedam''"
          "levenshteinDistance f ''aryan'' = levenshteinDistance f ''Aryan''"
    using levenshteinDistance_lower2[of f "''Vedam''"] levenshteinDistance_lower2[of f "''Aryan''"]
    unfolding l by simp_all
  show ?thesis
    unfolding isTooSimilarToExisting_iff[OF p c] e using d by auto
qed

text \<open>
  Claim C9. In \<open>generator.js\<close> the set of existing pairs is built from all loaded first names
  and last names of each source, whatever the blacklists hold: the verdict of
  \<open>isTooSimilarToExisting\<close> does not depend on the blacklists, while no name of a pool is
  blacklisted. There are data for which a candidate is rejected only because of a blacklisted
  name. With Aryon and Vedam (base list) and Aryan (expansion) as first names, Savel (base
  list) and Hlaalu (expansion) as last names and Aryon blacklisted, Aryon is in no pool and
  \<open>aryon|savel\<close> is a key. A candidate is rejected exactly when its last name is Savel and its
  first name is within two edits of Aryon or of Vedam, or its last name is Hlaalu and its
  first name is within two edits of Aryan. So Aryan Savel is rejected for its distance 1 to
  Aryon alone (its distance to Vedam is 4), Vedam Hlaalu is accepted, and \<open>generate\<close> never
  returns Aryan Savel. On the same data without the entry Aryon, Aryan Savel is accepted and
  \<open>generate\<close> returns it.
\<close>

theorem blacklisted_names_still_block:
  "(plain_sources this \<longrightarrow>
      (\<forall>f \<in> set (allFirstnames this). \<forall>l \<in> set (allLastnames this). source f = source l \<longrightarrow>
          toLowerCase (name f) @ ''|'' @ toLowerCase (name l)
            \<in> set (snd (build_pairs (allFirstnames this) (allLastnames this))))) \<and>
   fst (isTooSimilarToExisting (this\<lparr>blacklistedFirstnames := b1, blacklistedLastnames := b2\<rparr>)
          firstname lastname) =
     fst (isTooSimilarToExisting this firstname lastname) \<and>
   (\<forall>n \<in> set (getFirstnames this sourceFilter). toLowerCase n \<notin> blacklistedFirstnames this) \<and>
   \<lparr>name = ''Aryon'', source = ''vanilla''\<rparr> \<in> set (allFirstnames blacklisted_aryon) \<and>
   \<lparr>name = ''Savel'', source = ''vanilla''\<rparr> \<in> set (allLastnames blacklisted_aryon) \<and>
   toLowerCase ''Aryon'' \<in> blacklistedFirstnames blacklisted_aryon \<and>
   ''Aryon'' \<notin> set (getFirstnames blacklisted_aryon sourceFilter) \<and>
   getFirstnames blacklisted_aryon ''all'' = [''Vedam'', ''Aryan''] \<and>
   getLastnames blacklisted_aryon ''all'' = [''Savel'', ''Hlaalu''] \<and>
   pairs_index blacklisted_aryon = [''aryon|savel'', ''vedam|savel'', ''aryan|hlaalu''] \<and>
   fst (isTooSimilarToExisting blacklisted_aryon f l) =
     Inr (toLowerCase l = ''savel'' \<and>
            (levenshteinDistance f ''Aryon'' < 3 \<or> levenshteinDistance f ''Vedam'' < 3) \<or>
          toLowerCase l = ''hlaalu'' \<and> levenshteinDistance f ''Aryan'' < 3) \<and>
   levenshteinDistance ''Aryan'' ''Aryon'' = 1 \<and>
   levenshteinDistance ''Aryan'' ''Vedam'' = 4 \<and>
   toLowerCase ''Savel'' = ''savel'' \<and>
   fst (isTooSimilarToExisting blacklisted_aryon ''Aryan'' ''Savel'') = Inr True \<and>
   fst (isTooSimilarToExisting blacklisted_aryon ''Vedam'' ''Hlaalu'') = Inr False \<and>
   ((\<forall>k. 0 \<le> rnd k \<and> rnd k < 1) \<longrightarrow>
      (\<exists>results pos' this'.
          generate rnd pos count ''all'' blacklisted_aryon = (Inr results, pos', this') \<and>
          \<lparr>pair_firstname = ''Aryan'', pair_lastname = ''Savel''\<rparr> \<notin> set results \<and>
          (\<forall>p \<in> set results. p = \<lparr>pair_firstname = ''Vedam'', pair_lastname = ''Hlaalu''\<rparr>))) \<and>
   allFirstnames without_aryon =
     [\<lparr>name = ''Vedam'', source = ''vanilla''\<rparr>, \<lparr>name = ''Aryan'', source = ''tr''\<rparr>] \<and>
   allLastnames without_aryon = allLastnames blacklisted_aryon \<and>
   pairs_index without_aryon = [''vedam|savel'', ''aryan|hlaalu''] \<and>
   fst (isTooSimilarToExisting without_aryon f l) =
     Inr (toLowerCase l = ''savel'' \<and> levenshteinDistance f ''Vedam'' < 3 \<or>
          toLowerCase l = ''hlaalu'' \<and> levenshteinDistance f ''Aryan'' < 3) \<and>
   fst (isTooSimilarToExisting without_aryon ''Aryan'' ''Savel'') = Inr False \<and>
   fst (generate half_then_zero 0 1 ''all'' without_aryon) =
     Inr [\<lparr>pair_firstname = ''Aryan'', pair_lastname = ''Savel''\<rparr>]"
proof -
  have 1: "plain_sources this \<longrightarrow>
      (\<forall>f \<in> set (allFirstnames this). \<forall>l \<in> set (allLastnames this). source f = source l \<longrightarrow>
          toLowerCase (name f) @ ''|'' @ toLowerCase (name l)
            \<in> set (snd (build_pairs (allFirstnames this) (allLastnames this))))"
    using build_pairs_member[of this] by blast
  have 2: "fst (isTooSimilarToExisting (this\<lparr>blacklistedFirstnames := b1, blacklistedLastnames := b2\<rparr>)
          firstname lastname) =
     fst (isTooSimilarToExisting this firstname lastname)"
    by (rule isTooSimilarToExisting_blacklists)
  have 3: "\<forall>n \<in> set (getFirstnames this sourceFilter). toLowerCase n \<notin> blacklistedFirstnames this"
    using pool_not_blacklisted by blast
  have 4: "\<lparr>name = ''Aryon'', source = ''vanilla''\<rparr> \<in> set (allFirstnames blacklisted_aryon)"
          "\<lparr>name = ''Savel'', source = ''vanilla''\<rparr> \<in> set (allLastnames blacklisted_aryon)"
          "toLowerCase ''Aryon'' \<in> blacklistedFirstnames blacklisted_aryon"
    by code_simp+
  have 5: "''Aryon'' \<notin> set (getFirstnames blacklisted_aryon sourceFilter)"
    using 4(3) pool_not_blacklisted by blast
  have 6: "getFirstnames blacklisted_aryon ''all'' = [''Vedam'', ''Aryan'']"
          "getLastnames blacklisted_aryon ''all'' = [''Savel'', ''Hlaalu'']"
          "pairs_index blacklisted_aryon = [''aryon|savel'', ''vedam|savel'', ''aryan|hlaalu'']"
    by code_simp+
  have 7: "levenshteinDistance ''Aryan'' ''Aryon'' = 1"
          "levenshteinDistance ''Aryan'' ''Vedam'' = 4"
          "toLowerCase ''Savel'' = ''savel''"
          "fst (isTooSimilarToExisting blacklisted_aryon ''Aryan'' ''Savel'') = Inr True"
          "fst (isTooSimilarToExisting blacklisted_aryon ''Vedam'' ''Hlaalu'') = Inr False"
    by code_simp+
  have 8: "(\<forall>k. 0 \<le> rnd k \<and> rnd k < 1) \<longrightarrow>
      (\<exists>results pos' this'.
          generate rnd pos count ''all'' blacklisted_aryon = (Inr results, pos', this') \<and>
          \<lparr>pair_firstname = ''Aryan'', pair_lastname = ''Savel''\<rparr> \<notin> set results \<and>
          (\<forall>p \<in> set results. p = \<lparr>pair_firstname = ''Vedam'', pair_lastname = ''Hlaalu''\<rparr>))"
  proof
    assume rnd: "\<forall>k. 0 \<le> rnd k \<and> rnd k < 1"
    have h: "loaded blacklisted_aryon" "cache_ready blacklisted_aryon"
      by code_simp+
    have v: "fst (isTooSimilarToExisting blacklisted_aryon ''Vedam'' ''Savel'') = Inr True"
            "fst (isTooSimilarToExisting blacklisted_aryon ''Aryan'' ''Hlaalu'') = Inr True"
      by code_simp+
    from generate_run[OF rnd h(1) _ _ h(2), of "''all''" count pos] 6
    obtain results attempts this' where r:
      "generate rnd pos count ''all'' blacklisted_aryon = (Inr results, pos + 2 * attempts, this')"
      "\<forall>p \<in> set results. pair_firstname p \<in> set [''Vedam'', ''Aryan''] \<and>
          pair_lastname p \<in> set [''Savel'', ''Hlaalu''] \<and>
          fst (isTooSimilarToExisting blacklisted_aryon (pair_firstname p) (pair_lastname p)) = Inr False"
      by auto
    have a: "p = \<lparr>pair_firstname = ''Vedam'', pair_lastname = ''Hlaalu''\<rparr>" if "p \<in> set results" for p
    proof -
      from r(2) that have q: "pair_firstname p \<in> set [''Vedam'', ''Aryan'']"
          "pair_lastname p \<in> set [''Savel'', ''Hlaalu'']"
          "fst (isTooSimilarToExisting blacklisted_aryon (pair_firstname p) (pair_lastname p)) = Inr False"
        by blast+
      have "pair_firstname p = ''Vedam'' \<and> pair_lastname p = ''Hlaalu''"
        using q 7(4) v by auto
      then show ?thesis by (cases p) simp
    qed
    have n: "\<lparr>pair_firstname = ''Aryan'', pair_lastname = ''Savel''\<rparr> \<notin> set results"
    proof
      assume "\<lparr>pair_firstname = ''Aryan'', pair_lastname = ''Savel''\<rparr> \<in> set results"
      from a[OF this] show False by simp
    qed
    show "\<exists>results pos' this'.
          generate rnd pos count ''all'' blacklisted_aryon = (Inr results, pos', this') \<and>
          \<lparr>pair_firstname = ''Aryan'', pair_lastname = ''Savel''\<rparr> \<notin> set results \<and>
          (\<forall>p \<in> set results. p = \<lparr>pair_firstname = ''Vedam'', pair_lastname = ''Hlaalu''\<rparr>)"
      using r(1) n a by (intro exI[of _ results] exI[of _ "pos + 2 * attempts"] exI[of _ this']) simp
  qed
  have 9: "allFirstnames without_aryon =
     [\<lparr>name = ''Vedam'', source = ''vanilla''\<rparr>, \<lparr>name = ''Aryan'', source = ''tr''\<rparr>]"
          "allLastnames without_aryon = allLastnames blacklisted_aryon"
          "pairs_index without_aryon = [''vedam|savel'', ''aryan|hlaalu'']"
          "fst (isTooSimilarToExisting without_aryon ''Aryan'' ''Savel'') = Inr False"
          "fst (generate half_then_zero 0 1 ''all'' without_aryon) =
             Inr [\<lparr>pair_firstname = ''Aryan'', pair_lastname = ''Savel''\<rparr>]"
    by code_simp+
  show ?thesis
    using 1 2 3 4 5 6 7 8 9 blacklisted_aryon_verdict[of f l] without_aryon_verdict[of f l]
    by (intro conjI)
qed

theorem blacklisted_names_still_block_witness:
  "toLowerCase ''Aryon'' @ ''|'' @ toLowerCase ''Savel''
     \<in> set (snd (build_pairs (allFirstnames blacklisted_aryon) (allLastnames blacklisted_aryon))) \<and>
   toLowerCase ''Vedam'' \<notin> blacklistedFirstnames blacklisted_aryon \<and>
   fst (isTooSimilarToExisting blacklisted_aryon ''Aryan'' ''Savel'') = Inr True \<and>
   (\<exists>results pos' this'.
       generate zero_draws 0 5 ''all'' blacklisted_aryon = (Inr results, pos', this') \<and>
       \<lparr>pair_firstname = ''Aryan'', pair_lastname = ''Savel''\<rparr> \<notin> set results)"
proof -
  note t = blacklisted_names_still_block[where this = blacklisted_aryon and rnd = zero_draws
      and pos = 0 and count = 5 and sourceFilter = "''all''"]
  have m: "\<lparr>name = ''Aryon'', source = ''vanilla''\<rparr> \<in> set (allFirstnames blacklisted_aryon)"
          "\<lparr>name = ''Savel'', source = ''vanilla''\<rparr> \<in> set (allLastnames blacklisted_aryon)"
    by (simp_all add: blacklisted_aryon_def)
  have p: "plain_sources blacklisted_aryon"
    by code_simp
  have g: "getFirstnames blacklisted_aryon ''all'' = [''Vedam'', ''Aryan'']"
    by code_simp
  have "toLowerCase ''Aryon'' @ ''|'' @ toLowerCase ''Savel''
     \<in> set (snd (build_pairs (allFirstnames blacklisted_aryon) (allLastnames blacklisted_aryon)))"
    using t[THEN conjunct1, rule_format, OF p m] by simp
  moreover have "toLowerCase ''Vedam'' \<notin> blacklistedFirstnames blacklisted_aryon"
    using t[THEN conjunct2, THEN conjunct2, THEN conjunct1] unfolding g by simp
  moreover have "fst (isTooSimilarToExisting blacklisted_aryon ''Aryan'' ''Savel'') = Inr True"
    using t[THEN conjunct2, THEN conjunct2, THEN conjunct2, THEN conjunct2, THEN conjunct2, THEN conjunct2, THEN conjunct2, THEN conjunct2, THEN conjunct2, THEN conjunct2, THEN conjunct2, THEN conjunct2, THEN conjunct2, THEN conjunct2, THEN conjunct1] .
  moreover have "(\<forall>k. 0 \<le> zero_draws k \<and> zero_draws k < 1) \<longrightarrow>
      (\<exists>results pos' this'.
          generate zero_draws 0 5 ''all'' blacklisted_aryon = (Inr results, pos', this') \<and>
          \<lparr>pair_firstname = ''Aryan'', pair_lastname = ''Savel''\<rparr> \<notin> set results \<and>
          (\<forall>p \<in> set results. p = \<lparr>pair_firstname = ''Vedam'', pair_lastname = ''Hlaalu''\<rparr>))"
    using t[THEN conjunct2, THEN conjunct2, THEN conjunct2, THEN conjunct2, THEN conjunct2, THEN conjunct2, THEN conjunct2, THEN conjunct2, THEN conjunct2, THEN conjunct2, THEN conjunct2, THEN conjunct2, THEN conjunct2, THEN conjunct2, THEN conjunct2, THEN conjunct2, THEN conjunct1] .
  then have "\<exists>results pos' this'.
       generate zero_draws 0 5 ''all'' blacklisted_aryon = (Inr results, pos', this') \<and>
       \<lparr>pair_firstname = ''Aryan'', pair_lastname = ''Savel''\<rparr> \<notin> set results"
    using zero_draws_ok by blast
  ultimately show ?thesis by (intro conjI)
qed

section \<open>The checks of the other two variants\<close>

lemma scan_npcs_iff:
  "scan_npcs f l rest \<longleftrightarrow>
     (\<exists>n \<in> set rest. \<exists>el. npc_lastname n = Some el \<and> el \<noteq> [] \<and>
        (toLowerCase (f @ '' '' @ l) = toLowerCase (npc_firstname n @ '' '' @ el) \<or>
         (toLowerCase el = toLowerCase l \<and> areTooSimilar f (npc_firstname n) 3)))"
  by (induction rest) (auto simp: Let_def split: option.splits)

text \<open>
  The invariant of the pairs that \<open>generate\<close> emits in the variant with one file of characters:
  no pair is the name of a character with a last name, none is within two edits of the first
  name of a character with the same last name, and no two pairs are equal up to case.
\<close>

lemma generate_p1_novel:
  assumes rnd: "\<forall>k. 0 \<le> rnd k \<and> rnd k < 1"
      and gen: "generate_p1 rnd pos count sourceFilter this = (Inr results, pos', this')"
      and p: "p \<in> set results"
      and n: "n \<in> set (npcs this)" "npc_lastname n = Some el" "el \<noteq> []"
  shows "\<not> (toLowerCase (pair_firstname p) = toLowerCase (npc_firstname n) \<and>
            toLowerCase (pair_lastname p) = toLowerCase el)"
    and "toLowerCase el = toLowerCase (pair_lastname p) \<Longrightarrow>
           \<not> levenshteinDistance (pair_firstname p) (npc_firstname n) < 3"
    and "distinct (map lowered results)"
proof -
  have l: "loaded_p1 this" "getFirstnames_p1 this sourceFilter \<noteq> []" "getLastnames_p1 this sourceFilter \<noteq> []"
    using gen by (auto simp: generate_p1_def Let_def split: if_splits)
  from generate_p1_run[OF rnd l, of count pos] gen
  have r: "\<forall>p \<in> set results. \<not> scan_npcs (pair_firstname p) (pair_lastname p) (npcs this)"
          "distinct (map lowered results)"
    by auto
  show "distinct (map lowered results)" by (rule r(2))
  have s: "\<not> scan_npcs (pair_firstname p) (pair_lastname p) (npcs this)"
    using r(1) p by blast
  show "\<not> (toLowerCase (pair_firstname p) = toLowerCase (npc_firstname n) \<and>
            toLowerCase (pair_lastname p) = toLowerCase el)"
  proof
    assume a: "toLowerCase (pair_firstname p) = toLowerCase (npc_firstname n) \<and>
            toLowerCase (pair_lastname p) = toLowerCase el"
    then have "toLowerCase (pair_firstname p @ '' '' @ pair_lastname p) =
        toLowerCase (npc_firstname n @ '' '' @ el)"
      by (simp add: toLowerCase_def)
    then have "scan_npcs (pair_firstname p) (pair_lastname p) (npcs this)"
      unfolding scan_npcs_iff using n by blast
    with s show False by simp
  qed
  show "\<not> levenshteinDistance (pair_firstname p) (npc_firstname n) < 3"
    if "toLowerCase el = toLowerCase (pair_lastname p)"
    using s n that unfolding scan_npcs_iff by (auto simp: areTooSimilar_def)
qed

lemma scan_fullnames_iff:
  "scan_fullnames f l fullnames \<longleftrightarrow>
     (\<exists>existing \<in> set fullnames.
        toLowerCase (f @ '' '' @ l) = toLowerCase (name existing) \<or>
        (\<exists>ef. split CHR '' '' (toLowerCase (name existing)) = [ef, toLowerCase l] \<and>
              areTooSimilar (toLowerCase f) ef 3))"
  by (induction fullnames) (auto simp: Let_def split: list.splits)

end
